(* ===== verification/Soundify_Prelude.thy ===== *)
theory Soundify_Prelude
  imports Main "HOL-Library.AList" "HOL-Library.Sublist"
begin

text \<open>
  Shared vocabulary of the Soundify development: the exceptions the Python
  source can raise, the result type of fallible operations, the collections
  of facts the component theories feed, and generic list operations
  (splitting at a separator, the part after the last separator) with the
  lemmas every component uses.
\<close>

section \<open>Collections of facts\<close>

named_theorems str_defs "definitions of the Python string operations, for evaluation"
named_theorems dict_defs "definitions of the Python dictionary operations, for evaluation"
named_theorems fs_defs "definitions of the file-system operations, for evaluation"
named_theorems handler_defs "definitions of the handlers and their helpers, for evaluation"

section \<open>Exceptions and results\<close>

text \<open>
  The exception classes the source raises or catches. In Python 3
  \<^verbatim>\<open>IOError\<close> is an alias of \<^verbatim>\<open>OSError\<close>, and \<^verbatim>\<open>FileNotFoundError\<close>,
  \<^verbatim>\<open>IsADirectoryError\<close> and \<^verbatim>\<open>NotADirectoryError\<close> are subclasses of it.
  \<^verbatim>\<open>NotFound\<close> and \<^verbatim>\<open>InternalServerError\<close> are the exceptions of werkzeug
  that \<^verbatim>\<open>abort(404)\<close> and \<^verbatim>\<open>abort(500)\<close> raise; they carry the description.
  Each other exception carries the text \<^verbatim>\<open>str(e)\<close> shows.
\<close>

datatype py_exn =
    OSError string
  | FileNotFoundError string
  | IsADirectoryError string
  | NotADirectoryError string
  | TypeError string
  | AttributeError string
  | IndexError string
  | KeyError string
  | JSONDecodeError string
  | ID3NoHeaderError string
  | MutagenError string
  | NotFound string
  | InternalServerError string

type_synonym 'a result = "py_exn + 'a"

text \<open>\<^verbatim>\<open>isinstance(e, OSError)\<close>: what \<^verbatim>\<open>except IOError\<close> and \<^verbatim>\<open>except OSError\<close> catch.\<close>

fun is_OSError :: "py_exn \<Rightarrow> bool" where
  "is_OSError (OSError _) = True"
| "is_OSError (FileNotFoundError _) = True"
| "is_OSError (IsADirectoryError _) = True"
| "is_OSError (NotADirectoryError _) = True"
| "is_OSError _ = False"

text \<open>\<^verbatim>\<open>str(e)\<close> of an exception.\<close>

fun exn_text :: "py_exn \<Rightarrow> string" where
  "exn_text (OSError m) = m"
| "exn_text (FileNotFoundError m) = m"
| "exn_text (IsADirectoryError m) = m"
| "exn_text (NotADirectoryError m) = m"
| "exn_text (TypeError m) = m"
| "exn_text (AttributeError m) = m"
| "exn_text (IndexError m) = m"
| "exn_text (KeyError m) = m"
| "exn_text (JSONDecodeError m) = m"
| "exn_text (ID3NoHeaderError m) = m"
| "exn_text (MutagenError m) = m"
| "exn_text (NotFound d) = ''404 Not Found: '' @ d"
| "exn_text (InternalServerError d) = ''500 Internal Server Error: '' @ d"

text \<open>Sequencing of fallible steps: the first exception ends the sequence.\<close>

definition rbind :: "'a result \<Rightarrow> ('a \<Rightarrow> 'b result) \<Rightarrow> 'b result" where
  "rbind r f = (case r of Inl e \<Rightarrow> Inl e | Inr x \<Rightarrow> f x)"

lemma rbind_Inl [simp]: "rbind (Inl e) f = Inl e"
  by (simp add: rbind_def)

lemma rbind_Inr [simp]: "rbind (Inr x) f = f x"
  by (simp add: rbind_def)

lemma rbind_eq_Inr_iff:
  "rbind r f = Inr y \<longleftrightarrow> (\<exists>x. r = Inr x \<and> f x = Inr y)"
  by (cases r) simp_all

lemma rbind_eq_Inl_iff:
  "rbind r f = Inl e \<longleftrightarrow> r = Inl e \<or> (\<exists>x. r = Inr x \<and> f x = Inl e)"
  by (cases r) simp_all

section \<open>The part of a list after and before the last separator\<close>

definition after_last :: "'a \<Rightarrow> 'a list \<Rightarrow> 'a list" where
  "after_last c s = rev (takeWhile (\<lambda>x. x \<noteq> c) (rev s))"

definition before_last :: "'a \<Rightarrow> 'a list \<Rightarrow> 'a list" where
  "before_last c s = rev (tl (dropWhile (\<lambda>x. x \<noteq> c) (rev s)))"

lemma after_last_Nil [simp]: "after_last c [] = []"
  by (simp add: after_last_def)

lemma before_last_Nil [simp]: "before_last c [] = []"
  by (simp add: before_last_def)

lemma after_last_notin [simp]: "c \<notin> set (after_last c s)"
  by (auto simp: after_last_def dest: set_takeWhileD)

lemma takeWhile_neq_all: "c \<notin> set s \<Longrightarrow> takeWhile (\<lambda>x. x \<noteq> c) s = s"
  by (induction s) auto

lemma dropWhile_neq_all: "c \<notin> set s \<Longrightarrow> dropWhile (\<lambda>x. x \<noteq> c) (s @ c # t) = c # t"
  by (induction s) auto

lemma after_last_no_sep: "c \<notin> set s \<Longrightarrow> after_last c s = s"
  by (simp add: after_last_def takeWhile_neq_all)

lemma after_last_append_sep [simp]:
  "c \<notin> set t \<Longrightarrow> after_last c (s @ c # t) = t"
  by (simp add: after_last_def takeWhile_tail takeWhile_neq_all)

lemma before_last_append_sep [simp]:
  "c \<notin> set t \<Longrightarrow> before_last c (s @ c # t) = s"
  by (simp add: before_last_def dropWhile_neq_all)

lemma before_after_last:
  assumes "c \<in> set s"
  shows "before_last c s @ c # after_last c s = s"
proof -
  from assms have "c \<in> set (rev s)" by simp
  then have nonempty: "dropWhile (\<lambda>x. x \<noteq> c) (rev s) \<noteq> []"
    by (auto simp: dropWhile_eq_Nil_conv)
  then have hd: "hd (dropWhile (\<lambda>x. x \<noteq> c) (rev s)) = c"
    using hd_dropWhile [of "\<lambda>x. x \<noteq> c" "rev s"] by simp
  have "rev s = takeWhile (\<lambda>x. x \<noteq> c) (rev s) @ dropWhile (\<lambda>x. x \<noteq> c) (rev s)"
    by simp
  also have "\<dots> = takeWhile (\<lambda>x. x \<noteq> c) (rev s) @ c # tl (dropWhile (\<lambda>x. x \<noteq> c) (rev s))"
    using nonempty hd by (metis list.collapse)
  finally have "rev (rev s) = rev (takeWhile (\<lambda>x. x \<noteq> c) (rev s)
      @ c # tl (dropWhile (\<lambda>x. x \<noteq> c) (rev s)))"
    by simp
  then show ?thesis
    by (simp add: before_last_def after_last_def)
qed

lemma set_after_last_subset: "set (after_last c s) \<subseteq> set s"
  by (auto simp: after_last_def dest: set_takeWhileD)

lemma after_last_suffix: "suffix (after_last c s) s"
  by (metis after_last_def suffix_to_prefix takeWhile_is_prefix rev_rev_ident)

lemma length_after_last_le: "length (after_last c s) \<le> length s"
  by (simp add: after_last_suffix suffix_length_le)

section \<open>Splitting at a separator and joining\<close>

text \<open>
  Python's \<^verbatim>\<open>s.split(sep)\<close> for a one-character separator: the pieces
  between the separators, empty pieces included, at least one piece.
  \<^verbatim>\<open>sep.join(pieces)\<close> is its inverse.
\<close>

fun split_on :: "'a \<Rightarrow> 'a list \<Rightarrow> 'a list list" where
  "split_on c [] = [[]]"
| "split_on c (x # xs) =
     (if x = c then [] # split_on c xs
      else (case split_on c xs of [] \<Rightarrow> [[x]] | w # ws \<Rightarrow> (x # w) # ws))"

fun join_with :: "'a \<Rightarrow> 'a list list \<Rightarrow> 'a list" where
  "join_with c [] = []"
| "join_with c [w] = w"
| "join_with c (w # v # ws) = w @ c # join_with c (v # ws)"

lemma split_on_nonempty [simp]: "split_on c s \<noteq> []"
  by (induction s) (auto split: list.splits)

lemma split_on_no_sep: "c \<notin> set s \<Longrightarrow> split_on c s = [s]"
  by (induction s) auto

lemma split_on_pieces: "w \<in> set (split_on c s) \<Longrightarrow> c \<notin> set w"
  by (induction s arbitrary: w) (auto split: if_splits list.splits)

lemma join_with_Cons:
  "ws \<noteq> [] \<Longrightarrow> join_with c (w # ws) = w @ c # join_with c ws"
  by (cases ws) simp_all

lemma join_split_on [simp]: "join_with c (split_on c s) = s"
proof (induction s)
  case Nil
  show ?case by simp
next
  case (Cons x xs)
  show ?case
  proof (cases "x = c")
    case True
    with Cons show ?thesis by (simp add: join_with_Cons)
  next
    case False
    obtain w ws where split: "split_on c xs = w # ws"
      by (cases "split_on c xs") simp_all
    with Cons have "join_with c (w # ws) = xs" by simp
    then have "join_with c ((x # w) # ws) = x # xs"
      by (cases ws) simp_all
    with False split show ?thesis by simp
  qed
qed

lemma split_on_append_sep:
  "c \<notin> set w \<Longrightarrow> split_on c (w @ c # s) = w # split_on c s"
  by (induction w) auto

lemma split_join_with:
  assumes "ws \<noteq> []" and "\<forall>w \<in> set ws. c \<notin> set w"
  shows "split_on c (join_with c ws) = ws"
  using assms
proof (induction c ws rule: join_with.induct)
  case (1 c)
  then show ?case by simp
next
  case (2 c w)
  then show ?case by (simp add: split_on_no_sep)
next
  case (3 c w v ws)
  then show ?case by (simp add: split_on_append_sep)
qed

lemma split_on_single: "split_on c s = [w] \<Longrightarrow> c \<notin> set s"
  using join_split_on [of c s] split_on_pieces [of w c s] by simp

lemma after_last_Cons:
  "after_last c (x # xs) =
     (if c \<in> set xs then after_last c xs else if x = c then xs else x # xs)"
proof (cases "c \<in> set xs")
  case True
  then have "xs = before_last c xs @ c # after_last c xs"
    by (simp add: before_after_last)
  then have "after_last c (x # xs) = after_last c ((x # before_last c xs) @ c # after_last c xs)"
    by simp
  also have "\<dots> = after_last c xs"
    by (rule after_last_append_sep) simp
  finally show ?thesis using True by simp
next
  case False
  then show ?thesis
    using after_last_append_sep [of c xs "[]"] after_last_no_sep [of c "x # xs"] by auto
qed

lemma last_split_on: "last (split_on c s) = after_last c s"
proof (induction s)
  case Nil
  show ?case by simp
next
  case (Cons x xs)
  obtain w ws where split: "split_on c xs = w # ws"
    by (cases "split_on c xs") simp_all
  show ?case
  proof (cases ws)
    case Nil
    with split have "c \<notin> set xs" by (simp add: split_on_single)
    then show ?thesis by (simp add: after_last_Cons split_on_no_sep)
  next
    case (Cons v vs)
    with split have "c \<in> set xs"
      using split_on_no_sep [of c xs] by auto
    with Cons.IH split Cons show ?thesis by (simp add: after_last_Cons)
  qed
qed

section \<open>Association lists as insertion-ordered dictionaries\<close>

text \<open>
  A Python \<^verbatim>\<open>dict\<close> keeps its keys in insertion order; assigning to a key
  that is present keeps its position. \<^const>\<open>AList.update\<close> does exactly
  this, \<^const>\<open>AList.delete\<close> is \<^verbatim>\<open>del d[k]\<close>, and \<^const>\<open>map_of\<close> is the
  lookup. The facts below are the ones the catalog proofs share.
\<close>

lemma map_of_update_same [simp]: "map_of (AList.update k v al) k = Some v"
  by (simp add: update_conv')

lemma map_of_update_other [simp]:
  "k' \<noteq> k \<Longrightarrow> map_of (AList.update k v al) k' = map_of al k'"
  by (simp add: update_conv')

lemma map_of_delete_same [simp]: "map_of (AList.delete k al) k = None"
  by (simp add: delete_conv')

lemma map_of_delete_other [simp]:
  "k' \<noteq> k \<Longrightarrow> map_of (AList.delete k al) k' = map_of al k'"
  by (simp add: delete_conv')

lemma update_absent: "k \<notin> fst ` set al \<Longrightarrow> AList.update k v al = al @ [(k, v)]"
  by (induction al) auto

lemma delete_update_absent:
  "k \<notin> fst ` set al \<Longrightarrow> AList.delete k (AList.update k v al) = al"
  by (induction al) auto

lemma values_of_distinct:
  "distinct (map fst al) \<Longrightarrow> (k, v) \<in> set al \<longleftrightarrow> map_of al k = Some v"
  by (auto dest: map_of_SomeD)

end
