(* ===== verification/Py_String.thy ===== *)
theory Py_String
  imports Soundify_Prelude
begin

text \<open>
  The operations of Python's \<^verbatim>\<open>str\<close> that \<^verbatim>\<open>src/app.py\<close> calls, over
  \<^typ>\<open>string\<close>: \<^verbatim>\<open>lower\<close>, \<^verbatim>\<open>rsplit(sep, 1)\<close>, \<^verbatim>\<open>split(sep)\<close>,
  \<^verbatim>\<open>startswith\<close>, \<^verbatim>\<open>lstrip(chars)\<close>, \<^verbatim>\<open>strip()\<close>, and the decimal
  form of an integer that an f-string prints; then
  \<^verbatim>\<open>werkzeug.utils.secure_filename\<close>, which the upload handler applies to
  the client's file name. A \<^typ>\<open>char\<close> is a byte: the operations are
  those of Python on ASCII text, and bytes above 127 are letters of no case
  and no class.
\<close>

section \<open>Character classes\<close>

definition ascii_uppercase :: string where
  "ascii_uppercase = ''ABCDEFGHIJKLMNOPQRSTUVWXYZ''"

definition ascii_lowercase :: string where
  "ascii_lowercase = ''abcdefghijklmnopqrstuvwxyz''"

definition digits :: string where
  "digits = ''0123456789''"

text \<open>The ASCII characters for which \<^verbatim>\<open>str.isspace\<close> holds.\<close>

definition whitespace :: string where
  "whitespace = [CHR 0x09, CHR 0x0A, CHR 0x0B, CHR 0x0C, CHR 0x0D,
                 CHR 0x1C, CHR 0x1D, CHR 0x1E, CHR 0x1F, CHR 0x20]"

definition isspace :: "char \<Rightarrow> bool" where
  "isspace c \<longleftrightarrow> c \<in> set whitespace"

section \<open>lower\<close>

definition lower_char :: "char \<Rightarrow> char" where
  "lower_char c =
     (case map_of (zip ascii_uppercase ascii_lowercase) c of Some d \<Rightarrow> d | None \<Rightarrow> c)"

definition lower :: "string \<Rightarrow> string" where
  "lower s = map lower_char s"

section \<open>rsplit, startswith, lstrip, strip, split\<close>

text \<open>\<^verbatim>\<open>s.rsplit(sep, 1)\<close>: two pieces around the last separator, or the string alone.\<close>

definition rsplit1 :: "char \<Rightarrow> string \<Rightarrow> string list" where
  "rsplit1 c s = (if c \<in> set s then [before_last c s, after_last c s] else [s])"

definition startswith :: "string \<Rightarrow> string \<Rightarrow> bool" where
  "startswith s p \<longleftrightarrow> prefix p s"

text \<open>\<^verbatim>\<open>s.lstrip(chars)\<close>, \<^verbatim>\<open>s.rstrip(chars)\<close> and \<^verbatim>\<open>s.strip(chars)\<close>
  remove the leading or trailing characters that occur in \<^verbatim>\<open>chars\<close>.\<close>

definition lstrip :: "string \<Rightarrow> string \<Rightarrow> string" where
  "lstrip chars s = dropWhile (\<lambda>c. c \<in> set chars) s"

definition rstrip :: "string \<Rightarrow> string \<Rightarrow> string" where
  "rstrip chars s = rev (dropWhile (\<lambda>c. c \<in> set chars) (rev s))"

definition strip_chars :: "string \<Rightarrow> string \<Rightarrow> string" where
  "strip_chars chars s = rstrip chars (lstrip chars s)"

text \<open>\<^verbatim>\<open>s.strip()\<close> removes white space at both ends.\<close>

definition strip :: "string \<Rightarrow> string" where
  "strip s = strip_chars whitespace s"

text \<open>\<^verbatim>\<open>s.split()\<close>: the maximal runs of characters that are not white space.\<close>

fun split_ws :: "string \<Rightarrow> string list" where
  "split_ws [] = []"
| "split_ws (c # cs) =
     (if isspace c then split_ws cs
      else (case cs of
              [] \<Rightarrow> [[c]]
            | d # ds \<Rightarrow> if isspace d then [c] # split_ws cs
                       else (case split_ws cs of [] \<Rightarrow> [[c]] | w # ws \<Rightarrow> (c # w) # ws)))"

text \<open>\<^verbatim>\<open>s.replace(a, b)\<close> for single characters.\<close>

definition replace_char :: "char \<Rightarrow> char \<Rightarrow> string \<Rightarrow> string" where
  "replace_char a b s = map (\<lambda>c. if c = a then b else c) s"

section \<open>Decimal numerals\<close>

definition digit_char :: "nat \<Rightarrow> char" where
  "digit_char d = digits ! (d mod 10)"

fun str_of_nat :: "nat \<Rightarrow> string" where
  "str_of_nat n = (if n < 10 then [digit_char n] else str_of_nat (n div 10) @ [digit_char (n mod 10)])"

declare str_of_nat.simps [simp del]

definition str_of_int :: "int \<Rightarrow> string" where
  "str_of_int i = (if i < 0 then CHR ''-'' # str_of_nat (nat (- i)) else str_of_nat (nat i))"

section \<open>secure\_filename\<close>

text \<open>
  \<^verbatim>\<open>werkzeug.utils.secure_filename\<close> on a POSIX host: path separators
  become spaces, runs of white space become one underscore, every character
  outside \<^verbatim>\<open>[A-Za-z0-9_.-]\<close> is removed, and leading and trailing dots
  and underscores are stripped. On ASCII names this is werkzeug's function;
  a byte above 127 is removed, where werkzeug keeps the ASCII letters of the
  character's compatibility decomposition.
\<close>

definition filename_chars :: string where
  "filename_chars = ascii_uppercase @ ascii_lowercase @ digits @ ''_.-''"

definition secure_filename :: "string \<Rightarrow> string" where
  "secure_filename filename =
     strip_chars ''._''
       (filter (\<lambda>c. c \<in> set filename_chars)
          (join_with (CHR ''_'') (split_ws (replace_char (CHR ''/'') (CHR '' '') filename))))"

lemmas [str_defs] =
  ascii_uppercase_def ascii_lowercase_def digits_def whitespace_def isspace_def
  lower_char_def lower_def rsplit1_def startswith_def lstrip_def rstrip_def
  strip_chars_def strip_def replace_char_def digit_char_def str_of_int_def
  filename_chars_def secure_filename_def after_last_def before_last_def

section \<open>Facts about lower\<close>

lemma length_lower [simp]: "length (lower s) = length s"
  by (simp add: lower_def)

lemma lower_Nil [simp]: "lower [] = []"
  by (simp add: lower_def)

lemma lower_Cons [simp]: "lower (c # s) = lower_char c # lower s"
  by (simp add: lower_def)

lemma lower_append [simp]: "lower (s @ t) = lower s @ lower t"
  by (simp add: lower_def)

lemma lower_char_not_upper: "lower_char c \<notin> set ascii_uppercase"
  by (simp add: lower_char_def ascii_uppercase_def ascii_lowercase_def)

lemma lower_char_fixed: "c \<notin> set ascii_uppercase \<Longrightarrow> lower_char c = c"
  by (simp add: lower_char_def ascii_uppercase_def ascii_lowercase_def)

lemma lower_char_idem [simp]: "lower_char (lower_char c) = lower_char c"
  by (rule lower_char_fixed) (rule lower_char_not_upper)

lemma lower_idem [simp]: "lower (lower s) = lower s"
  by (simp add: lower_def)

lemma lower_fixed: "set s \<inter> set ascii_uppercase = {} \<Longrightarrow> lower s = s"
  by (induction s) (auto simp: lower_char_fixed)

text \<open>Only the two characters \<^verbatim>\<open>.\<close> and \<^verbatim>\<open>/\<close> matter as separators, and
  lower-casing neither makes nor removes one.\<close>

lemma lower_char_eq_dot [simp]: "lower_char c = CHR ''.'' \<longleftrightarrow> c = CHR ''.''"
  by (simp add: lower_char_def ascii_uppercase_def ascii_lowercase_def)

lemma lower_char_eq_slash [simp]: "lower_char c = CHR ''/'' \<longleftrightarrow> c = CHR ''/''"
  by (simp add: lower_char_def ascii_uppercase_def ascii_lowercase_def)

section \<open>Facts about rsplit, startswith and the strips\<close>

lemma length_rsplit1: "length (rsplit1 c s) = (if c \<in> set s then 2 else 1)"
  by (simp add: rsplit1_def)

lemma rsplit1_nth1: "c \<in> set s \<Longrightarrow> rsplit1 c s ! Suc 0 = after_last c s"
  by (simp add: rsplit1_def)

lemma rsplit1_nth0: "c \<in> set s \<Longrightarrow> rsplit1 c s ! 0 = before_last c s"
  by (simp add: rsplit1_def)

lemma join_rsplit1: "join_with c (rsplit1 c s) = s"
  by (simp add: rsplit1_def before_after_last)

lemma startswith_Nil [simp]: "startswith s []"
  by (simp add: startswith_def)

lemma startswith_append [simp]: "startswith (p @ s) p"
  by (simp add: startswith_def)

lemma startswith_Cons [simp]:
  "startswith (c # s) (d # p) \<longleftrightarrow> c = d \<and> startswith s p"
  by (auto simp: startswith_def)

lemma startswith_Nil_left [simp]: "startswith [] p \<longleftrightarrow> p = []"
  by (simp add: startswith_def)

lemma startswith_iff: "startswith s p \<longleftrightarrow> (\<exists>t. s = p @ t)"
  by (auto simp: startswith_def prefix_def)

lemma lstrip_suffix: "suffix (lstrip chars s) s"
  by (simp add: lstrip_def suffix_dropWhile)

lemma lstrip_hd: "lstrip chars s = c # t \<Longrightarrow> c \<notin> set chars"
  using hd_dropWhile [of "\<lambda>c. c \<in> set chars" s] by (auto simp: lstrip_def)

lemma lstrip_fixed: "s = [] \<or> hd s \<notin> set chars \<Longrightarrow> lstrip chars s = s"
  by (cases s) (auto simp: lstrip_def)

lemma lstrip_idem [simp]: "lstrip chars (lstrip chars s) = lstrip chars s"
  by (rule lstrip_fixed) (metis lstrip_hd list.collapse)

lemma lstrip_replicate: "c \<in> set chars \<Longrightarrow> lstrip chars (replicate n c @ s) = lstrip chars s"
  by (induction n) (simp_all add: lstrip_def)

lemma set_strip_chars_subset: "set (strip_chars chars s) \<subseteq> set s"
  by (auto simp: strip_chars_def rstrip_def lstrip_def dest!: set_dropWhileD)

lemma strip_chars_hd: "strip_chars chars s = c # t \<Longrightarrow> c \<notin> set chars"
proof -
  assume eq: "strip_chars chars s = c # t"
  let ?l = "lstrip chars s"
  from eq have "prefix (c # t) ?l"
    by (metis strip_chars_def rstrip_def dropWhile_eq_drop drop_rev prefix_def
        append_take_drop_id rev_rev_ident rev_take length_rev)
  then obtain u where "?l = c # u" by (auto simp: prefix_def)
  then show ?thesis by (rule lstrip_hd)
qed

lemma strip_chars_last:
  "strip_chars chars s \<noteq> [] \<Longrightarrow> last (strip_chars chars s) \<notin> set chars"
  using hd_dropWhile [of "\<lambda>c. c \<in> set chars" "rev (lstrip chars s)"]
  by (simp add: strip_chars_def rstrip_def last_rev)

section \<open>Facts about secure\_filename\<close>

lemma secure_filename_chars: "set (secure_filename f) \<subseteq> set filename_chars"
  unfolding secure_filename_def
  by (rule subset_trans [OF set_strip_chars_subset]) auto

lemma secure_filename_no_slash: "CHR ''/'' \<notin> set (secure_filename f)"
  using secure_filename_chars [of f]
  by (auto simp: filename_chars_def ascii_uppercase_def ascii_lowercase_def digits_def)

lemma secure_filename_no_leading_dot: "secure_filename f = c # t \<Longrightarrow> c \<noteq> CHR ''.''"
  unfolding secure_filename_def by (drule strip_chars_hd) simp

lemma secure_filename_not_dots:
  "secure_filename f \<noteq> ''.''" "secure_filename f \<noteq> ''..''"
  using secure_filename_no_leading_dot [of f] by auto

section \<open>Facts about decimal numerals\<close>

lemma digit_char_inj: "a < 10 \<Longrightarrow> b < 10 \<Longrightarrow> digit_char a = digit_char b \<Longrightarrow> a = b"
proof -
  have "distinct digits" "length digits = 10" by (simp_all add: digits_def)
  then show "a < 10 \<Longrightarrow> b < 10 \<Longrightarrow> digit_char a = digit_char b \<Longrightarrow> a = b"
    by (simp add: digit_char_def nth_eq_iff_index_eq)
qed

lemma str_of_nat_nonempty [simp]: "str_of_nat n \<noteq> []" "[] \<noteq> str_of_nat n"
  by (subst str_of_nat.simps, simp)+

lemma str_of_nat_snoc:
  "str_of_nat n = (if n < 10 then [] else str_of_nat (n div 10)) @ [digit_char (n mod 10)]"
  by (subst str_of_nat.simps) simp

text \<open>Different numbers print differently.\<close>

lemma str_of_nat_inj: "str_of_nat m = str_of_nat n \<Longrightarrow> m = n"
proof (induction m arbitrary: n rule: str_of_nat.induct)
  case (1 m)
  from "1.prems" have last: "digit_char (m mod 10) = digit_char (n mod 10)"
    and init: "(if m < 10 then [] else str_of_nat (m div 10))
             = (if n < 10 then [] else str_of_nat (n div 10))"
    using str_of_nat_snoc [of m] str_of_nat_snoc [of n] by simp_all
  from last have mods: "m mod 10 = n mod 10" by (auto intro: digit_char_inj)
  show ?case
  proof (cases "m < 10")
    case True
    with init have "n < 10" by (auto split: if_splits)
    with True mods show ?thesis by simp
  next
    case False
    with init have "\<not> n < 10" and "str_of_nat (m div 10) = str_of_nat (n div 10)"
      by (auto split: if_splits)
    with False "1.IH" have "m div 10 = n div 10" by simp
    with mods show ?thesis by (metis div_mult_mod_eq)
  qed
qed

lemma str_of_nat_digits: "set (str_of_nat n) \<subseteq> set digits"
proof (induction n rule: str_of_nat.induct)
  case (1 n)
  have "length digits = 10" by (simp add: digits_def)
  then have "digit_char k \<in> set digits" for k
    unfolding digit_char_def by (intro nth_mem) simp
  with 1 show ?case by (subst str_of_nat.simps) auto
qed

section \<open>What secure\_filename keeps\<close>

text \<open>A character that is kept: a letter or a digit of the name stays in the
  sanitised name.\<close>

lemma concat_split_ws_Cons:
  "concat (split_ws (c # cs)) =
     (if isspace c then concat (split_ws cs) else c # concat (split_ws cs))"
proof (cases cs)
  case Nil
  then show ?thesis by simp
next
  case (Cons d ds)
  show ?thesis
    by (subst split_ws.simps) (simp add: Cons del: split_ws.simps split: list.splits)
qed

lemma concat_split_ws: "concat (split_ws s) = filter (\<lambda>c. \<not> isspace c) s"
  by (induction s) (simp_all add: concat_split_ws_Cons del: split_ws.simps(2))

lemma split_ws_keeps: "c \<in> set s \<Longrightarrow> \<not> isspace c \<Longrightarrow> c \<in> set (concat (split_ws s))"
  by (simp add: concat_split_ws)

lemma set_concat_join_with: "set (concat ws) \<subseteq> set (join_with c ws)"
  by (induction c ws rule: join_with.induct) auto

lemma dropWhile_keeps: "x \<in> set xs \<Longrightarrow> \<not> P x \<Longrightarrow> x \<in> set (dropWhile P xs)"
  by (induction xs) auto

lemma strip_chars_keeps: "c \<in> set s \<Longrightarrow> c \<notin> set chars \<Longrightarrow> c \<in> set (strip_chars chars s)"
  by (simp add: strip_chars_def rstrip_def lstrip_def dropWhile_keeps)

lemma alnum_disjoint:
  "set (''/._'' @ whitespace)
      \<inter> (set ascii_lowercase \<union> set ascii_uppercase \<union> set digits) = {}"
  by (simp add: ascii_lowercase_def ascii_uppercase_def digits_def whitespace_def)

lemma alnum_facts:
  assumes "c \<in> set ascii_lowercase \<union> set ascii_uppercase \<union> set digits"
  shows "c \<noteq> CHR ''/''" "\<not> isspace c" "c \<notin> set ''._''"
proof -
  from assms alnum_disjoint have "c \<notin> set (''/._'' @ whitespace)" by blast
  then show "c \<noteq> CHR ''/''" "\<not> isspace c" "c \<notin> set ''._''"
    by (simp_all add: isspace_def)
qed

lemma alnum_filename_chars:
  "c \<in> set ascii_lowercase \<union> set ascii_uppercase \<union> set digits \<Longrightarrow> c \<in> set filename_chars"
  by (simp add: filename_chars_def) blast

lemma replace_char_keeps: "c \<in> set s \<Longrightarrow> c \<noteq> a \<Longrightarrow> c \<in> set (replace_char a b s)"
  by (induction s) (auto simp: replace_char_def)

lemma secure_filename_keeps:
  assumes "c \<in> set name" and "c \<in> set ascii_lowercase \<union> set ascii_uppercase \<union> set digits"
  shows "c \<in> set (secure_filename name)"
proof -
  note c = alnum_facts [OF assms(2)]
  from assms(1) c(1) have "c \<in> set (replace_char (CHR ''/'') (CHR '' '') name)"
    by (rule replace_char_keeps)
  then have "c \<in> set (concat (split_ws (replace_char (CHR ''/'') (CHR '' '') name)))"
    using c(2) by (rule split_ws_keeps)
  with set_concat_join_with have "c \<in> set (join_with (CHR ''_'')
      (split_ws (replace_char (CHR ''/'') (CHR '' '') name)))"
    by (rule subsetD)
  with alnum_filename_chars [OF assms(2)] have "c \<in> set (filter (\<lambda>c. c \<in> set filename_chars)
      (join_with (CHR ''_'') (split_ws (replace_char (CHR ''/'') (CHR '' '') name))))"
    by simp
  then show ?thesis
    unfolding secure_filename_def using c(3) by (rule strip_chars_keeps)
qed

lemma lower_char_lowercase:
  "c \<in> set ascii_uppercase \<Longrightarrow> lower_char c \<in> set ascii_lowercase"
proof -
  assume "c \<in> set ascii_uppercase"
  then obtain d where d: "map_of (zip ascii_uppercase ascii_lowercase) c = Some d"
    by (metis map_of_zip_is_Some length_map ascii_uppercase_def ascii_lowercase_def
        length_Cons not_None_eq)
  then have "d \<in> set ascii_lowercase" by (auto dest: map_of_SomeD set_zip_rightD)
  with d show ?thesis by (simp add: lower_char_def)
qed

lemma lower_char_eq_digit: "lower_char c = CHR ''3'' \<Longrightarrow> c = CHR ''3''"
proof (cases "c \<in> set ascii_uppercase")
  case True
  then have "lower_char c \<in> set ascii_lowercase" by (rule lower_char_lowercase)
  moreover assume "lower_char c = CHR ''3''"
  ultimately show ?thesis by (simp add: ascii_lowercase_def)
next
  case False
  moreover assume "lower_char c = CHR ''3''"
  ultimately show ?thesis by (simp add: lower_char_fixed)
qed

end
