(* ===== verification/Py_Path.thy ===== *)
theory Py_Path
  imports Py_String
begin

text \<open>
  The pure path operations the source uses: \<^verbatim>\<open>os.path.join\<close> and
  \<^verbatim>\<open>os.path.splitext\<close> on strings, and \<^verbatim>\<open>pathlib.Path\<close> (its parsing of
  a string, the \<^verbatim>\<open>/\<close> operator, \<^verbatim>\<open>str\<close>, \<^verbatim>\<open>name\<close> and \<^verbatim>\<open>stem\<close>) on a
  POSIX host. None of them touches the file system. A path that starts with
  exactly two slashes keeps both in pathlib; here every run of leading slashes
  is the one root.
\<close>

section \<open>os.path\<close>

text \<open>\<^verbatim>\<open>os.path.join(a, b)\<close> for two components.\<close>

definition os_path_join :: "string \<Rightarrow> string \<Rightarrow> string" where
  "os_path_join a b =
     (if startswith b ''/'' then b
      else if a = [] \<or> last a = CHR ''/'' then a @ b
      else a @ ''/'' @ b)"

text \<open>
  \<^verbatim>\<open>os.path.splitext(p)\<close>: the extension starts at the last dot of the
  last component, unless only dots precede it there.
\<close>

definition splitext :: "string \<Rightarrow> string \<times> string" where
  "splitext p =
     (let name = after_last (CHR ''/'') p in
      if CHR ''.'' \<in> set name \<and> (\<exists>c \<in> set (before_last (CHR ''.'') name). c \<noteq> CHR ''.'')
      then (before_last (CHR ''.'') p, CHR ''.'' # after_last (CHR ''.'') p)
      else (p, []))"

section \<open>pathlib.Path\<close>

text \<open>
  A pure path is its anchor (rooted at \<^verbatim>\<open>/\<close> or relative) and its parts.
  Parsing drops empty components and \<^verbatim>\<open>.\<close> components and keeps \<^verbatim>\<open>..\<close>.
\<close>

record path =
  anchor :: bool
  parts :: "string list"

definition Path :: "string \<Rightarrow> path" where
  "Path s = \<lparr>anchor = startswith s ''/'',
            parts = filter (\<lambda>c. c \<noteq> [] \<and> c \<noteq> ''.'') (split_on (CHR ''/'') s)\<rparr>"

text \<open>\<^verbatim>\<open>p / s\<close> for a string \<^verbatim>\<open>s\<close>: an absolute right operand replaces the left one.\<close>

definition joinpath :: "path \<Rightarrow> string \<Rightarrow> path" where
  "joinpath p s =
     (let q = Path s in if anchor q then q else p\<lparr>parts := parts p @ parts q\<rparr>)"

text \<open>\<^verbatim>\<open>str(p)\<close>.\<close>

definition path_str :: "path \<Rightarrow> string" where
  "path_str p =
     (if anchor p then CHR ''/'' # join_with (CHR ''/'') (parts p)
      else if parts p = [] then ''.''
      else join_with (CHR ''/'') (parts p))"

text \<open>\<^verbatim>\<open>p.name\<close>: the last part, or the empty string.\<close>

definition path_name :: "path \<Rightarrow> string" where
  "path_name p = (if parts p = [] then [] else last (parts p))"

text \<open>\<^verbatim>\<open>p.stem\<close>: the name without its last suffix; a leading or a trailing
  dot starts no suffix.\<close>

definition path_stem :: "path \<Rightarrow> string" where
  "path_stem p =
     (let name = path_name p; i = length (before_last (CHR ''.'') name) in
      if CHR ''.'' \<in> set name \<and> 0 < i \<and> i < length name - 1
      then before_last (CHR ''.'') name else name)"

text \<open>Well-formed parts: what parsing produces.\<close>

definition part_ok :: "string \<Rightarrow> bool" where
  "part_ok c \<longleftrightarrow> c \<noteq> [] \<and> c \<noteq> ''.'' \<and> CHR ''/'' \<notin> set c"

definition path_ok :: "path \<Rightarrow> bool" where
  "path_ok p \<longleftrightarrow> list_all part_ok (parts p)"

lemmas [str_defs] =
  os_path_join_def splitext_def Path_def joinpath_def path_str_def path_name_def
  path_stem_def part_ok_def path_ok_def Let_def

section \<open>Facts\<close>

lemma anchor_Path [simp]: "anchor (Path s) = startswith s ''/''"
  by (simp add: Path_def)

lemma path_ok_Path [simp]: "path_ok (Path s)"
  by (auto simp: path_ok_def Path_def part_ok_def list_all_iff dest: split_on_pieces)

lemma path_ok_joinpath [simp]: "path_ok p \<Longrightarrow> path_ok (joinpath p s)"
  using path_ok_Path [of s] by (simp add: joinpath_def Let_def path_ok_def)

lemma parts_joinpath_relative:
  "\<not> startswith s ''/'' \<Longrightarrow> parts (joinpath p s) = parts p @ parts (Path s)"
  by (simp add: joinpath_def Let_def)

lemma anchor_joinpath_relative:
  "\<not> startswith s ''/'' \<Longrightarrow> anchor (joinpath p s) = anchor p"
  by (simp add: joinpath_def Let_def)

lemma joinpath_absolute: "startswith s ''/'' \<Longrightarrow> joinpath p s = Path s"
  by (simp add: joinpath_def Let_def)

text \<open>A name with no slash that is neither empty nor \<^verbatim>\<open>.\<close> is one part.\<close>

lemma parts_Path_simple:
  "CHR ''/'' \<notin> set s \<Longrightarrow> s \<noteq> [] \<Longrightarrow> s \<noteq> ''.'' \<Longrightarrow> parts (Path s) = [s]"
  by (simp add: Path_def split_on_no_sep)

lemma split_on_join_parts:
  assumes "list_all part_ok ps" and "ps \<noteq> []"
  shows "split_on (CHR ''/'') (join_with (CHR ''/'') ps) = ps"
  using assms by (intro split_join_with) (auto simp: list_all_iff part_ok_def)

lemma filter_parts_ok:
  "list_all part_ok ps \<Longrightarrow> filter (\<lambda>c. c \<noteq> [] \<and> c \<noteq> ''.'') ps = ps"
  by (induction ps) (auto simp: part_ok_def)

text \<open>Printing a well-formed path and parsing it again gives the path back.\<close>

lemma Path_path_str:
  assumes "path_ok p"
  shows "Path (path_str p) = p"
proof (cases "parts p = []")
  case True
  then show ?thesis by (cases "anchor p") (simp_all add: Path_def path_str_def)
next
  case False
  with assms have split: "split_on (CHR ''/'') (join_with (CHR ''/'') (parts p)) = parts p"
    by (simp add: split_on_join_parts path_ok_def)
  from assms have filter: "filter (\<lambda>c. c \<noteq> [] \<and> c \<noteq> ''.'') (parts p) = parts p"
    by (simp add: filter_parts_ok path_ok_def)
  from False assms obtain c cs where ps: "parts p = c # cs" and c: "c \<noteq> []" "CHR ''/'' \<notin> set c"
    by (cases "parts p") (auto simp: path_ok_def part_ok_def)
  then have hd: "\<not> startswith (join_with (CHR ''/'') (parts p)) ''/''"
    by (cases c; cases cs) (auto)
  show ?thesis
  proof (cases "anchor p")
    case True
    with split filter show ?thesis
      by (simp add: Path_def path_str_def)
  next
    case anchor: False
    with False split filter hd show ?thesis
      by (simp add: Path_def path_str_def)
  qed
qed

lemma path_name_Path_simple:
  "CHR ''/'' \<notin> set s \<Longrightarrow> s \<noteq> ''.'' \<Longrightarrow> path_name (Path s) = s"
  by (cases "s = []") (simp_all add: path_name_def Path_def split_on_no_sep)

text \<open>The name of a path holds no slash: it is safe as a file name.\<close>

lemma path_name_no_slash: "path_ok p \<Longrightarrow> CHR ''/'' \<notin> set (path_name p)"
  by (cases "parts p = []")
     (auto simp: path_name_def path_ok_def list_all_iff part_ok_def dest!: last_in_set)

lemma splitext_concat: "fst (splitext p) @ snd (splitext p) = p"
proof -
  have "CHR ''.'' \<in> set (after_last (CHR ''/'') p) \<Longrightarrow> CHR ''.'' \<in> set p"
    using set_after_last_subset [of "CHR ''/''" p] by auto
  then show ?thesis
    by (auto simp: splitext_def Let_def before_after_last)
qed

end
