(* ===== verification/Py_Value.thy ===== *)
theory Py_Value
  imports Py_String
begin

text \<open>
  The Python values that \<^verbatim>\<open>json.load\<close> returns and \<^verbatim>\<open>json.dump\<close> accepts:
  \<^verbatim>\<open>None\<close>, booleans, integers, strings, lists and dictionaries. A dictionary
  is an association list in insertion order, its keys compared as Python
  compares hashable values (\<^verbatim>\<open>True == 1\<close>). Catalogs and song records are such
  dictionaries. JSON numbers with a fraction are not modelled.
\<close>

section \<open>Values\<close>

datatype pyval =
    PNone
  | PBool bool
  | PInt int
  | PStr string
  | PList "pyval list"
  | PDict "(pyval \<times> pyval) list"

type_synonym pydict = "(pyval \<times> pyval) list"

text \<open>\<^verbatim>\<open>bool(v)\<close>: the truth value of \<^verbatim>\<open>v\<close> in a condition.\<close>

fun truthy :: "pyval \<Rightarrow> bool" where
  "truthy PNone = False"
| "truthy (PBool b) = b"
| "truthy (PInt i) = (i \<noteq> 0)"
| "truthy (PStr s) = (s \<noteq> [])"
| "truthy (PList vs) = (vs \<noteq> [])"
| "truthy (PDict d) = (d \<noteq> [])"

text \<open>\<^verbatim>\<open>isinstance(v, str)\<close> and \<^verbatim>\<open>isinstance(v, dict)\<close>.\<close>

fun is_str :: "pyval \<Rightarrow> bool" where
  "is_str (PStr _) = True"
| "is_str _ = False"

fun is_dict :: "pyval \<Rightarrow> bool" where
  "is_dict (PDict _) = True"
| "is_dict _ = False"

text \<open>\<^verbatim>\<open>type(v).__name__\<close>, as error messages show it.\<close>

fun type_name :: "pyval \<Rightarrow> string" where
  "type_name PNone = ''NoneType''"
| "type_name (PBool _) = ''bool''"
| "type_name (PInt _) = ''int''"
| "type_name (PStr _) = ''str''"
| "type_name (PList _) = ''list''"
| "type_name (PDict _) = ''dict''"

text \<open>Lists and dictionaries are not hashable: using one as a key raises \<^verbatim>\<open>TypeError\<close>.\<close>

fun hashable :: "pyval \<Rightarrow> bool" where
  "hashable (PList _) = False"
| "hashable (PDict _) = False"
| "hashable _ = True"

text \<open>Two hashable values are the same key when they are equal in Python:
  a boolean is the integer 1 or 0.\<close>

fun hkey :: "pyval \<Rightarrow> pyval" where
  "hkey (PBool b) = PInt (if b then 1 else 0)"
| "hkey v = v"

section \<open>Dictionaries\<close>

text \<open>\<^verbatim>\<open>d.get(k)\<close> (\<^verbatim>\<open>None\<close> of the option type when the key is absent),
  \<^verbatim>\<open>k in d\<close>, \<^verbatim>\<open>d[k] = v\<close> and \<^verbatim>\<open>del d[k]\<close>. Assigning to a key that is
  present keeps the key and its position.\<close>

fun dict_get :: "pydict \<Rightarrow> pyval \<Rightarrow> pyval option" where
  "dict_get [] k = None"
| "dict_get ((k', v) # d) k = (if hkey k' = hkey k then Some v else dict_get d k)"

definition dict_has :: "pydict \<Rightarrow> pyval \<Rightarrow> bool" where
  "dict_has d k \<longleftrightarrow> dict_get d k \<noteq> None"

fun dict_set :: "pydict \<Rightarrow> pyval \<Rightarrow> pyval \<Rightarrow> pydict" where
  "dict_set [] k v = [(k, v)]"
| "dict_set ((k', v') # d) k v =
     (if hkey k' = hkey k then (k', v) # d else (k', v') # dict_set d k v)"

fun dict_del :: "pydict \<Rightarrow> pyval \<Rightarrow> pydict" where
  "dict_del [] k = []"
| "dict_del ((k', v') # d) k = (if hkey k' = hkey k then d else (k', v') # dict_del d k)"

text \<open>\<^verbatim>\<open>dict(pairs)\<close>: the pairs inserted from left to right.\<close>

definition dict_of_pairs :: "(pyval \<times> pyval) list \<Rightarrow> pydict" where
  "dict_of_pairs kvs = foldl (\<lambda>d kv. dict_set d (fst kv) (snd kv)) [] kvs"

text \<open>String keys, which all dictionaries of the program but one use.\<close>

abbreviation sget :: "pydict \<Rightarrow> string \<Rightarrow> pyval option" where
  "sget d k \<equiv> dict_get d (PStr k)"

abbreviation shas :: "pydict \<Rightarrow> string \<Rightarrow> bool" where
  "shas d k \<equiv> dict_has d (PStr k)"

abbreviation sset :: "pydict \<Rightarrow> string \<Rightarrow> pyval \<Rightarrow> pydict" where
  "sset d k v \<equiv> dict_set d (PStr k) v"

abbreviation sdel :: "pydict \<Rightarrow> string \<Rightarrow> pydict" where
  "sdel d k \<equiv> dict_del d (PStr k)"

text \<open>The keys of a dictionary as Python sees them, and the dictionaries whose
  keys are pairwise different, which is every dictionary Python builds.\<close>

definition dict_keys :: "pydict \<Rightarrow> pyval list" where
  "dict_keys d = map (hkey \<circ> fst) d"

definition dict_ok :: "pydict \<Rightarrow> bool" where
  "dict_ok d \<longleftrightarrow> distinct (dict_keys d)"

definition str_keys :: "pydict \<Rightarrow> bool" where
  "str_keys d \<longleftrightarrow> list_all (\<lambda>kv. is_str (fst kv)) d"

section \<open>JSON documents\<close>

text \<open>
  \<^verbatim>\<open>json.dump\<close> writes a key that is not a string as a string:
  an integer in decimal, \<^verbatim>\<open>True\<close> as \<^verbatim>\<open>true\<close>, \<^verbatim>\<open>None\<close> as \<^verbatim>\<open>null\<close>.
\<close>

fun json_key :: "pyval \<Rightarrow> string" where
  "json_key (PStr s) = s"
| "json_key (PInt i) = str_of_int i"
| "json_key (PBool b) = (if b then ''true'' else ''false'')"
| "json_key PNone = ''null''"
| "json_key _ = []"

text \<open>
  \<^verbatim>\<open>json.load\<close> of the text that \<^verbatim>\<open>json.dump\<close> wrote for a value: every key
  is the string written for it, and of two equal keys in one object the
  later value stays, at the position of the first.
\<close>

fun json_reload :: "pyval \<Rightarrow> pyval" where
  "json_reload (PList vs) = PList (map json_reload vs)"
| "json_reload (PDict d) =
     PDict (dict_of_pairs (map (\<lambda>kv. (PStr (json_key (fst kv)), json_reload (snd kv))) d))"
| "json_reload v = v"

text \<open>What \<^verbatim>\<open>json.load\<close> returns: string keys, no key twice, at every depth.\<close>

fun json_ok :: "pyval \<Rightarrow> bool" where
  "json_ok (PList vs) = list_all json_ok vs"
| "json_ok (PDict d) = (str_keys d \<and> dict_ok d \<and> list_all (\<lambda>kv. json_ok (snd kv)) d)"
| "json_ok v = True"

lemmas [dict_defs] =
  dict_has_def dict_of_pairs_def dict_keys_def dict_ok_def str_keys_def

section \<open>Facts about keys\<close>

lemma hkey_idem [simp]: "hkey (hkey k) = hkey k"
  by (cases k) simp_all

lemma hkey_PStr_iff [simp]: "hkey k = PStr s \<longleftrightarrow> k = PStr s"
  by (cases k) simp_all

lemma PStr_hkey_iff [simp]: "PStr s = hkey k \<longleftrightarrow> k = PStr s"
  by (cases k) auto

lemma is_str_iff: "is_str v \<longleftrightarrow> (\<exists>s. v = PStr s)"
  by (cases v) simp_all

lemma is_dict_iff: "is_dict v \<longleftrightarrow> (\<exists>d. v = PDict d)"
  by (cases v) simp_all

lemma is_str_hkey [simp]: "is_str k \<Longrightarrow> hkey k = k"
  by (cases k) simp_all

section \<open>Facts about lookup, assignment and deletion\<close>

lemma dict_get_eq_map_of:
  "dict_get d k = map_of (map (\<lambda>kv. (hkey (fst kv), snd kv)) d) (hkey k)"
  by (induction d) auto

lemma dict_has_iff: "dict_has d k \<longleftrightarrow> hkey k \<in> set (dict_keys d)"
  by (induction d) (auto simp: dict_has_def dict_keys_def)

lemma dict_has_Nil [simp]: "\<not> dict_has [] k"
  by (simp add: dict_has_def)

lemma dict_get_SomeD: "dict_get d k = Some v \<Longrightarrow> \<exists>k'. (k', v) \<in> set d \<and> hkey k' = hkey k"
  by (induction d) (auto split: if_splits)

lemma dict_get_set [simp]:
  "dict_get (dict_set d k v) k' = (if hkey k' = hkey k then Some v else dict_get d k')"
  by (induction d) auto

lemma dict_has_set [simp]:
  "dict_has (dict_set d k v) k' \<longleftrightarrow> hkey k' = hkey k \<or> dict_has d k'"
  by (simp add: dict_has_def)

lemma dict_set_absent: "\<not> dict_has d k \<Longrightarrow> dict_set d k v = d @ [(k, v)]"
  by (induction d) (auto simp: dict_has_def)

lemma dict_keys_set:
  "dict_keys (dict_set d k v) = (if dict_has d k then dict_keys d else dict_keys d @ [hkey k])"
  by (induction d) (auto simp: dict_keys_def dict_has_def split: if_splits)

lemma map_fst_dict_set: "dict_has d k \<Longrightarrow> map fst (dict_set d k v) = map fst d"
  by (induction d) (auto simp: dict_has_def)

lemma length_dict_set:
  "length (dict_set d k v) = (if dict_has d k then length d else Suc (length d))"
  by (induction d) (auto simp: dict_has_def split: if_splits)

lemma dict_del_absent: "\<not> dict_has d k \<Longrightarrow> dict_del d k = d"
  by (induction d) (auto simp: dict_has_def)

lemma dict_keys_del: "dict_keys (dict_del d k) = remove1 (hkey k) (dict_keys d)"
  by (induction d) (auto simp: dict_keys_def)

lemma set_dict_del_subset: "set (dict_del d k) \<subseteq> set d"
  by (induction d) (auto split: if_splits)

lemma dict_del_set_absent: "\<not> dict_has d k \<Longrightarrow> dict_del (dict_set d k v) k = d"
  by (induction d) (auto simp: dict_has_def)

section \<open>Facts about well-formed dictionaries\<close>

lemma dict_ok_Nil [simp]: "dict_ok []"
  by (simp add: dict_ok_def dict_keys_def)

lemma dict_ok_Cons:
  "dict_ok ((k, v) # d) \<longleftrightarrow> \<not> dict_has d k \<and> dict_ok d"
  by (simp add: dict_ok_def dict_has_iff) (simp add: dict_keys_def)

lemma dict_ok_set [simp]: "dict_ok d \<Longrightarrow> dict_ok (dict_set d k v)"
  by (auto simp: dict_ok_def dict_keys_set dict_has_iff)

lemma dict_ok_del [simp]: "dict_ok d \<Longrightarrow> dict_ok (dict_del d k)"
  by (simp add: dict_ok_def dict_keys_del)

lemma dict_get_del:
  "dict_ok d \<Longrightarrow>
     dict_get (dict_del d k) k' = (if hkey k' = hkey k then None else dict_get d k')"
proof (induction d)
  case Nil
  show ?case by simp
next
  case (Cons kv d)
  obtain k0 v0 where kv: "kv = (k0, v0)" by (cases kv)
  with Cons.prems have absent: "\<not> dict_has d k0" and ok: "dict_ok d"
    by (simp_all add: dict_ok_Cons)
  from absent have "hkey k' = hkey k0 \<Longrightarrow> dict_get d k' = None"
    by (simp add: dict_has_def dict_get_eq_map_of)
  with Cons.IH [OF ok] kv show ?case by auto
qed

lemma dict_has_del:
  "dict_ok d \<Longrightarrow> dict_has (dict_del d k) k' \<longleftrightarrow> hkey k' \<noteq> hkey k \<and> dict_has d k'"
  by (simp add: dict_has_def dict_get_del)

lemma dict_get_in_set:
  "dict_ok d \<Longrightarrow> (k, v) \<in> set d \<Longrightarrow> dict_get d k = Some v"
proof (induction d)
  case Nil
  then show ?case by simp
next
  case (Cons kv d)
  obtain k0 v0 where kv: "kv = (k0, v0)" by (cases kv)
  with Cons.prems have absent: "\<not> dict_has d k0" and ok: "dict_ok d"
    by (simp_all add: dict_ok_Cons)
  show ?case
  proof (cases "(k, v) = kv")
    case True
    with kv show ?thesis by auto
  next
    case False
    with Cons.prems have mem: "(k, v) \<in> set d" by simp
    then have "dict_get d k = Some v" using Cons.IH ok by simp
    moreover from this absent have "hkey k0 \<noteq> hkey k"
      by (auto simp: dict_has_def dict_get_eq_map_of)
    ultimately show ?thesis using kv by simp
  qed
qed

lemma str_keys_Nil [simp]: "str_keys []"
  by (simp add: str_keys_def)

lemma str_keys_set [simp]: "str_keys d \<Longrightarrow> is_str k \<Longrightarrow> str_keys (dict_set d k v)"
  by (induction d) (auto simp: str_keys_def)

lemma str_keys_del [simp]: "str_keys d \<Longrightarrow> str_keys (dict_del d k)"
  by (induction d) (auto simp: str_keys_def)

section \<open>Facts about building a dictionary from pairs\<close>

lemma foldl_dict_set_ok:
  "dict_ok acc \<Longrightarrow> dict_ok (foldl (\<lambda>d kv. dict_set d (fst kv) (snd kv)) acc kvs)"
  by (induction kvs arbitrary: acc) simp_all

lemma dict_ok_of_pairs [simp]: "dict_ok (dict_of_pairs kvs)"
  by (simp add: dict_of_pairs_def foldl_dict_set_ok)

lemma foldl_dict_set_str_keys:
  "str_keys acc \<Longrightarrow> list_all (\<lambda>kv. is_str (fst kv)) kvs \<Longrightarrow>
     str_keys (foldl (\<lambda>d kv. dict_set d (fst kv) (snd kv)) acc kvs)"
  by (induction kvs arbitrary: acc) simp_all

lemma str_keys_of_pairs: "str_keys kvs \<Longrightarrow> str_keys (dict_of_pairs kvs)"
  unfolding dict_of_pairs_def
  by (rule foldl_dict_set_str_keys) (simp_all add: str_keys_def)

lemma set_dict_set_subset: "set (dict_set d k v) \<subseteq> set d \<union> {(k', v) | k'. True}"
  by (induction d) (auto split: if_splits)

lemma set_dict_set_values: "snd ` set (dict_set d k v) \<subseteq> insert v (snd ` set d)"
  using set_dict_set_subset [of d k v] by force

lemma foldl_dict_set_values:
  "snd ` set (foldl (\<lambda>d kv. dict_set d (fst kv) (snd kv)) acc kvs)
     \<subseteq> snd ` set acc \<union> snd ` set kvs"
proof (induction kvs arbitrary: acc)
  case Nil
  show ?case by simp
next
  case (Cons kv kvs)
  have "snd ` set (foldl (\<lambda>d kv. dict_set d (fst kv) (snd kv)) (dict_set acc (fst kv) (snd kv)) kvs)
      \<subseteq> snd ` set (dict_set acc (fst kv) (snd kv)) \<union> snd ` set kvs"
    by (rule Cons.IH)
  also have "\<dots> \<subseteq> insert (snd kv) (snd ` set acc) \<union> snd ` set kvs"
    using set_dict_set_values [of acc "fst kv" "snd kv"] by auto
  finally show ?case by auto
qed

lemma dict_of_pairs_values: "snd ` set (dict_of_pairs kvs) \<subseteq> snd ` set kvs"
  using foldl_dict_set_values [of "[]" kvs] by (simp add: dict_of_pairs_def)

lemma foldl_dict_set_distinct:
  "dict_ok (acc @ kvs) \<Longrightarrow> foldl (\<lambda>d kv. dict_set d (fst kv) (snd kv)) acc kvs = acc @ kvs"
proof (induction kvs arbitrary: acc)
  case Nil
  show ?case by simp
next
  case (Cons kv kvs)
  from Cons.prems have "\<not> dict_has acc (fst kv)"
    by (auto simp: dict_ok_def dict_keys_def dict_has_iff)
  then have "dict_set acc (fst kv) (snd kv) = acc @ [kv]"
    by (simp add: dict_set_absent)
  with Cons.IH [of "acc @ [kv]"] Cons.prems show ?case by simp
qed

text \<open>A dictionary with pairwise different keys is built from its own pairs.\<close>

lemma dict_of_pairs_ok: "dict_ok d \<Longrightarrow> dict_of_pairs d = d"
  using foldl_dict_set_distinct [of "[]" d] by (simp add: dict_of_pairs_def)

section \<open>Facts about JSON documents\<close>

lemma json_key_PStr: "is_str k \<Longrightarrow> PStr (json_key k) = k"
  by (cases k) simp_all

text \<open>Loading what was dumped gives the value back when the value is one that
  \<^verbatim>\<open>json.load\<close> can return.\<close>

lemma json_reload_ok: "json_ok v \<Longrightarrow> json_reload v = v"
proof (induction v rule: json_reload.induct)
  case (1 vs)
  then show ?case by (simp add: list_all_iff map_idI)
next
  case (2 d)
  have "map (\<lambda>kv. (PStr (json_key (fst kv)), json_reload (snd kv))) d = map (\<lambda>kv. kv) d"
  proof (rule map_cong [OF refl])
    fix kv assume kv: "kv \<in> set d"
    with "2.prems" have "is_str (fst kv)" and "json_ok (snd kv)"
      by (simp_all add: str_keys_def list_all_iff)
    with "2.IH" [OF kv] show "(PStr (json_key (fst kv)), json_reload (snd kv)) = kv"
      by (simp add: json_key_PStr)
  qed
  with "2.prems" show ?case by (simp add: dict_of_pairs_ok)
qed simp_all

lemma json_ok_reload: "json_ok (json_reload v)"
proof (induction v rule: json_reload.induct)
  case (1 vs)
  then show ?case by (simp add: list_all_iff)
next
  case (2 d)
  let ?kvs = "map (\<lambda>kv. (PStr (json_key (fst kv)), json_reload (snd kv))) d"
  have keys: "str_keys (dict_of_pairs ?kvs)"
    by (rule str_keys_of_pairs) (simp add: str_keys_def list_all_iff)
  have "snd ` set (dict_of_pairs ?kvs) \<subseteq> snd ` set ?kvs"
    by (rule dict_of_pairs_values)
  with "2.IH" have "list_all (\<lambda>kv. json_ok (snd kv)) (dict_of_pairs ?kvs)"
    by (fastforce simp: list_all_iff)
  with keys show ?case by simp
qed simp_all

lemma json_reload_idem [simp]: "json_reload (json_reload v) = json_reload v"
  by (rule json_reload_ok) (rule json_ok_reload)

lemma json_ok_PDictD:
  "json_ok (PDict d) \<Longrightarrow> dict_get d k = Some v \<Longrightarrow> json_ok v"
  by (auto simp: list_all_iff dest!: dict_get_SomeD)

lemma json_ok_dict_set:
  "json_ok (PDict d) \<Longrightarrow> json_ok v \<Longrightarrow> json_ok (PDict (sset d k v))"
proof -
  assume d: "json_ok (PDict d)" and v: "json_ok v"
  have "snd ` set (sset d k v) \<subseteq> insert v (snd ` set d)"
    by (rule set_dict_set_values)
  with d v have "list_all (\<lambda>kv. json_ok (snd kv)) (sset d k v)"
    by (fastforce simp: list_all_iff)
  with d show ?thesis by simp
qed

lemma json_ok_sset_str:
  "json_ok (PDict d) \<Longrightarrow> json_ok (PDict (sset d k (PStr s)))"
  by (rule json_ok_dict_set) simp_all

lemma json_ok_dict_del: "json_ok (PDict d) \<Longrightarrow> json_ok (PDict (dict_del d k))"
  using set_dict_del_subset [of d k] by (auto simp: list_all_iff)

text \<open>From here on a well-formed dictionary is taken apart on request only.\<close>

lemmas json_ok_PDict = json_ok.simps(2)

lemmas json_reload_PDict = json_reload.simps(2)

declare json_ok.simps(2) [simp del] json_reload.simps(2) [simp del]

end
