(* ===== verification/File_System.thy ===== *)
theory File_System
  imports Py_Path Py_Value
begin

text \<open>
  The file system the handlers act on, as the process sees it: a finite table
  from absolute paths to nodes (a directory, or a file with its content), the
  working directory, and the operations the source calls through \<^verbatim>\<open>os\<close>,
  \<^verbatim>\<open>open\<close> and \<^verbatim>\<open>pathlib\<close>: \<^verbatim>\<open>exists\<close>, \<^verbatim>\<open>is_file\<close>, \<^verbatim>\<open>resolve\<close>,
  \<^verbatim>\<open>os.remove\<close>, reading and writing a file. There are no symbolic links.
  A path is looked up component by component as POSIX does; a failed lookup
  is \<^verbatim>\<open>FileNotFoundError\<close> whatever the reason. The three fault tables say
  for which paths the platform refuses to read, write or remove, and with
  which message: they make the \<^verbatim>\<open>except\<close> branches of the source reachable.
\<close>

section \<open>State\<close>

type_synonym apath = "string list"

text \<open>The content of a file: raw bytes, or the JSON text that \<^verbatim>\<open>json.dump\<close>
  wrote for a value.\<close>

datatype content = Bytes string | Doc pyval

datatype node = File content | Dir

record fs =
  nodes :: "(apath \<times> node) list"
  cwd :: apath
  read_faults :: "(apath \<times> string) list"
  write_faults :: "(apath \<times> string) list"
  remove_faults :: "(apath \<times> string) list"

definition node_at :: "fs \<Rightarrow> apath \<Rightarrow> node option" where
  "node_at f a = map_of (nodes f) a"

text \<open>The message of the \<^verbatim>\<open>OSError\<close> that reading, writing or removing a
  path raises, if the environment lets that operation fail.\<close>

definition read_fault :: "fs \<Rightarrow> apath \<Rightarrow> string option" where
  "read_fault f a = map_of (read_faults f) a"

definition write_fault :: "fs \<Rightarrow> apath \<Rightarrow> string option" where
  "write_fault f a = map_of (write_faults f) a"

definition remove_fault :: "fs \<Rightarrow> apath \<Rightarrow> string option" where
  "remove_fault f a = map_of (remove_faults f) a"

lemma fault_nodes [simp]:
  "read_fault (f\<lparr>nodes := ns\<rparr>) = read_fault f"
  "write_fault (f\<lparr>nodes := ns\<rparr>) = write_fault f"
  "remove_fault (f\<lparr>nodes := ns\<rparr>) = remove_fault f"
  by (simp_all add: read_fault_def write_fault_def remove_fault_def fun_eq_iff)

section \<open>Looking a path up\<close>

text \<open>
  \<open>walk\<close> follows the components of a path from a directory: an empty
  component or \<^verbatim>\<open>.\<close> stays, \<^verbatim>\<open>..\<close> goes to the parent (the root is its own
  parent), a name goes to that entry. Every step starts in a directory, and
  the node reached exists.
\<close>

definition step_into :: "apath \<Rightarrow> string \<Rightarrow> apath" where
  "step_into cur c =
     (if c = [] \<or> c = ''.'' then cur else if c = ''..'' then butlast cur else cur @ [c])"

fun walk :: "(apath \<rightharpoonup> node) \<Rightarrow> apath \<Rightarrow> string list \<Rightarrow> apath option" where
  "walk ns cur [] = (if ns cur = None then None else Some cur)"
| "walk ns cur (c # cs) = (if ns cur \<noteq> Some Dir then None else walk ns (step_into cur c) cs)"

definition start_dir :: "fs \<Rightarrow> string \<Rightarrow> apath" where
  "start_dir f s = (if startswith s ''/'' then [] else cwd f)"

text \<open>\<^verbatim>\<open>os.stat(s)\<close>: the node a path string names, if any.\<close>

definition stat :: "fs \<Rightarrow> string \<Rightarrow> (apath \<times> node) option" where
  "stat f s =
     (if s = [] then None
      else case walk (node_at f) (start_dir f s) (split_on (CHR ''/'') s) of
             None \<Rightarrow> None
           | Some a \<Rightarrow> map_option (Pair a) (node_at f a))"

text \<open>
  \<^verbatim>\<open>os.path.exists(s)\<close>, and \<^verbatim>\<open>p.exists()\<close> and \<^verbatim>\<open>p.is_file()\<close> of a
  \<^verbatim>\<open>pathlib.Path\<close>. They are total here: the lookup of a path either finds
  a node or does not. On a real system \<^verbatim>\<open>os.stat\<close> can also fail for another
  reason than absence (a name longer than the system allows), which
  \<^verbatim>\<open>os.path.exists\<close> answers with \<^verbatim>\<open>False\<close> and \<^verbatim>\<open>Path.exists\<close> re-raises;
  such lookups are outside this model.
\<close>

definition os_path_exists :: "fs \<Rightarrow> string \<Rightarrow> bool" where
  "os_path_exists f s \<longleftrightarrow> stat f s \<noteq> None"

definition path_exists :: "fs \<Rightarrow> path \<Rightarrow> bool" where
  "path_exists f p \<longleftrightarrow> os_path_exists f (path_str p)"

definition path_is_file :: "fs \<Rightarrow> path \<Rightarrow> bool" where
  "path_is_file f p \<longleftrightarrow> (case stat f (path_str p) of Some (a, File c) \<Rightarrow> True | _ \<Rightarrow> False)"

section \<open>Resolving a path\<close>

text \<open>
  \<^verbatim>\<open>p.resolve()\<close> and \<^verbatim>\<open>os.path.abspath\<close> make a path absolute and remove
  \<^verbatim>\<open>.\<close> and \<^verbatim>\<open>..\<close> from it without asking whether it exists.
\<close>

definition normpath :: "apath \<Rightarrow> string list \<Rightarrow> apath" where
  "normpath cur cs = foldl step_into cur cs"

text \<open>The directories a lookup passes through: where it stands before each component.\<close>

fun stops :: "apath \<Rightarrow> string list \<Rightarrow> apath list" where
  "stops cur [] = []"
| "stops cur (c # cs) = cur # stops (step_into cur c) cs"

definition realpath :: "fs \<Rightarrow> string \<Rightarrow> apath" where
  "realpath f s = normpath (start_dir f s) (split_on (CHR ''/'') s)"

text \<open>\<^verbatim>\<open>str\<close> of an absolute path.\<close>

definition apath_str :: "apath \<Rightarrow> string" where
  "apath_str a = (if a = [] then ''/'' else concat (map (\<lambda>c. CHR ''/'' # c) a))"

text \<open>\<^verbatim>\<open>str(p.resolve())\<close>.\<close>

definition resolve :: "fs \<Rightarrow> path \<Rightarrow> string" where
  "resolve f p = apath_str (realpath f (path_str p))"

section \<open>Reading, writing and removing\<close>

text \<open>\<^verbatim>\<open>repr\<close> of a path in a message; exact for names without quotes,
  backslashes and control characters.\<close>

definition quoted :: "string \<Rightarrow> string" where
  "quoted s = CHR 0x27 # s @ [CHR 0x27]"

definition no_such_file :: "string \<Rightarrow> py_exn" where
  "no_such_file s = FileNotFoundError (''[Errno 2] No such file or directory: '' @ quoted s)"

definition is_a_directory :: "string \<Rightarrow> py_exn" where
  "is_a_directory s = IsADirectoryError (''[Errno 21] Is a directory: '' @ quoted s)"

text \<open>\<^verbatim>\<open>open(s).read()\<close>: the content of the file.\<close>

definition fs_read :: "fs \<Rightarrow> string \<Rightarrow> content result" where
  "fs_read f s =
     (case stat f s of
        None \<Rightarrow> Inl (no_such_file s)
      | Some (a, Dir) \<Rightarrow> Inl (is_a_directory s)
      | Some (a, File c) \<Rightarrow>
          (case read_fault f a of Some m \<Rightarrow> Inl (OSError m) | None \<Rightarrow> Inr c))"

text \<open>
  \<^verbatim>\<open>open(s, 'w')\<close> followed by writing the content, and \<^verbatim>\<open>FileStorage.save(s)\<close>:
  the directory of the path must exist; the file is created or replaced. The
  two steps are one here: either \<^verbatim>\<open>open\<close> raises and the disk is as it was,
  or the whole content is in the file. A write that fails after \<^verbatim>\<open>open\<close> has
  truncated the file (a full disk under \<^verbatim>\<open>json.dump\<close>) is outside this model;
  the fault table of writing lists the paths that \<^verbatim>\<open>open\<close> refuses.
\<close>

definition fs_write :: "fs \<Rightarrow> string \<Rightarrow> content \<Rightarrow> fs result" where
  "fs_write f s c =
     (if s = [] then Inl (no_such_file s)
      else
        let comps = split_on (CHR ''/'') s; name = last comps in
        case walk (node_at f) (start_dir f s) (butlast comps) of
          None \<Rightarrow> Inl (no_such_file s)
        | Some d \<Rightarrow>
            if node_at f d \<noteq> Some Dir then Inl (NotADirectoryError (''[Errno 20] Not a directory: '' @ quoted s))
            else if name = [] \<or> name = ''.'' \<or> name = ''..'' then Inl (is_a_directory s)
            else if node_at f (d @ [name]) = Some Dir then Inl (is_a_directory s)
            else (case write_fault f (d @ [name]) of
                    Some m \<Rightarrow> Inl (OSError m)
                  | None \<Rightarrow> Inr (f\<lparr>nodes := AList.update (d @ [name]) (File c) (nodes f)\<rparr>)))"

text \<open>\<^verbatim>\<open>os.remove(s)\<close>: removes a file, never a directory.\<close>

definition os_remove :: "fs \<Rightarrow> string \<Rightarrow> fs result" where
  "os_remove f s =
     (case stat f s of
        None \<Rightarrow> Inl (no_such_file s)
      | Some (a, Dir) \<Rightarrow> Inl (is_a_directory s)
      | Some (a, File c) \<Rightarrow>
          (case remove_fault f a of
             Some m \<Rightarrow> Inl (OSError m)
           | None \<Rightarrow> Inr (f\<lparr>nodes := AList.delete a (nodes f)\<rparr>)))"

section \<open>Well-formed file systems\<close>

text \<open>
  No path is listed twice, the root and the working directory are
  directories, every entry lies in a directory, and every name is a proper
  file name.
\<close>

definition name_ok :: "string \<Rightarrow> bool" where
  "name_ok c \<longleftrightarrow> c \<noteq> [] \<and> c \<noteq> ''.'' \<and> c \<noteq> ''..'' \<and> CHR ''/'' \<notin> set c"

definition fs_ok :: "fs \<Rightarrow> bool" where
  "fs_ok f \<longleftrightarrow>
     distinct (map fst (nodes f)) \<and>
     node_at f [] = Some Dir \<and>
     node_at f (cwd f) = Some Dir \<and>
     list_all (\<lambda>(a, n). a = [] \<or> (node_at f (butlast a) = Some Dir \<and> name_ok (last a))) (nodes f)"

lemmas [fs_defs] =
  node_at_def step_into_def normpath_def start_dir_def stat_def os_path_exists_def path_exists_def path_is_file_def
  realpath_def apath_str_def resolve_def quoted_def no_such_file_def is_a_directory_def
  fs_read_def fs_write_def os_remove_def name_ok_def fs_ok_def

section \<open>Facts about lookup\<close>

lemma normpath_Nil [simp]: "normpath cur [] = cur"
  by (simp add: normpath_def)

lemma normpath_Cons [simp]: "normpath cur (c # cs) = normpath (step_into cur c) cs"
  by (simp add: normpath_def)

lemma normpath_append: "normpath cur (cs @ ds) = normpath (normpath cur cs) ds"
  by (simp add: normpath_def)

lemma stops_append: "stops cur (cs @ ds) = stops cur cs @ stops (normpath cur cs) ds"
  by (induction cs arbitrary: cur) simp_all

text \<open>A lookup succeeds exactly when every directory on the way is one and the
  node it ends at exists; it ends where resolving the path ends.\<close>

lemma walk_iff:
  "walk ns cur cs = Some a \<longleftrightarrow>
     a = normpath cur cs \<and> list_all (\<lambda>d. ns d = Some Dir) (stops cur cs) \<and> ns a \<noteq> None"
  by (induction cs arbitrary: cur) auto

lemma walk_normpath: "walk ns cur cs = Some a \<Longrightarrow> a = normpath cur cs"
  by (simp add: walk_iff)

lemma walk_exists: "walk ns cur cs = Some a \<Longrightarrow> ns a \<noteq> None"
  by (auto simp: walk_iff)

lemma walk_eq:
  "walk ns cur cs =
     (if list_all (\<lambda>d. ns d = Some Dir) (stops cur cs) \<and> ns (normpath cur cs) \<noteq> None
      then Some (normpath cur cs) else None)"
proof (cases "walk ns cur cs")
  case None
  then show ?thesis using walk_iff [of ns cur cs "normpath cur cs"] by auto
next
  case (Some a)
  then show ?thesis by (auto simp: walk_iff)
qed

text \<open>Names that are proper file names are appended as they are.\<close>

lemma step_into_name [simp]: "name_ok c \<Longrightarrow> step_into cur c = cur @ [c]"
  by (auto simp: step_into_def name_ok_def)

lemma normpath_names: "list_all name_ok cs \<Longrightarrow> normpath cur cs = cur @ cs"
  by (induction cs arbitrary: cur) simp_all

lemma stat_SomeD:
  "stat f s = Some (a, n) \<Longrightarrow> a = realpath f s \<and> node_at f a = Some n \<and> s \<noteq> []"
  by (auto simp: stat_def realpath_def split: if_splits option.splits dest: walk_normpath)

lemma stat_eq:
  "stat f s =
     (if s \<noteq> [] \<and> list_all (\<lambda>d. node_at f d = Some Dir) (stops (start_dir f s) (split_on (CHR ''/'') s))
      then map_option (Pair (realpath f s)) (node_at f (realpath f s)) else None)"
  by (auto simp: stat_def realpath_def walk_eq)

lemma path_is_file_exists: "path_is_file f p \<Longrightarrow> path_exists f p"
  by (auto simp: path_is_file_def path_exists_def os_path_exists_def split: option.splits)

lemma path_is_file_iff:
  "path_is_file f p \<longleftrightarrow> (\<exists>c. stat f (path_str p) = Some (realpath f (path_str p), File c))"
  by (auto simp: path_is_file_def split: option.splits node.splits dest: stat_SomeD)

section \<open>Facts about removing\<close>

lemma os_remove_InrD:
  assumes "os_remove f s = Inr f'"
  shows "\<exists>c. stat f s = Some (realpath f s, File c)"
    and "remove_fault f (realpath f s) = None"
    and "f' = f\<lparr>nodes := AList.delete (realpath f s) (nodes f)\<rparr>"
  using assms
  by (auto simp: os_remove_def split: option.splits node.splits prod.splits dest: stat_SomeD)

lemma os_remove_Inr_iff:
  "os_remove f s = Inr f' \<longleftrightarrow>
     (\<exists>c. stat f s = Some (realpath f s, File c)) \<and> remove_fault f (realpath f s) = None \<and>
     f' = f\<lparr>nodes := AList.delete (realpath f s) (nodes f)\<rparr>"
  by (auto simp: os_remove_def split: option.splits node.splits prod.splits dest: stat_SomeD)

lemma node_at_delete [simp]:
  "node_at (f\<lparr>nodes := AList.delete a (nodes f)\<rparr>) b = (if b = a then None else node_at f b)"
  by (simp add: node_at_def delete_conv')

lemma node_at_update [simp]:
  "node_at (f\<lparr>nodes := AList.update a n (nodes f)\<rparr>) b = (if b = a then Some n else node_at f b)"
  by (simp add: node_at_def update_conv')

lemma start_dir_nodes [simp]: "start_dir (f\<lparr>nodes := ns\<rparr>) s = start_dir f s"
  by (simp add: start_dir_def)

lemma realpath_nodes [simp]: "realpath (f\<lparr>nodes := ns\<rparr>) s = realpath f s"
  by (simp add: realpath_def)

lemma resolve_nodes [simp]: "resolve (f\<lparr>nodes := ns\<rparr>) p = resolve f p"
  by (simp add: resolve_def)

text \<open>Removing a file changes no directory, so every lookup goes the same
  way afterwards; only a path that resolves to the removed file is gone.\<close>

lemma stat_after_delete:
  assumes "node_at f a = Some (File c)"
  shows "stat (f\<lparr>nodes := AList.delete a (nodes f)\<rparr>) s =
           (if realpath f s = a then None else stat f s)"
proof -
  have "\<And>d. (if d = a then None else node_at f d) = Some Dir \<longleftrightarrow> node_at f d = Some Dir"
    using assms by auto
  then show ?thesis by (simp add: stat_eq)
qed

lemma os_remove_gone:
  assumes "os_remove f s = Inr f'"
  shows "stat f' s = None"
proof -
  from os_remove_InrD [OF assms] obtain c
    where "stat f s = Some (realpath f s, File c)"
      and f': "f' = f\<lparr>nodes := AList.delete (realpath f s) (nodes f)\<rparr>"
    by blast
  then have "node_at f (realpath f s) = Some (File c)" by (auto dest: stat_SomeD)
  then show ?thesis unfolding f' by (simp add: stat_after_delete)
qed

lemma os_remove_other:
  assumes "os_remove f s = Inr f'" and "realpath f t \<noteq> realpath f s"
  shows "stat f' t = stat f t"
proof -
  from os_remove_InrD [OF assms(1)] obtain c
    where "stat f s = Some (realpath f s, File c)"
      and f': "f' = f\<lparr>nodes := AList.delete (realpath f s) (nodes f)\<rparr>"
    by blast
  then have "node_at f (realpath f s) = Some (File c)" by (auto dest: stat_SomeD)
  with assms(2) show ?thesis unfolding f' by (simp add: stat_after_delete)
qed

section \<open>Facts about writing\<close>

lemma fs_write_InrD:
  assumes "fs_write f s c = Inr f'"
  shows "f' = f\<lparr>nodes := AList.update (realpath f s) (File c) (nodes f)\<rparr>"
    and "node_at f (realpath f s) \<noteq> Some Dir"
    and "write_fault f (realpath f s) = None"
    and "name_ok (last (split_on (CHR ''/'') s))"
    and "node_at f (butlast (realpath f s)) = Some Dir"
    and "last (realpath f s) = last (split_on (CHR ''/'') s)"
    and "list_all (\<lambda>d. node_at f d = Some Dir) (stops (start_dir f s) (butlast (split_on (CHR ''/'') s)))"
proof -
  let ?cs = "split_on (CHR ''/'') s"
  let ?d = "normpath (start_dir f s) (butlast ?cs)"
  from assms have walk: "walk (node_at f) (start_dir f s) (butlast ?cs) = Some ?d"
    and dir: "node_at f ?d = Some Dir"
    and name: "last ?cs \<noteq> []" "last ?cs \<noteq> ''.''" "last ?cs \<noteq> ''..''"
    by (auto simp: fs_write_def Let_def split: if_splits option.splits dest: walk_normpath)
  have "?cs = butlast ?cs @ [last ?cs]" by simp
  then have "realpath f s = normpath ?d [last ?cs]"
    unfolding realpath_def by (metis normpath_append)
  with name have rp: "realpath f s = ?d @ [last ?cs]"
    by (simp add: step_into_def)
  have "last ?cs \<in> set ?cs" by simp
  then have "CHR ''/'' \<notin> set (last ?cs)" by (rule split_on_pieces)
  with name show "name_ok (last ?cs)" by (simp add: name_ok_def)
  from rp dir show "node_at f (butlast (realpath f s)) = Some Dir" by simp
  from rp show "last (realpath f s) = last ?cs" by simp
  from walk show "list_all (\<lambda>d. node_at f d = Some Dir) (stops (start_dir f s) (butlast ?cs))"
    by (simp add: walk_iff)
  from assms walk dir name rp
  show "f' = f\<lparr>nodes := AList.update (realpath f s) (File c) (nodes f)\<rparr>"
    and "node_at f (realpath f s) \<noteq> Some Dir"
    and "write_fault f (realpath f s) = None"
    by (auto simp: fs_write_def Let_def split: if_splits option.splits)
qed

text \<open>Writing a file changes no directory; only the node written changes.\<close>

lemma stat_after_update:
  assumes "node_at f a \<noteq> Some Dir"
  shows "stat (f\<lparr>nodes := AList.update a (File c) (nodes f)\<rparr>) s =
           (if s \<noteq> [] \<and> realpath f s = a
               \<and> list_all (\<lambda>d. node_at f d = Some Dir) (stops (start_dir f s) (split_on (CHR ''/'') s))
            then Some (a, File c) else stat f s)"
proof -
  have "\<And>d. (if d = a then Some (File c) else node_at f d) = Some Dir \<longleftrightarrow> node_at f d = Some Dir"
    using assms by auto
  then show ?thesis by (simp add: stat_eq)
qed

text \<open>What was written is what is there: the path names a file with that content.\<close>

lemma fs_write_dirs:
  assumes "fs_write f s c = Inr f'"
  shows "s \<noteq> []"
    and "list_all (\<lambda>d. node_at f d = Some Dir) (stops (start_dir f s) (split_on (CHR ''/'') s))"
proof -
  let ?cs = "split_on (CHR ''/'') s"
  note w = fs_write_InrD [OF assms]
  have cs: "?cs = butlast ?cs @ [last ?cs]" by simp
  have "stops (start_dir f s) ?cs =
      stops (start_dir f s) (butlast ?cs) @ [normpath (start_dir f s) (butlast ?cs)]"
    by (subst cs, subst stops_append) simp
  moreover have "realpath f s = normpath (start_dir f s) (butlast ?cs) @ [last ?cs]"
    unfolding realpath_def using w(4)
    by (subst cs, subst normpath_append) simp
  ultimately show "list_all (\<lambda>d. node_at f d = Some Dir) (stops (start_dir f s) ?cs)"
    using w(5,7) by simp
  from assms show "s \<noteq> []" by (auto simp: fs_write_def)
qed

lemma fs_write_stat:
  assumes "fs_write f s c = Inr f'"
  shows "stat f' s = Some (realpath f s, File c)"
  using fs_write_dirs [OF assms] fs_write_InrD(2) [OF assms]
  unfolding fs_write_InrD(1) [OF assms] by (simp add: stat_after_update)

text \<open>A file written to a path that named nothing is a new entry.\<close>

lemma fs_write_fresh:
  assumes "fs_write f s c = Inr f'" and "stat f s = None"
  shows "node_at f (realpath f s) = None"
  using fs_write_dirs [OF assms(1)] assms(2) by (simp add: stat_eq)

lemma fs_write_other:
  assumes "fs_write f s c = Inr f'" and "realpath f t \<noteq> realpath f s"
  shows "stat f' t = stat f t"
  using fs_write_InrD(1,2) [OF assms(1)] assms(2) by (simp add: stat_after_update)

section \<open>Facts about reading\<close>

lemma fs_read_Inr_iff:
  "fs_read f s = Inr c \<longleftrightarrow>
     stat f s = Some (realpath f s, File c) \<and> read_fault f (realpath f s) = None"
  by (auto simp: fs_read_def split: option.splits node.splits prod.splits dest: stat_SomeD)

lemma fs_read_exists: "fs_read f s = Inr c \<Longrightarrow> os_path_exists f s"
  by (simp add: fs_read_Inr_iff os_path_exists_def)

text \<open>Reading a file that was just written gives what was written.\<close>

lemma fs_read_after_write:
  assumes "fs_write f s c = Inr f'" and "read_fault f (realpath f s) = None"
  shows "fs_read f' s = Inr c"
  using fs_write_stat [OF assms(1)] assms(2) fs_write_InrD(1) [OF assms(1)]
  by (simp add: fs_read_Inr_iff)

text \<open>Writing or removing one file changes what no other path reads.\<close>

lemma fs_read_stat_cong:
  assumes "stat f' t = stat f t" and "read_faults f' = read_faults f"
  shows "fs_read f' t = fs_read f t"
  using assms
  by (simp add: fs_read_def read_fault_def split: option.splits prod.splits node.splits)

lemma fs_write_read_other:
  assumes "fs_write f s c = Inr f'" and "realpath f t \<noteq> realpath f s"
  shows "fs_read f' t = fs_read f t"
  using fs_write_other [OF assms] fs_write_InrD(1) [OF assms(1)]
  by (intro fs_read_stat_cong) simp_all

lemma os_remove_read_other:
  assumes "os_remove f s = Inr f'" and "realpath f t \<noteq> realpath f s"
  shows "fs_read f' t = fs_read f t"
  using os_remove_other [OF assms] os_remove_InrD [OF assms(1)]
  by (intro fs_read_stat_cong) auto

text \<open>Every exception of the three operations is an \<^verbatim>\<open>OSError\<close>.\<close>

lemma fs_read_is_OSError: "fs_read f s = Inl ex \<Longrightarrow> is_OSError ex"
  by (auto simp: fs_read_def no_such_file_def is_a_directory_def
      split: option.splits node.splits prod.splits)

lemma fs_write_is_OSError: "fs_write f s c = Inl ex \<Longrightarrow> is_OSError ex"
  by (auto simp: fs_write_def Let_def no_such_file_def is_a_directory_def
      split: option.splits if_splits)

lemma os_remove_is_OSError: "os_remove f s = Inl ex \<Longrightarrow> is_OSError ex"
  by (auto simp: os_remove_def no_such_file_def is_a_directory_def
      split: option.splits node.splits prod.splits)

section \<open>Facts about well-formed file systems\<close>

lemma set_update_subset: "set (AList.update k v al) \<subseteq> insert (k, v) (set al)"
  by (induction al) auto

lemma fs_ok_entryD:
  "fs_ok f \<Longrightarrow> (a, n) \<in> set (nodes f) \<Longrightarrow> a \<noteq> [] \<Longrightarrow>
     node_at f (butlast a) = Some Dir \<and> name_ok (last a)"
  by (auto simp: fs_ok_def list_all_iff)

lemma fs_ok_remove:
  assumes ok: "fs_ok f" and rm: "os_remove f s = Inr f'"
  shows "fs_ok f'"
proof -
  let ?a = "realpath f s"
  from os_remove_InrD [OF rm] obtain c
    where st: "stat f s = Some (?a, File c)"
      and f': "f' = f\<lparr>nodes := AList.delete ?a (nodes f)\<rparr>"
    by blast
  from st have isfile: "node_at f ?a = Some (File c)" by (auto dest: stat_SomeD)
  with ok have ne: "?a \<noteq> []" "?a \<noteq> cwd f" by (auto simp: fs_ok_def)
  have entries: "node_at f' (butlast b) = Some Dir \<and> name_ok (last b)"
    if "(b, n) \<in> set (nodes f')" and "b \<noteq> []" for b n
  proof -
    from that(1) have "(b, n) \<in> set (nodes f)" by (auto simp: f' AList.delete_eq)
    with ok that(2) have "node_at f (butlast b) = Some Dir \<and> name_ok (last b)"
      by (auto dest: fs_ok_entryD)
    with isfile show ?thesis by (auto simp: f')
  qed
  from ok ne have "distinct (map fst (nodes f'))" "node_at f' [] = Some Dir"
    "node_at f' (cwd f') = Some Dir"
    by (auto simp: f' fs_ok_def distinct_delete)
  with entries show ?thesis
    unfolding fs_ok_def by (auto simp: list_all_iff)
qed

lemma fs_ok_write:
  assumes ok: "fs_ok f" and wr: "fs_write f s c = Inr f'"
  shows "fs_ok f'"
proof -
  let ?a = "realpath f s"
  note w = fs_write_InrD [OF wr]
  from ok w(2) have ne: "?a \<noteq> []" "?a \<noteq> cwd f" by (auto simp: fs_ok_def)
  have entries: "node_at f' (butlast b) = Some Dir \<and> name_ok (last b)"
    if "(b, n) \<in> set (nodes f')" and "b \<noteq> []" for b n
  proof (cases "b = ?a")
    case True
    with w(2,4,5,6) show ?thesis by (auto simp: w(1))
  next
    case False
    with that(1) have "(b, n) \<in> set (nodes f)"
      using set_update_subset [of ?a "File c" "nodes f"] by (auto simp: w(1))
    with ok that(2) have "node_at f (butlast b) = Some Dir \<and> name_ok (last b)"
      by (auto dest: fs_ok_entryD)
    with w(2) show ?thesis by (auto simp: w(1))
  qed
  from ok ne w(2) have "distinct (map fst (nodes f'))" "node_at f' [] = Some Dir"
    "node_at f' (cwd f') = Some Dir"
    by (auto simp: w(1) fs_ok_def distinct_update)
  with entries show ?thesis
    unfolding fs_ok_def by (auto simp: list_all_iff)
qed

section \<open>Files that are written and removed again\<close>

lemma not_exists_stat: "\<not> os_path_exists f s \<Longrightarrow> stat f s = None"
  by (cases "stat f s") (auto simp: os_path_exists_def)

lemma os_remove_file:
  assumes "stat f s = Some (a, File c)" and "remove_faults f = []"
  shows "os_remove f s = Inr (f\<lparr>nodes := AList.delete a (nodes f)\<rparr>)"
  using assms by (simp add: os_remove_def remove_fault_def)

lemma node_at_nodes: "node_at (f\<lparr>nodes := ns\<rparr>) a = map_of ns a"
  by (simp add: node_at_def)

lemma fs_write_nodes:
  assumes "fs_write f s c = Inr f'"
  shows "remove_faults f' = remove_faults f" and "cwd f' = cwd f"
    and "node_at f' a = (if a = realpath f s then Some (File c) else node_at f a)"
  unfolding fs_write_InrD(1) [OF assms] by simp_all

text \<open>
  Two files written to paths that named nothing and removed again, the first
  written first: the entries of the disk are what they were.
\<close>

lemma rollback_both:
  assumes wr: "fs_write f s c = Inr f1" and cw: "fs_write f1 t co = Inr f2"
    and new: "stat f s = None" "stat f t = None"
    and differ: "realpath f t \<noteq> realpath f s"
    and faults: "remove_faults f = []"
  obtains f3 f4 where "os_remove f2 s = Inr f3" and "stat f3 t = Some (realpath f t, File co)"
    and "os_remove f3 t = Inr f4" and "\<forall>a. node_at f4 a = node_at f a"
proof -
  let ?a = "realpath f s" and ?c = "realpath f t"
  note f1 = fs_write_nodes [OF wr] and f2 = fs_write_nodes [OF cw]
  have rp: "realpath f1 u = realpath f u" "realpath f2 u = realpath f u" for u
    unfolding fs_write_InrD(1) [OF cw] fs_write_InrD(1) [OF wr] by simp_all
  let ?f3 = "f2\<lparr>nodes := AList.delete ?a (nodes f2)\<rparr>"
  let ?f4 = "?f3\<lparr>nodes := AList.delete ?c (nodes ?f3)\<rparr>"
  from wr new(1) have anew: "node_at f ?a = None" by (rule fs_write_fresh)
  from fs_write_other [OF wr differ] new(2) have "stat f1 t = None" by simp
  with cw have cnew: "node_at f1 ?c = None" unfolding rp [symmetric] by (rule fs_write_fresh)
  from differ have "realpath f1 s \<noteq> realpath f1 t" by (simp add: rp)
  from fs_write_other [OF cw this] fs_write_stat [OF wr]
  have "stat f2 s = Some (?a, File c)" by simp
  then have rm: "os_remove f2 s = Inr ?f3"
    by (rule os_remove_file) (simp add: f2(1) f1(1) faults)
  from differ have "realpath f2 t \<noteq> realpath f2 s" by (simp add: rp)
  from os_remove_other [OF rm this] fs_write_stat [OF cw]
  have st: "stat ?f3 t = Some (?c, File co)" by (simp add: rp)
  then have rc: "os_remove ?f3 t = Inr ?f4"
    by (rule os_remove_file) (simp add: f2(1) f1(1) faults)
  have "map_of (nodes f2) a = node_at f2 a" for a by (simp add: node_at_def)
  with anew cnew differ have "\<forall>a. node_at ?f4 a = node_at f a"
    by (auto simp: node_at_nodes delete_conv' f1(3) f2(3) rp)
  with rm st rc show thesis by (rule that)
qed

end
