(* ===== verification/App_Config.thy ===== *)
theory App_Config
  imports Py_Path
begin

text \<open>
  The configuration constants of \<^verbatim>\<open>src/app.py\<close> (lines 24--34) and its
  two file-type checks, \<^verbatim>\<open>allowed_file\<close> and \<^verbatim>\<open>allowed_cover_file\<close>
  (lines 40--48). The two Python sets of extensions are lists here, read
  through \<^const>\<open>set\<close>; the order of the list is used only where the source
  prints the set.
\<close>

section \<open>Constants\<close>

definition UPLOAD_FOLDER :: string where
  "UPLOAD_FOLDER = ''uploads''"

definition COVERS_FOLDER_NAME :: string where
  "COVERS_FOLDER_NAME = ''covers''"

definition COVERS_FOLDER :: string where
  "COVERS_FOLDER = os_path_join UPLOAD_FOLDER COVERS_FOLDER_NAME"

definition LIBRARY_FILE :: string where
  "LIBRARY_FILE = ''library.json''"

definition ALLOWED_EXTENSIONS :: "string list" where
  "ALLOWED_EXTENSIONS = [''mp3'']"

definition ALLOWED_COVER_EXTENSIONS :: "string list" where
  "ALLOWED_COVER_EXTENSIONS = [''png'', ''jpg'', ''jpeg'', ''gif'']"

definition MAX_CONTENT_LENGTH :: nat where
  "MAX_CONTENT_LENGTH = 30 * 1024 * 1024"

section \<open>The file-type checks\<close>

definition allowed_file :: "string \<Rightarrow> bool" where
  "allowed_file filename \<longleftrightarrow>
     CHR ''.'' \<in> set filename \<and>
     lower (rsplit1 (CHR ''.'') filename ! 1) \<in> set ALLOWED_EXTENSIONS"

definition allowed_cover_file :: "string \<Rightarrow> bool" where
  "allowed_cover_file filename \<longleftrightarrow>
     CHR ''.'' \<in> set filename \<and>
     lower (rsplit1 (CHR ''.'') filename ! 1) \<in> set ALLOWED_COVER_EXTENSIONS"

lemmas [handler_defs] =
  UPLOAD_FOLDER_def COVERS_FOLDER_NAME_def COVERS_FOLDER_def LIBRARY_FILE_def
  ALLOWED_EXTENSIONS_def ALLOWED_COVER_EXTENSIONS_def MAX_CONTENT_LENGTH_def
  allowed_file_def allowed_cover_file_def

section \<open>Facts\<close>

lemma COVERS_FOLDER_eq: "COVERS_FOLDER = ''uploads/covers''"
  by (simp add: COVERS_FOLDER_def UPLOAD_FOLDER_def COVERS_FOLDER_NAME_def os_path_join_def)

lemma allowed_file_iff:
  "allowed_file f \<longleftrightarrow> CHR ''.'' \<in> set f \<and> lower (after_last (CHR ''.'') f) = ''mp3''"
  by (auto simp: allowed_file_def ALLOWED_EXTENSIONS_def rsplit1_nth1)

lemma allowed_cover_file_iff:
  "allowed_cover_file f \<longleftrightarrow>
     CHR ''.'' \<in> set f \<and> lower (after_last (CHR ''.'') f) \<in> {''png'', ''jpg'', ''jpeg'', ''gif''}"
  by (auto simp: allowed_cover_file_def ALLOWED_COVER_EXTENSIONS_def rsplit1_nth1)

text \<open>A string that lower-cases to letters and digits has that many characters
  and no dot: the shape of every accepted extension.\<close>

lemma lower_eq_ConsD: "lower s = c # t \<Longrightarrow> \<exists>d u. s = d # u \<and> lower_char d = c \<and> lower u = t"
  by (cases s) auto

lemma allowed_file_shape:
  assumes "allowed_file f"
  obtains b e where "f = b @ CHR ''.'' # e" and "lower e = ''mp3''" and "CHR ''.'' \<notin> set e"
proof -
  from assms have dot: "CHR ''.'' \<in> set f" and ext: "lower (after_last (CHR ''.'') f) = ''mp3''"
    by (simp_all add: allowed_file_iff)
  from dot have "f = before_last (CHR ''.'') f @ CHR ''.'' # after_last (CHR ''.'') f"
    by (simp add: before_after_last)
  with ext that show thesis by (metis after_last_notin)
qed

text \<open>The check reads the extension only, and reads it without regard to case.\<close>

lemma allowed_file_append:
  "CHR ''.'' \<notin> set e \<Longrightarrow> allowed_file (b @ CHR ''.'' # e) \<longleftrightarrow> lower e = ''mp3''"
  by (simp add: allowed_file_iff)

lemma allowed_cover_file_append:
  "CHR ''.'' \<notin> set e \<Longrightarrow>
     allowed_cover_file (b @ CHR ''.'' # e) \<longleftrightarrow> lower e \<in> {''png'', ''jpg'', ''jpeg'', ''gif''}"
  by (simp add: allowed_cover_file_iff)

text \<open>C35: A file name is accepted as audio exactly when it ends in a dot followed
  by \<^verbatim>\<open>mp3\<close> in any mix of upper and lower case; nothing before that dot matters.\<close>

theorem allowed_file_characterisation:
  "allowed_file f \<longleftrightarrow> (\<exists>b e. f = b @ CHR ''.'' # e \<and> CHR ''.'' \<notin> set e \<and> lower e = ''mp3'')"
proof
  assume "allowed_file f"
  then show "\<exists>b e. f = b @ CHR ''.'' # e \<and> CHR ''.'' \<notin> set e \<and> lower e = ''mp3''"
    by (rule allowed_file_shape) blast
next
  assume "\<exists>b e. f = b @ CHR ''.'' # e \<and> CHR ''.'' \<notin> set e \<and> lower e = ''mp3''"
  then show "allowed_file f"
    by (auto simp: allowed_file_append)
qed

text \<open>The name of an accepted file is not sanitised away.\<close>

lemma allowed_file_secure: "allowed_file name \<Longrightarrow> secure_filename name \<noteq> []"
proof -
  assume "allowed_file name"
  then have "lower (after_last (CHR ''.'') name) = ''mp3''" by (simp add: allowed_file_iff)
  then have "CHR ''3'' \<in> set (after_last (CHR ''.'') name)"
    by (auto simp: lower_def map_eq_Cons_conv dest: lower_char_eq_digit)
  then have "CHR ''3'' \<in> set name" using set_after_last_subset by fastforce
  then have "CHR ''3'' \<in> set (secure_filename name)"
    by (rule secure_filename_keeps) (simp add: digits_def)
  then show ?thesis by auto
qed

end
