(* ===== verification/World.thy ===== *)
theory World
  imports File_System App_Config
begin

text \<open>
  What the handlers share: the capabilities of the platform that the source
  only calls (the tag reader \<^verbatim>\<open>mutagen\<close>, \<^verbatim>\<open>uuid.uuid4\<close>, \<^verbatim>\<open>repr\<close> of a
  container, the order in which a \<^verbatim>\<open>set\<close> of strings is iterated), gathered
  in an immutable record; the files of a request; the state a request can
  change (the file system and the number of identifiers drawn so far); and
  the responses a view returns. Output written with \<^verbatim>\<open>print\<close> is not part
  of the state.
\<close>

section \<open>The tag reader\<close>

text \<open>
  \<^verbatim>\<open>EasyID3(path)\<close> returns the text tags of a file, each a list of strings,
  or raises (\<^verbatim>\<open>ID3NoHeaderError\<close> when the file has no tag header).
  \<^verbatim>\<open>MP3(path, ID3=ID3)\<close> returns the frames of the tag in their order, or
  raises; a frame whose name starts with \<^verbatim>\<open>APIC\<close> is a picture with a MIME
  type and data.
\<close>

datatype easy_result = EasyTags "(string \<times> string list) list" | EasyRaises py_exn

datatype frame = APIC (mime: string) (data: string) | OtherFrame

datatype mp3_result = Mp3Tags "(string \<times> frame) list" | Mp3Raises py_exn

section \<open>Capabilities and state\<close>

record env =
  MUTAGEN_AVAILABLE :: bool
  EasyID3 :: "content \<Rightarrow> easy_result"
  MP3 :: "content \<Rightarrow> mp3_result"
  uuid4 :: "nat \<Rightarrow> string"
  py_repr :: "pyval \<Rightarrow> string"
  set_order :: "string list \<Rightarrow> string list"

record world =
  disk :: fs
  uuid_count :: nat

text \<open>\<^verbatim>\<open>str(uuid.uuid4())\<close>: the next identifier of the source of identifiers.\<close>

definition new_uuid :: "env \<Rightarrow> world \<Rightarrow> string \<times> world" where
  "new_uuid e w = (uuid4 e (uuid_count w), w\<lparr>uuid_count := Suc (uuid_count w)\<rparr>)"

text \<open>\<^verbatim>\<open>str(v)\<close>, which an f-string applies to the value it prints.\<close>

definition py_str :: "env \<Rightarrow> pyval \<Rightarrow> string" where
  "py_str e v =
     (case v of
        PStr s \<Rightarrow> s
      | PNone \<Rightarrow> ''None''
      | PBool b \<Rightarrow> (if b then ''True'' else ''False'')
      | PInt i \<Rightarrow> str_of_int i
      | _ \<Rightarrow> py_repr e v)"

text \<open>The identifiers \<^verbatim>\<open>uuid4\<close> prints have 36 characters, each a
  hexadecimal digit or a hyphen.\<close>

definition uuid_chars :: string where
  "uuid_chars = ''0123456789abcdef-''"

definition uuid_ok :: "env \<Rightarrow> bool" where
  "uuid_ok e \<longleftrightarrow> (\<forall>n. length (uuid4 e n) = 36 \<and> set (uuid4 e n) \<subseteq> set uuid_chars)"

section \<open>Uploaded files\<close>

text \<open>
  A \<^verbatim>\<open>FileStorage\<close> of werkzeug: the file name the client sent and the
  bytes of the file. It is true in a condition when its name is not empty.
\<close>

record file_storage =
  storage_filename :: string
  storage_bytes :: string

definition storage_true :: "file_storage option \<Rightarrow> bool" where
  "storage_true fo \<longleftrightarrow> (case fo of Some c \<Rightarrow> storage_filename c \<noteq> [] | None \<Rightarrow> False)"

text \<open>\<^verbatim>\<open>file.save(path)\<close>: the bytes are written to the path.\<close>

definition storage_save :: "file_storage \<Rightarrow> path \<Rightarrow> fs \<Rightarrow> fs result" where
  "storage_save c p f = fs_write f (path_str p) (Bytes (storage_bytes c))"

section \<open>Responses\<close>

text \<open>
  What a view returns: \<^verbatim>\<open>jsonify(body), status\<close>; a file sent by
  \<^verbatim>\<open>send_from_directory\<close>; \<^verbatim>\<open>abort(status, description)\<close>; a rendered
  template; or an exception that leaves the view, which Flask answers with
  status 500.
\<close>

datatype response =
    Json nat pyval
  | Sent content
  | Abort nat string
  | Rendered string
  | Unhandled py_exn

fun status_of :: "response \<Rightarrow> nat" where
  "status_of (Json code body) = code"
| "status_of (Sent c) = 200"
| "status_of (Abort code d) = code"
| "status_of (Rendered t) = 200"
| "status_of (Unhandled e) = 500"

text \<open>The dictionary literal \<^verbatim>\<open>{"error": msg}\<close> and its kin.\<close>

definition error_body :: "string \<Rightarrow> pyval" where
  "error_body msg = PDict [(PStr ''error'', PStr msg)]"

lemmas [handler_defs] = new_uuid_def py_str_def error_body_def storage_true_def storage_save_def

lemma uuid_okD: "uuid_ok e \<Longrightarrow> length (uuid4 e n) = 36"
  by (simp add: uuid_ok_def)

lemma uuid_ok_chars: "uuid_ok e \<Longrightarrow> c \<in> set (uuid4 e n) \<Longrightarrow> c \<in> set uuid_chars"
  by (auto simp: uuid_ok_def)

lemma uuid_ok_no_slash: "uuid_ok e \<Longrightarrow> CHR ''/'' \<notin> set (uuid4 e n)"
  by (auto simp: uuid_chars_def dest: uuid_ok_chars)

lemma disk_new_uuid [simp]: "disk (snd (new_uuid e w)) = disk w"
  by (simp add: new_uuid_def)

section \<open>An example installation\<close>

text \<open>
  A small installation on which the theorems of the development are
  instantiated: the working directory \<^verbatim>\<open>/srv\<close> with the catalog, the
  upload folder and the covers folder, one song with its cover, a tag reader
  that finds tags in the bytes \<^verbatim>\<open>ID3 tagged\<close> only, and identifiers of 36
  characters.
\<close>

definition demo_uuid :: "nat \<Rightarrow> string" where
  "demo_uuid n = ''7d1f0c52-9a3e-4b6f-8c21-5e0a9b7d3f0'' @ [digit_char n]"

definition demo_env :: env where
  "demo_env =
     \<lparr>MUTAGEN_AVAILABLE = True,
      EasyID3 = (\<lambda>c. if c = Bytes ''ID3 tagged''
                      then EasyTags [(''title'', [''Blue'']), (''artist'', [''Ada''])]
                      else EasyRaises (ID3NoHeaderError ''no header'')),
      MP3 = (\<lambda>c. if c = Bytes ''ID3 tagged''
                   then Mp3Tags [(''TIT2'', OtherFrame), (''APIC:'', APIC ''image/jpeg'' ''JFIF'')]
                   else Mp3Raises (MutagenError ''no sync'')),
      uuid4 = demo_uuid,
      py_repr = (\<lambda>v. ''...''),
      set_order = (\<lambda>xs. xs)\<rparr>"

definition demo_id :: string where
  "demo_id = ''3c9d2f6e-51a7-4e08-b5d4-0a1b2c3d4e5f''"

definition demo_song :: pydict where
  "demo_song =
     [(PStr ''id'', PStr demo_id), (PStr ''filename'', PStr ''blue.mp3''),
      (PStr ''title'', PStr ''Blue''), (PStr ''artist'', PStr ''Ada''),
      (PStr ''album'', PStr ''Unknown Album''), (PStr ''genre'', PStr ''Unknown Genre''),
      (PStr ''audioSrc'', PStr ''/uploads/blue.mp3''),
      (PStr ''coverSrc'', PStr (''/covers/'' @ demo_id @ ''.png''))]"

definition demo_library :: pydict where
  "demo_library = [(PStr ''songs'', PDict [(PStr demo_id, PDict demo_song)])]"

definition demo_fs :: fs where
  "demo_fs =
     \<lparr>nodes =
        [([], Dir), ([''srv''], Dir),
         ([''srv'', ''library.json''], File (Doc (PDict demo_library))),
         ([''srv'', ''uploads''], Dir),
         ([''srv'', ''uploads'', ''covers''], Dir),
         ([''srv'', ''uploads'', ''blue.mp3''], File (Bytes ''ID3 tagged'')),
         ([''srv'', ''uploads'', ''covers'', demo_id @ ''.png''], File (Bytes ''PNG''))],
      cwd = [''srv''],
      read_faults = [], write_faults = [], remove_faults = []\<rparr>"

definition demo_world :: world where
  "demo_world = \<lparr>disk = demo_fs, uuid_count = 0\<rparr>"

lemmas demo_defs =
  demo_uuid_def demo_env_def demo_id_def demo_song_def demo_library_def demo_fs_def
  demo_world_def

lemma demo_world_simps [simp]:
  "disk demo_world = demo_fs" "uuid_count demo_world = 0" "cwd demo_fs = [''srv'']"
  by (simp_all add: demo_world_def demo_fs_def)

lemma uuid_ok_demo: "uuid_ok demo_env"
proof -
  have "digit_char n \<in> set uuid_chars" for n
  proof -
    have "digits ! (n mod 10) \<in> set digits" by (intro nth_mem) (simp add: digits_def)
    then show ?thesis by (auto simp: digit_char_def digits_def uuid_chars_def)
  qed
  then show ?thesis by (simp add: uuid_ok_def demo_env_def demo_uuid_def uuid_chars_def)
qed

lemma fs_ok_demo: "fs_ok demo_fs"
  by (simp add: demo_fs_def demo_id_def fs_ok_def node_at_def name_ok_def)

end
