(* ===== verification/Catalog_Store.thy ===== *)
theory Catalog_Store
  imports World
begin

text \<open>
  The catalog store of \<^verbatim>\<open>src/app.py\<close>: \<^verbatim>\<open>save_library\<close> (lines 95--120)
  and \<^verbatim>\<open>load_library\<close> (lines 51--92). The catalog in memory is the
  dictionary \<^verbatim>\<open>{"songs": {id: record}}\<close>; on disk it is the JSON text of
  that dictionary. \<^verbatim>\<open>load_library\<close> repairs legacy records on every load and
  writes the catalog back when it repaired one.
\<close>

section \<open>Reading the catalog dictionary\<close>

definition empty_library :: pydict where
  "empty_library = [(PStr ''songs'', PDict [])]"

text \<open>\<^verbatim>\<open>d.get("songs", {})\<close>.\<close>

definition songs_of :: "pydict \<Rightarrow> pyval" where
  "songs_of d = (case sget d ''songs'' of Some v \<Rightarrow> v | None \<Rightarrow> PDict [])"

text \<open>\<^verbatim>\<open>"songs" not in d or not isinstance(d["songs"], dict)\<close>.\<close>

definition songs_missing :: "pydict \<Rightarrow> bool" where
  "songs_missing d \<longleftrightarrow> (case sget d ''songs'' of Some (PDict s) \<Rightarrow> False | _ \<Rightarrow> True)"

text \<open>The message of the \<^verbatim>\<open>AttributeError\<close> for a missing attribute.\<close>

definition no_attribute :: "pyval \<Rightarrow> string \<Rightarrow> py_exn" where
  "no_attribute v a =
     AttributeError (quoted (type_name v) @ '' object has no attribute '' @ quoted a)"

section \<open>save\_library\<close>

text \<open>
  The loop of lines 102--107: every record that is a dictionary with an
  \<^verbatim>\<open>id\<close> is stored under that \<^verbatim>\<open>id\<close>, the others are skipped. An \<^verbatim>\<open>id\<close>
  that is a list or a dictionary cannot be a key: \<^verbatim>\<open>TypeError\<close>.
\<close>

fun rekey_songs :: "(pyval \<times> pyval) list \<Rightarrow> pydict \<Rightarrow> pydict result" where
  "rekey_songs [] corrected = Inr corrected"
| "rekey_songs ((key, song_data) # rest) corrected =
     (case song_data of
        PDict sd \<Rightarrow>
          (case sget sd ''id'' of
             Some i \<Rightarrow>
               if hashable i then rekey_songs rest (dict_set corrected i song_data)
               else Inl (TypeError (''unhashable type: '' @ quoted (type_name i)))
           | None \<Rightarrow> rekey_songs rest corrected)
      | _ \<Rightarrow> rekey_songs rest corrected)"

text \<open>
  The result is the returned flag, the caller's dictionary as the call leaves
  it (line 108 assigns to it unless line 100 has bound the name to a new
  dictionary), and the file system. An \<^verbatim>\<open>OSError\<close> of the write and the
  \<^verbatim>\<open>TypeError\<close> of the loop are caught and give \<^verbatim>\<open>False\<close>; a \<^verbatim>\<open>songs\<close>
  entry that is no dictionary has no \<^verbatim>\<open>items\<close>, which is not caught.
\<close>

definition save_library :: "pydict \<Rightarrow> string \<Rightarrow> fs \<Rightarrow> (bool \<times> pydict \<times> fs) result" where
  "save_library library_data library_path f =
     (let rebound = songs_missing library_data;
          library_data1 =
            (if rebound then [(PStr ''songs'', songs_of library_data)] else library_data)
      in case songs_of library_data1 of
           PDict songs \<Rightarrow>
             (case rekey_songs songs [] of
                Inl ex \<Rightarrow> Inr (False, library_data, f)
              | Inr corrected_songs \<Rightarrow>
                  let library_data2 = sset library_data1 ''songs'' (PDict corrected_songs);
                      seen = (if rebound then library_data else library_data2)
                  in (case fs_write f library_path (Doc (PDict library_data2)) of
                        Inl ex \<Rightarrow> Inr (False, seen, f)
                      | Inr f' \<Rightarrow> Inr (True, seen, f')))
         | v \<Rightarrow> Inl (no_attribute v ''items''))"

section \<open>load\_library\<close>

text \<open>
  One round of the loop of lines 61--80, step by step. Lines 62--66 choose
  the identifier: the record's \<^verbatim>\<open>id\<close>, or else its key, and a new one
  when that is no string of at least ten characters.
\<close>

definition pick_id :: "env \<Rightarrow> pyval \<Rightarrow> pydict \<Rightarrow> nat \<Rightarrow> string \<times> bool" where
  "pick_id e key sd n =
     (case (case sget sd ''id'' of Some v \<Rightarrow> v | None \<Rightarrow> key) of
        PStr s \<Rightarrow> if length s < 10 then (uuid4 e n, True) else (s, False)
      | _ \<Rightarrow> (uuid4 e n, True))"

text \<open>Lines 68--70 store the identifier in the record.\<close>

definition repair_id :: "string \<Rightarrow> pydict \<Rightarrow> pydict \<times> bool" where
  "repair_id song_id sd =
     (if sget sd ''id'' \<noteq> Some (PStr song_id) then (sset sd ''id'' (PStr song_id), True)
      else (sd, False))"

text \<open>Lines 72--74 derive a missing \<^verbatim>\<open>audioSrc\<close> from the \<^verbatim>\<open>filename\<close>.\<close>

definition repair_audio :: "env \<Rightarrow> pydict \<Rightarrow> pydict \<times> bool" where
  "repair_audio e sd =
     (case sget sd ''filename'' of
        Some fv \<Rightarrow>
          if \<not> shas sd ''audioSrc''
          then (sset sd ''audioSrc'' (PStr (''/uploads/'' @ py_str e fv)), True)
          else (sd, False)
      | None \<Rightarrow> (sd, False))"

text \<open>Lines 76--78 root a cover path that is not rooted. A cover path that
  is true and no string has no \<^verbatim>\<open>startswith\<close>.\<close>

definition repair_cover :: "pydict \<Rightarrow> (pydict \<times> bool) result" where
  "repair_cover sd =
     (case sget sd ''coverSrc'' of
        Some (PStr cs) \<Rightarrow>
          if cs \<noteq> [] \<and> \<not> startswith cs ''/''
          then Inr (sset sd ''coverSrc''
                      (PStr (''/'' @ COVERS_FOLDER_NAME @ ''/'' @ path_name (Path cs))), True)
          else Inr (sd, False)
      | Some c \<Rightarrow> if truthy c then Inl (no_attribute c ''startswith'') else Inr (sd, False)
      | None \<Rightarrow> Inr (sd, False))"

text \<open>
  The round: the identifier, the repaired record, and whether anything was
  repaired. The number is the count of identifiers drawn. A record that is no
  dictionary has no \<^verbatim>\<open>get\<close>; neither this exception nor that of the cover
  path is caught by \<^verbatim>\<open>load_library\<close>.
\<close>

definition normalize_song ::
  "env \<Rightarrow> pyval \<Rightarrow> pyval \<Rightarrow> nat \<Rightarrow> (string \<times> pydict \<times> bool) result \<times> nat" where
  "normalize_song e key song_data n =
     (case song_data of
        PDict sd \<Rightarrow>
          let (song_id, renew) = pick_id e key sd n;
              n' = (if renew then Suc n else n);
              (sd1, set_id) = repair_id song_id sd;
              (sd2, set_audio) = repair_audio e sd1
          in (case repair_cover sd2 of
                Inl ex \<Rightarrow> (Inl ex, n')
              | Inr (sd3, set_cover) \<Rightarrow>
                  (Inr (song_id, sd3, renew \<or> set_id \<or> set_audio \<or> set_cover), n'))
      | v \<Rightarrow> (Inl (no_attribute v ''get''), n))"

text \<open>The loop: \<^verbatim>\<open>needs_save\<close>, \<^verbatim>\<open>updated_songs\<close> and the count of
  identifiers drawn are its variables.\<close>

fun normalize_songs ::
  "env \<Rightarrow> (pyval \<times> pyval) list \<Rightarrow> bool \<Rightarrow> pydict \<Rightarrow> nat \<Rightarrow> (bool \<times> pydict) result \<times> nat" where
  "normalize_songs e [] needs_save updated_songs n = (Inr (needs_save, updated_songs), n)"
| "normalize_songs e ((key, song_data) # rest) needs_save updated_songs n =
     (case normalize_song e key song_data n of
        (Inl ex, n') \<Rightarrow> (Inl ex, n')
      | (Inr (song_id, sd, changed), n') \<Rightarrow>
          normalize_songs e rest (needs_save \<or> changed)
            (sset updated_songs song_id (PDict sd)) n')"

text \<open>
  Lines 57--58 on a document that is no dictionary: the membership test, the
  subscript or the assignment raises \<^verbatim>\<open>TypeError\<close> (the wording is that of
  CPython 3.11 and 3.12), which \<^verbatim>\<open>load_library\<close> does not catch.
\<close>

definition top_level_error :: "pyval \<Rightarrow> py_exn" where
  "top_level_error v =
     TypeError
       (case v of
          PStr s \<Rightarrow>
            if sublist ''songs'' s then ''string indices must be integers, not '' @ quoted ''str''
            else quoted ''str'' @ '' object does not support item assignment''
        | PList l \<Rightarrow> ''list indices must be integers or slices, not str''
        | _ \<Rightarrow> ''argument of type '' @ quoted (type_name v) @ '' is not iterable'')"

text \<open>The dictionary under \<^verbatim>\<open>songs\<close> after lines 57--58.\<close>

definition songs_dict :: "pydict \<Rightarrow> pydict" where
  "songs_dict d = (case sget d ''songs'' of Some (PDict s) \<Rightarrow> s | _ \<Rightarrow> [])"

text \<open>
  A file that cannot be opened and a file that holds no JSON text give the
  empty catalog. The file is read through \<^const>\<open>json_reload\<close>: what was
  dumped comes back as \<^verbatim>\<open>json.load\<close> returns it.
\<close>

definition load_library :: "env \<Rightarrow> string \<Rightarrow> world \<Rightarrow> pydict result \<times> world" where
  "load_library e library_path w =
     (if os_path_exists (disk w) library_path then
        (case fs_read (disk w) library_path of
           Inl ex \<Rightarrow> (Inr empty_library, w)
         | Inr (Bytes b) \<Rightarrow> (Inr empty_library, w)
         | Inr (Doc v) \<Rightarrow>
             (case json_reload v of
                PDict data0 \<Rightarrow>
                  let data = (if songs_missing data0 then sset data0 ''songs'' (PDict []) else data0)
                  in (case normalize_songs e (songs_dict data) False [] (uuid_count w) of
                        (Inl ex, n) \<Rightarrow> (Inl ex, w\<lparr>uuid_count := n\<rparr>)
                      | (Inr (needs_save, updated_songs), n) \<Rightarrow>
                          let data1 = sset data ''songs'' (PDict updated_songs);
                              w1 = w\<lparr>uuid_count := n\<rparr>
                          in if needs_save then
                               (case save_library data1 library_path (disk w1) of
                                  Inl ex \<Rightarrow> (Inl ex, w1)
                                | Inr (ok, data2, f') \<Rightarrow> (Inr data2, w1\<lparr>disk := f'\<rparr>))
                             else (Inr data1, w1))
              | v' \<Rightarrow> (Inl (top_level_error v'), w)))
      else (Inr empty_library, w))"

lemmas [handler_defs] =
  empty_library_def songs_of_def songs_missing_def no_attribute_def save_library_def
  pick_id_def repair_id_def repair_audio_def repair_cover_def
  normalize_song_def top_level_error_def songs_dict_def load_library_def

section \<open>Normal records and catalogs\<close>

text \<open>
  A record is normal under its key when \<^verbatim>\<open>load_library\<close> has nothing to
  repair: the key is a string of at least ten characters and the record's
  \<^verbatim>\<open>id\<close>, the record has an \<^verbatim>\<open>audioSrc\<close> if it has a \<^verbatim>\<open>filename\<close>, and
  its \<^verbatim>\<open>coverSrc\<close>, if true, is a rooted string. A catalog is normal when
  every record is.
\<close>

definition id_ok :: "string \<Rightarrow> pydict \<Rightarrow> bool" where
  "id_ok s sd \<longleftrightarrow> 10 \<le> length s \<and> sget sd ''id'' = Some (PStr s)"

definition audio_ok :: "pydict \<Rightarrow> bool" where
  "audio_ok sd \<longleftrightarrow> shas sd ''audioSrc'' \<or> \<not> shas sd ''filename''"

definition cover_ok :: "pydict \<Rightarrow> bool" where
  "cover_ok sd \<longleftrightarrow>
     (case sget sd ''coverSrc'' of
        None \<Rightarrow> True
      | Some (PStr cs) \<Rightarrow> cs = [] \<or> startswith cs ''/''
      | Some c \<Rightarrow> \<not> truthy c)"

definition song_normal :: "pyval \<Rightarrow> pyval \<Rightarrow> bool" where
  "song_normal key v \<longleftrightarrow>
     (case (key, v) of
        (PStr s, PDict sd) \<Rightarrow> id_ok s sd \<and> audio_ok sd \<and> cover_ok sd
      | _ \<Rightarrow> False)"

definition songs_normal :: "pydict \<Rightarrow> bool" where
  "songs_normal songs \<longleftrightarrow> dict_ok songs \<and> list_all (\<lambda>kv. song_normal (fst kv) (snd kv)) songs"

definition library_normal :: "pydict \<Rightarrow> bool" where
  "library_normal d \<longleftrightarrow> \<not> songs_missing d \<and> songs_normal (songs_dict d)"

lemma song_normal_iff:
  "song_normal key v \<longleftrightarrow>
     (\<exists>s sd. key = PStr s \<and> v = PDict sd \<and> id_ok s sd \<and> audio_ok sd \<and> cover_ok sd)"
  by (cases key; cases v) (simp_all add: song_normal_def)

lemma song_normal_PStr_PDict [simp]:
  "song_normal (PStr s) (PDict sd) \<longleftrightarrow> id_ok s sd \<and> audio_ok sd \<and> cover_ok sd"
  by (simp add: song_normal_def)

section \<open>Facts about the steps of the repair\<close>

lemma pick_id_keep: "id_ok s sd \<Longrightarrow> pick_id e key sd n = (s, False)"
  by (simp add: pick_id_def id_ok_def)

lemma pick_id_length:
  "10 \<le> length (uuid4 e n) \<Longrightarrow> 10 \<le> length (fst (pick_id e key sd n))"
  by (simp add: pick_id_def split: option.splits pyval.splits)

lemma repair_id_keep: "id_ok s sd \<Longrightarrow> repair_id s sd = (sd, False)"
  by (simp add: repair_id_def id_ok_def)

lemma repair_id_gives: "10 \<le> length s \<Longrightarrow> id_ok s (fst (repair_id s sd))"
  by (simp add: repair_id_def id_ok_def)

lemma sget_repair_id: "k \<noteq> ''id'' \<Longrightarrow> sget (fst (repair_id s sd)) k = sget sd k"
  by (simp add: repair_id_def)

lemma repair_audio_keep: "audio_ok sd \<Longrightarrow> repair_audio e sd = (sd, False)"
  by (auto simp: repair_audio_def audio_ok_def dict_has_def split: option.splits)

lemma repair_audio_gives: "audio_ok (fst (repair_audio e sd))"
  by (auto simp: repair_audio_def audio_ok_def dict_has_def split: option.splits)

lemma sget_repair_audio:
  "k \<noteq> ''audioSrc'' \<Longrightarrow> sget (fst (repair_audio e sd)) k = sget sd k"
  by (simp add: repair_audio_def split: option.splits)

lemma repair_cover_keep: "cover_ok sd \<Longrightarrow> repair_cover sd = Inr (sd, False)"
  by (auto simp: repair_cover_def cover_ok_def split: option.splits pyval.splits)

lemma repair_cover_gives: "repair_cover sd = Inr (sd', ch) \<Longrightarrow> cover_ok sd'"
  by (auto simp: repair_cover_def cover_ok_def split: option.splits pyval.splits if_splits)

lemma sget_repair_cover:
  "repair_cover sd = Inr (sd', ch) \<Longrightarrow> k \<noteq> ''coverSrc'' \<Longrightarrow> sget sd' k = sget sd k"
  by (auto simp: repair_cover_def split: option.splits pyval.splits if_splits)

text \<open>The three conditions are about three different keys, so a step that
  repairs one keeps the others.\<close>

lemma id_ok_cong: "sget sd' ''id'' = sget sd ''id'' \<Longrightarrow> id_ok s sd' = id_ok s sd"
  by (simp add: id_ok_def)

lemma audio_ok_cong:
  "sget sd' ''audioSrc'' = sget sd ''audioSrc'' \<Longrightarrow> sget sd' ''filename'' = sget sd ''filename''
     \<Longrightarrow> audio_ok sd' = audio_ok sd"
  by (simp add: audio_ok_def dict_has_def)

section \<open>Facts about one round of the repair\<close>

text \<open>A normal record comes back as it is, no identifier is drawn and nothing
  is marked for saving.\<close>

lemma normalize_song_normal:
  assumes "song_normal (PStr s) (PDict sd)"
  shows "normalize_song e (PStr s) (PDict sd) n = (Inr (s, sd, False), n)"
  using assms
  by (simp add: normalize_song_def pick_id_keep [where s = s] repair_id_keep
      repair_audio_keep repair_cover_keep)

text \<open>Whatever the repair returns is normal under its new key, when the
  identifiers drawn are long enough.\<close>

lemma normalize_song_gives_normal:
  assumes run: "normalize_song e key v n = (Inr (song_id, sd, changed), n')"
    and long: "10 \<le> length (uuid4 e n)"
  shows "song_normal (PStr song_id) (PDict sd)"
proof -
  from run obtain sd0 where v: "v = PDict sd0"
    by (cases v) (simp_all add: normalize_song_def)
  define sd1 where "sd1 = fst (repair_id song_id sd0)"
  define sd2 where "sd2 = fst (repair_audio e sd1)"
  from run v have id: "song_id = fst (pick_id e key sd0 n)"
    and cover: "\<exists>ch. repair_cover sd2 = Inr (sd, ch)"
    by (auto simp: normalize_song_def sd1_def sd2_def split_beta Let_def split: sum.splits)
  from cover obtain ch where rc: "repair_cover sd2 = Inr (sd, ch)" ..
  from id long have "10 \<le> length song_id" by (simp add: pick_id_length)
  then have "id_ok song_id sd1" unfolding sd1_def by (rule repair_id_gives)
  then have "id_ok song_id sd2"
    by (simp add: sd2_def id_ok_cong [OF sget_repair_audio])
  then have "id_ok song_id sd"
    by (simp add: id_ok_cong [OF sget_repair_cover [OF rc]])
  moreover have "audio_ok sd2" unfolding sd2_def by (rule repair_audio_gives)
  then have "audio_ok sd"
    by (simp add: audio_ok_cong [OF sget_repair_cover [OF rc] sget_repair_cover [OF rc]])
  moreover from rc have "cover_ok sd" by (rule repair_cover_gives)
  ultimately show ?thesis by simp
qed

lemma normalize_song_count:
  "normalize_song e key v n = (r, n') \<Longrightarrow> n \<le> n' \<and> n' \<le> Suc n"
  by (cases v) (auto simp: normalize_song_def split_beta Let_def split: sum.splits)

section \<open>Facts about the loop\<close>

lemma normalize_songs_count:
  "normalize_songs e songs ns acc n = (r, n') \<Longrightarrow> n \<le> n'"
proof (induction songs arbitrary: ns acc n)
  case Nil
  then show ?case by simp
next
  case (Cons kv songs)
  obtain key v where kv: "kv = (key, v)" by (cases kv)
  obtain r1 n1 where step: "normalize_song e key v n = (r1, n1)"
    by (cases "normalize_song e key v n")
  then have "n \<le> n1" by (auto dest: normalize_song_count)
  with Cons kv step show ?case
    by (cases r1) (auto split: prod.splits dest!: Cons.IH)
qed

text \<open>On normal records the loop only copies: nothing is marked, no
  identifier is drawn.\<close>

lemma normalize_songs_copy:
  "list_all (\<lambda>kv. song_normal (fst kv) (snd kv)) songs \<Longrightarrow>
     normalize_songs e songs ns acc n =
       (Inr (ns, foldl (\<lambda>d kv. dict_set d (fst kv) (snd kv)) acc songs), n)"
proof (induction songs arbitrary: acc)
  case Nil
  show ?case by simp
next
  case (Cons kv songs)
  from Cons.prems obtain s sd where kv: "kv = (PStr s, PDict sd)"
    and normal: "song_normal (PStr s) (PDict sd)"
    by (cases kv) (auto simp: song_normal_iff)
  from Cons.prems have "list_all (\<lambda>kv. song_normal (fst kv) (snd kv)) songs" by simp
  then show ?case
    using kv by (simp add: normalize_song_normal [OF normal] Cons.IH)
qed

lemma normalize_songs_normal:
  "songs_normal songs \<Longrightarrow> normalize_songs e songs False [] n = (Inr (False, songs), n)"
  by (simp add: songs_normal_def normalize_songs_copy foldl_dict_set_distinct)

text \<open>Assigning a normal record under its identifier keeps a catalog normal.\<close>

lemma set_dict_set_cases:
  "(k', v') \<in> set (dict_set d k v) \<Longrightarrow> (k', v') \<in> set d \<or> (hkey k' = hkey k \<and> v' = v)"
  by (induction d) (auto split: if_splits)

lemma songs_normal_Nil [simp]: "songs_normal []"
  by (simp add: songs_normal_def)

lemma songs_normal_set:
  assumes "songs_normal songs" and "song_normal (PStr s) v"
  shows "songs_normal (sset songs s v)"
proof -
  have "song_normal k' v'" if "(k', v') \<in> set (sset songs s v)" for k' v'
    using set_dict_set_cases [OF that] assms by (auto simp: songs_normal_def list_all_iff)
  with assms(1) show ?thesis
    by (auto simp: songs_normal_def list_all_iff)
qed

lemma songs_normal_del: "songs_normal songs \<Longrightarrow> songs_normal (dict_del songs k)"
  using set_dict_del_subset [of songs k] by (auto simp: songs_normal_def list_all_iff)

text \<open>Whatever the loop returns is a normal catalog, when the identifiers
  drawn are long enough.\<close>

lemma normalize_songs_gives_normal:
  assumes "normalize_songs e songs ns acc n = (Inr (ns', updated), n')"
    and "\<forall>m. 10 \<le> length (uuid4 e m)" and "songs_normal acc"
  shows "songs_normal updated"
  using assms
proof (induction songs arbitrary: ns acc n)
  case Nil
  then show ?case by simp
next
  case (Cons kv songs)
  obtain key v where kv: "kv = (key, v)" by (cases kv)
  from Cons.prems(1) kv obtain song_id sd changed n1
    where step: "normalize_song e key v n = (Inr (song_id, sd, changed), n1)"
      and rest: "normalize_songs e songs (ns \<or> changed) (sset acc song_id (PDict sd)) n1
                   = (Inr (ns', updated), n')"
    by (auto split: prod.splits sum.splits)
  from Cons.prems(2) have "10 \<le> length (uuid4 e n)" by simp
  with step have "song_normal (PStr song_id) (PDict sd)"
    by (rule normalize_song_gives_normal)
  with Cons.prems(3) have "songs_normal (sset acc song_id (PDict sd))"
    by (rule songs_normal_set)
  with rest Cons.prems(2) show ?case by (rule Cons.IH)
qed

section \<open>Facts about the catalog dictionary\<close>

lemma dict_set_same: "dict_get d k = Some v \<Longrightarrow> dict_set d k v = d"
  by (induction d) (auto split: if_splits)

lemma songs_present:
  "\<not> songs_missing d \<Longrightarrow> sget d ''songs'' = Some (PDict (songs_dict d))"
  by (auto simp: songs_missing_def songs_dict_def split: option.splits pyval.splits)

lemma songs_of_present: "\<not> songs_missing d \<Longrightarrow> songs_of d = PDict (songs_dict d)"
  by (simp add: songs_of_def songs_present)

lemma songs_missing_set [simp]: "\<not> songs_missing (sset d ''songs'' (PDict s))"
  by (simp add: songs_missing_def)

lemma songs_dict_single [simp]: "songs_dict [(PStr ''songs'', PDict s)] = s"
  by (simp add: songs_dict_def)

lemma songs_dict_set [simp]: "songs_dict (sset d ''songs'' (PDict s)) = s"
  by (simp add: songs_dict_def)

lemma sset_songs_same: "\<not> songs_missing d \<Longrightarrow> sset d ''songs'' (PDict (songs_dict d)) = d"
  by (simp add: dict_set_same songs_present)

lemma sset_songs_twice [simp]:
  "sset (sset d ''songs'' a) ''songs'' b = sset d ''songs'' b"
  by (induction d) auto

lemma library_normal_empty [simp]: "library_normal empty_library"
  by (simp add: library_normal_def empty_library_def songs_missing_def songs_dict_def)

lemma library_normal_set:
  "songs_normal s \<Longrightarrow> library_normal (sset d ''songs'' (PDict s))"
  by (simp add: library_normal_def)

section \<open>Facts about save\_library\<close>

lemma rekey_songs_copy:
  "list_all (\<lambda>kv. song_normal (fst kv) (snd kv)) songs \<Longrightarrow>
     rekey_songs songs acc = Inr (foldl (\<lambda>d kv. dict_set d (fst kv) (snd kv)) acc songs)"
proof (induction songs arbitrary: acc)
  case Nil
  show ?case by simp
next
  case (Cons kv songs)
  from Cons.prems obtain s sd where kv: "kv = (PStr s, PDict sd)" and "id_ok s sd"
    by (cases kv) (auto simp: song_normal_iff)
  with Cons show ?case by (simp add: id_ok_def)
qed

lemma rekey_songs_normal: "songs_normal songs \<Longrightarrow> rekey_songs songs [] = Inr songs"
  by (simp add: songs_normal_def rekey_songs_copy foldl_dict_set_distinct)

text \<open>A normal catalog is written as it is, and the call leaves the caller's
  dictionary as it was.\<close>

lemma save_library_normal:
  assumes "library_normal d"
  shows "save_library d p f =
           (case fs_write f p (Doc (PDict d)) of
              Inl ex \<Rightarrow> Inr (False, d, f)
            | Inr f' \<Rightarrow> Inr (True, d, f'))"
  using assms
  by (simp add: library_normal_def save_library_def songs_of_present rekey_songs_normal
      sset_songs_same)

lemma save_library_no_raise: "\<not> songs_missing d \<Longrightarrow> \<not> isl (save_library d p f)"
  by (simp add: save_library_def songs_of_present Let_def split: sum.splits)

section \<open>Facts about load\_library\<close>

lemma load_library_absent:
  "\<not> os_path_exists (disk w) p \<Longrightarrow> load_library e p w = (Inr empty_library, w)"
  by (simp add: load_library_def)

lemma load_library_unreadable:
  "fs_read (disk w) p = Inl ex \<Longrightarrow> load_library e p w = (Inr empty_library, w)"
  by (simp add: load_library_def)

lemma load_library_no_json:
  "fs_read (disk w) p = Inr (Bytes b) \<Longrightarrow> load_library e p w = (Inr empty_library, w)"
  by (simp add: load_library_def)

text \<open>
  The catalog a load returns when the file holds a dictionary and the loop
  ends: the loaded dictionary with the repaired songs. It is written back,
  if anything was repaired, and returned whether or not the write succeeds.
\<close>

lemma songs_dict_fix:
  "songs_dict (if songs_missing d then sset d ''songs'' (PDict []) else d) = songs_dict d"
  by (auto simp: songs_missing_def songs_dict_def split: option.splits pyval.splits)

lemma load_library_Doc:
  assumes read: "fs_read (disk w) p = Inr (Doc v)"
    and doc: "json_reload v = PDict data0"
    and loop: "normalize_songs e (songs_dict data0) False [] (uuid_count w)
                 = (Inr (ns, updated), n)"
    and normal: "songs_normal updated"
  shows "load_library e p w =
           (Inr (sset data0 ''songs'' (PDict updated)),
            w\<lparr>uuid_count := n,
              disk := (if ns then
                         (case fs_write (disk w) p (Doc (PDict (sset data0 ''songs'' (PDict updated)))) of
                            Inl ex \<Rightarrow> disk w | Inr f' \<Rightarrow> f')
                       else disk w)\<rparr>)"
proof -
  from normal have lib: "library_normal (sset data0 ''songs'' (PDict updated))"
    by (rule library_normal_set)
  from read have "os_path_exists (disk w) p" by (rule fs_read_exists)
  with read doc loop show ?thesis
    by (auto simp: load_library_def songs_dict_fix Let_def save_library_normal [OF lib]
        split: sum.splits)
qed

lemma load_library_Doc_raises:
  assumes "fs_read (disk w) p = Inr (Doc v)" and "json_reload v = PDict data0"
    and "normalize_songs e (songs_dict data0) False [] (uuid_count w) = (Inl ex, n)"
  shows "load_library e p w = (Inl ex, w\<lparr>uuid_count := n\<rparr>)"
  using assms fs_read_exists [OF assms(1)]
  by (simp add: load_library_def songs_dict_fix)

lemma load_library_Doc_returns:
  assumes "fs_read (disk w) p = Inr (Doc v)" and "json_reload v = PDict data0"
    and "normalize_songs e (songs_dict data0) False [] (uuid_count w) = (Inr r, n)"
  shows "\<not> isl (fst (load_library e p w))"
proof -
  obtain ns updated where r: "r = (ns, updated)" by (cases r)
  have "save_library (sset data ''songs'' (PDict updated)) p f \<noteq> Inl ex" for data f ex
    using save_library_no_raise [of "sset data ''songs'' (PDict updated)" p f] by auto
  then show ?thesis
    using assms r fs_read_exists [OF assms(1)]
    by (auto simp: load_library_def songs_dict_fix Let_def split: sum.splits prod.splits)
qed

lemma load_library_not_dict:
  assumes "fs_read (disk w) p = Inr (Doc v)" and "\<not> is_dict (json_reload v)"
  shows "load_library e p w = (Inl (top_level_error (json_reload v)), w)"
  using assms fs_read_exists [OF assms(1)]
  by (cases "json_reload v") (simp_all add: load_library_def)

section \<open>When a load raises\<close>

text \<open>
  A record can be repaired when it is a dictionary whose cover path, if
  true, is a string; a document can be loaded when it is a dictionary whose
  songs can all be repaired.
\<close>

definition record_loadable :: "pyval \<Rightarrow> bool" where
  "record_loadable v \<longleftrightarrow>
     (case v of
        PDict sd \<Rightarrow> (case sget sd ''coverSrc'' of Some c \<Rightarrow> is_str c \<or> \<not> truthy c | None \<Rightarrow> True)
      | _ \<Rightarrow> False)"

definition doc_loadable :: "pyval \<Rightarrow> bool" where
  "doc_loadable v \<longleftrightarrow>
     (case v of
        PDict d \<Rightarrow> list_all (\<lambda>kv. record_loadable (snd kv)) (songs_dict d)
      | _ \<Rightarrow> False)"

lemma repair_cover_Inr_iff:
  "\<not> isl (repair_cover sd) \<longleftrightarrow>
     (case sget sd ''coverSrc'' of Some c \<Rightarrow> is_str c \<or> \<not> truthy c | None \<Rightarrow> True)"
  by (auto simp: repair_cover_def split: option.splits pyval.splits)

lemma normalize_song_Inr_iff:
  "\<not> isl (fst (normalize_song e key v n)) \<longleftrightarrow> record_loadable v"
proof (cases v)
  case (PDict sd)
  let ?sd1 = "fst (repair_id (fst (pick_id e key sd n)) sd)"
  let ?sd2 = "fst (repair_audio e ?sd1)"
  have "sget ?sd2 ''coverSrc'' = sget sd ''coverSrc''"
    by (simp add: sget_repair_audio sget_repair_id)
  then have "\<not> isl (repair_cover ?sd2) \<longleftrightarrow> record_loadable v"
    by (simp add: repair_cover_Inr_iff record_loadable_def PDict)
  then show ?thesis
    by (auto simp: PDict normalize_song_def split_beta Let_def split: sum.splits)
qed (simp_all add: normalize_song_def record_loadable_def)

lemma normalize_songs_Inr_iff:
  "\<not> isl (fst (normalize_songs e songs ns acc n)) \<longleftrightarrow>
     list_all (\<lambda>kv. record_loadable (snd kv)) songs"
proof (induction songs arbitrary: ns acc n)
  case Nil
  show ?case by simp
next
  case (Cons kv songs)
  obtain key v where kv: "kv = (key, v)" by (cases kv)
  obtain r1 n1 where step: "normalize_song e key v n = (r1, n1)"
    by (cases "normalize_song e key v n")
  have loadable: "record_loadable v \<longleftrightarrow> \<not> isl r1"
    using normalize_song_Inr_iff [of e key v n] step by simp
  show ?case
  proof (cases r1)
    case (Inl ex)
    with step kv loadable show ?thesis by simp
  next
    case (Inr r)
    with step kv loadable Cons.IH show ?thesis by (auto split: prod.splits)
  qed
qed

section \<open>Facts about JSON well-formedness of the catalog\<close>

lemma json_ok_repair_id: "json_ok (PDict sd) \<Longrightarrow> json_ok (PDict (fst (repair_id s sd)))"
  by (auto simp: repair_id_def intro: json_ok_sset_str)

lemma json_ok_repair_audio:
  "json_ok (PDict sd) \<Longrightarrow> json_ok (PDict (fst (repair_audio e sd)))"
  by (auto simp: repair_audio_def intro: json_ok_sset_str split: option.splits)

lemma json_ok_repair_cover:
  "json_ok (PDict sd) \<Longrightarrow> repair_cover sd = Inr (sd', ch) \<Longrightarrow> json_ok (PDict sd')"
  by (auto simp: repair_cover_def intro: json_ok_sset_str
      split: option.splits pyval.splits if_splits)

lemma normalize_song_json_ok:
  assumes "normalize_song e key v n = (Inr (song_id, sd, changed), n')" and "json_ok v"
  shows "json_ok (PDict sd)"
proof -
  from assms(1) obtain sd0 where v: "v = PDict sd0"
    by (cases v) (simp_all add: normalize_song_def)
  let ?sd2 = "fst (repair_audio e (fst (repair_id song_id sd0)))"
  from assms(1) v obtain ch where "repair_cover ?sd2 = Inr (sd, ch)"
    by (auto simp: normalize_song_def split_beta Let_def split: sum.splits)
  moreover from assms(2) v have "json_ok (PDict ?sd2)"
    by (intro json_ok_repair_audio json_ok_repair_id) simp
  ultimately show ?thesis by (rule json_ok_repair_cover [rotated])
qed

lemma normalize_songs_json_ok:
  assumes "normalize_songs e songs ns acc n = (Inr (ns', updated), n')"
    and "list_all (\<lambda>kv. json_ok (snd kv)) songs" and "json_ok (PDict acc)"
  shows "json_ok (PDict updated)"
  using assms
proof (induction songs arbitrary: ns acc n)
  case Nil
  then show ?case by simp
next
  case (Cons kv songs)
  obtain key v where kv: "kv = (key, v)" by (cases kv)
  from Cons.prems(1) kv obtain song_id sd changed n1
    where step: "normalize_song e key v n = (Inr (song_id, sd, changed), n1)"
      and rest: "normalize_songs e songs (ns \<or> changed) (sset acc song_id (PDict sd)) n1
                   = (Inr (ns', updated), n')"
    by (auto split: prod.splits sum.splits)
  from Cons.prems(2) kv have "json_ok v" by simp
  with step have "json_ok (PDict sd)" by (rule normalize_song_json_ok)
  with Cons.prems(3) have "json_ok (PDict (sset acc song_id (PDict sd)))"
    by (rule json_ok_dict_set)
  moreover from Cons.prems(2) have "list_all (\<lambda>kv. json_ok (snd kv)) songs" by simp
  ultimately show ?case using rest by (intro Cons.IH)
qed

lemma json_ok_songs_dict:
  "json_ok (PDict d) \<Longrightarrow> list_all (\<lambda>kv. json_ok (snd kv)) (songs_dict d)"
proof (cases "songs_missing d")
  case True
  then show ?thesis
    by (auto simp: songs_missing_def songs_dict_def split: option.splits pyval.splits)
next
  case False
  assume "json_ok (PDict d)"
  with False have "json_ok (PDict (songs_dict d))"
    by (blast intro: json_ok_PDictD songs_present)
  then show ?thesis by (simp add: json_ok_PDict)
qed

lemma json_ok_empty_library: "json_ok (PDict empty_library)"
  by (simp add: empty_library_def json_ok_PDict str_keys_def dict_ok_def dict_keys_def)

lemma json_ok_songs: "json_ok (PDict d) \<Longrightarrow> json_ok (PDict (songs_dict d))"
proof (cases "songs_missing d")
  case True
  then have "songs_dict d = []"
    by (auto simp: songs_missing_def songs_dict_def split: option.splits pyval.splits)
  then show ?thesis by (simp add: json_ok_PDict)
next
  case False
  assume "json_ok (PDict d)"
  with False show ?thesis by (blast intro: json_ok_PDictD songs_present)
qed

section \<open>What the store does to the disk\<close>

text \<open>A save leaves the disk as it is or is one write to the catalog path;
  so is a load.\<close>

lemma save_library_disk:
  assumes "save_library d p f = Inr (ok, d', f')"
  shows "(\<not> ok \<and> f' = f) \<or> (ok \<and> (\<exists>c. fs_write f p c = Inr f'))"
  using assms
  by (auto simp: save_library_def Let_def split: pyval.splits sum.splits if_splits)

text \<open>The outcomes of a load, one case for each way through the function.\<close>

lemma load_library_cases [case_names empty not_dict raises clean saved]:
  obtains "load_library e p w = (Inr empty_library, w)"
  | v where "fs_read (disk w) p = Inr (Doc v)" and "\<not> is_dict (json_reload v)"
      and "load_library e p w = (Inl (top_level_error (json_reload v)), w)"
  | v data0 ex n where "fs_read (disk w) p = Inr (Doc v)" and "json_reload v = PDict data0"
      and "normalize_songs e (songs_dict data0) False [] (uuid_count w) = (Inl ex, n)"
      and "load_library e p w = (Inl ex, w\<lparr>uuid_count := n\<rparr>)"
  | v data0 updated n where "fs_read (disk w) p = Inr (Doc v)" and "json_reload v = PDict data0"
      and "normalize_songs e (songs_dict data0) False [] (uuid_count w)
             = (Inr (False, updated), n)"
      and "load_library e p w
             = (Inr (sset data0 ''songs'' (PDict updated)), w\<lparr>uuid_count := n\<rparr>)"
  | v data0 updated n where "fs_read (disk w) p = Inr (Doc v)" and "json_reload v = PDict data0"
      and "normalize_songs e (songs_dict data0) False [] (uuid_count w)
             = (Inr (True, updated), n)"
      and "load_library e p w =
             (case save_library (sset data0 ''songs'' (PDict updated)) p (disk w) of
                Inl ex \<Rightarrow> (Inl ex, w\<lparr>uuid_count := n\<rparr>)
              | Inr (ok, data2, f') \<Rightarrow> (Inr data2, w\<lparr>uuid_count := n, disk := f'\<rparr>))"
proof (cases "fs_read (disk w) p")
  case (Inl ex)
  then show thesis by (intro that(1)) (simp add: load_library_unreadable)
next
  case (Inr c)
  show thesis
  proof (cases c)
    case (Bytes b)
    with Inr show thesis by (intro that(1)) (simp add: load_library_no_json)
  next
    case (Doc v)
    with Inr have read: "fs_read (disk w) p = Inr (Doc v)" by simp
    note exists = fs_read_exists [OF read]
    show thesis
    proof (cases "is_dict (json_reload v)")
      case False
      with read show thesis by (intro that(2)) (simp_all add: load_library_not_dict)
    next
      case True
      then obtain data0 where doc: "json_reload v = PDict data0" by (auto simp: is_dict_iff)
      obtain r n where loop:
        "normalize_songs e (songs_dict data0) False [] (uuid_count w) = (r, n)"
        by (cases "normalize_songs e (songs_dict data0) False [] (uuid_count w)")
      show thesis
      proof (cases r)
        case (Inl ex)
        with read doc loop show thesis
          by (intro that(3)) (simp_all add: load_library_Doc_raises)
      next
        case (Inr res)
        then obtain ns updated where r: "r = Inr (ns, updated)" by (cases res) simp
        show thesis
        proof (cases ns)
          case False
          with read doc loop r exists show thesis
            by (intro that(4) [of v data0 updated n])
              (simp_all add: load_library_def songs_dict_fix)
        next
          case True
          with read doc loop r exists show thesis
            by (intro that(5) [of v data0 updated n])
              (simp_all add: load_library_def songs_dict_fix Let_def
                split: sum.splits prod.splits)
        qed
      qed
    qed
  qed
qed

lemma load_library_disk:
  "disk (snd (load_library e p w)) = disk w \<or>
   (\<exists>c. fs_write (disk w) p c = Inr (disk (snd (load_library e p w))))"
proof (cases rule: load_library_cases [of e p w])
  case (saved v data0 updated n)
  show ?thesis
  proof (cases "save_library (sset data0 ''songs'' (PDict updated)) p (disk w)")
    case (Inl ex)
    with saved show ?thesis by simp
  next
    case (Inr r)
    then obtain ok d' f'
      where "save_library (sset data0 ''songs'' (PDict updated)) p (disk w) = Inr (ok, d', f')"
      by (cases r) auto
    with saved save_library_disk [OF this] show ?thesis by auto
  qed
qed simp_all

lemma load_library_fs_ok: "fs_ok (disk w) \<Longrightarrow> fs_ok (disk (snd (load_library e p w)))"
  using load_library_disk [of e p w] by (auto intro: fs_ok_write)

lemma load_library_count: "uuid_count w \<le> uuid_count (snd (load_library e p w))"
proof -
  have "n \<le> n'" if "normalize_songs e songs ns acc n = (r, n')" for songs ns acc n r n'
    using normalize_songs_count [of e songs ns acc n] that by simp
  then show ?thesis
    by (cases rule: load_library_cases [of e p w])
      (auto split: sum.splits prod.splits)
qed

text \<open>\<open>writes_only f p f'\<close>: the disk \<open>f'\<close> is \<open>f\<close>, or \<open>f\<close> after one
  write to the path \<open>p\<close>.\<close>

definition writes_only :: "fs \<Rightarrow> string \<Rightarrow> fs \<Rightarrow> bool" where
  "writes_only f p f' \<longleftrightarrow> f' = f \<or> (\<exists>c. fs_write f p c = Inr f')"

lemma writes_only_refl [simp]: "writes_only f p f"
  by (simp add: writes_only_def)

lemma writes_only_save: "save_library d p f = Inr (ok, d', f') \<Longrightarrow> writes_only f p f'"
  by (auto simp: writes_only_def dest: save_library_disk)

lemma writes_only_load: "writes_only (disk w) p (disk (snd (load_library e p w)))"
  using load_library_disk [of e p w] by (simp add: writes_only_def)

lemma writes_only_node:
  "writes_only f p f' \<Longrightarrow> a \<noteq> realpath f p \<Longrightarrow> node_at f' a = node_at f a"
  by (auto simp: writes_only_def dest!: fs_write_InrD(1))

lemma writes_only_same:
  assumes "writes_only f p f'"
  shows "cwd f' = cwd f" and "resolve f' q = resolve f q" and "realpath f' s = realpath f s"
  using assms by (auto simp: writes_only_def dest!: fs_write_InrD(1))

lemma writes_only_fs_ok: "writes_only f p f' \<Longrightarrow> fs_ok f \<Longrightarrow> fs_ok f'"
  by (auto simp: writes_only_def intro: fs_ok_write)

text \<open>The records that \<^verbatim>\<open>save_library\<close> writes are filed under their own
  \<^verbatim>\<open>id\<close>.\<close>

definition filed_by_id :: "pydict \<Rightarrow> bool" where
  "filed_by_id songs \<longleftrightarrow>
     list_all (\<lambda>kv. case snd kv of
                      PDict sd \<Rightarrow> (case sget sd ''id'' of
                                     Some i \<Rightarrow> hkey i = hkey (fst kv) | None \<Rightarrow> False)
                    | _ \<Rightarrow> False) songs"

lemma filed_by_id_set:
  "filed_by_id acc \<Longrightarrow> sget sd ''id'' = Some i \<Longrightarrow> filed_by_id (dict_set acc i (PDict sd))"
  by (induction acc) (auto simp: filed_by_id_def)

lemma rekey_songs_filed:
  "rekey_songs songs acc = Inr corrected \<Longrightarrow> filed_by_id acc \<Longrightarrow> filed_by_id corrected"
  by (induction songs acc rule: rekey_songs.induct)
    (auto simp: filed_by_id_set split: pyval.splits option.splits if_splits)

text \<open>A file that reloads to a normal catalog is loaded as that catalog.\<close>

lemma load_library_normal_doc:
  assumes read: "fs_read (disk w) p = Inr (Doc v)" and reload: "json_reload v = PDict d"
    and normal: "library_normal d"
  shows "load_library e p w = (Inr d, w)"
proof -
  from normal have songs: "songs_normal (songs_dict d)" and present: "\<not> songs_missing d"
    by (simp_all add: library_normal_def)
  from songs
  have loop: "normalize_songs e (songs_dict d) False [] (uuid_count w)
      = (Inr (False, songs_dict d), uuid_count w)"
    by (rule normalize_songs_normal)
  from load_library_Doc [OF read reload loop songs] present
  show ?thesis by (simp add: sset_songs_same)
qed

text \<open>What the loop returns for a document read from a file makes a normal
  catalog that can be written as JSON.\<close>

lemma normalize_songs_reload:
  assumes doc: "json_reload v = PDict data0"
    and loop: "normalize_songs e (songs_dict data0) False [] m = (Inr (ns, updated), n)"
    and uuid: "uuid_ok e"
  shows "songs_normal updated" and "json_ok (PDict (sset data0 ''songs'' (PDict updated)))"
proof -
  from uuid have "\<forall>m. 10 \<le> length (uuid4 e m)" by (simp add: uuid_ok_def)
  with loop show "songs_normal updated" by (auto intro: normalize_songs_gives_normal)
  have ok0: "json_ok (PDict data0)" using json_ok_reload [of v] doc by simp
  then have "list_all (\<lambda>kv. json_ok (snd kv)) (songs_dict data0)"
    by (rule json_ok_songs_dict)
  moreover have "json_ok (PDict [])" by (simp add: json_ok_PDict)
  ultimately have "json_ok (PDict updated)"
    using loop by (auto intro: normalize_songs_json_ok)
  with ok0 show "json_ok (PDict (sset data0 ''songs'' (PDict updated)))"
    by (rule json_ok_dict_set)
qed

text \<open>Every catalog a load returns has a dictionary under \<^verbatim>\<open>songs\<close>.\<close>

lemma save_library_keeps_songs:
  "save_library d p f = Inr (ok, d', f') \<Longrightarrow> \<not> songs_missing d \<Longrightarrow> \<not> songs_missing d'"
  by (auto simp: save_library_def Let_def songs_of_present split: sum.splits)

lemma load_library_has_songs:
  assumes "load_library e p w = (Inr d, w')"
  shows "\<not> songs_missing d"
proof (cases rule: load_library_cases [of e p w])
  case empty
  with assms show ?thesis by (auto simp: empty_library_def songs_missing_def dict_has_def)
next
  case (saved v data0 updated n)
  with assms show ?thesis
    by (auto split: sum.splits dest!: save_library_keeps_songs)
qed (use assms in auto)

text \<open>Every catalog a load returns is normal and can be written as JSON,
  when the identifiers drawn are long enough.\<close>

lemma load_library_result:
  assumes load: "load_library e p w = (Inr d, w')" and uuid: "uuid_ok e"
  shows "library_normal d \<and> json_ok (PDict d)"
proof (cases rule: load_library_cases [of e p w])
  case empty
  with load show ?thesis by (simp add: json_ok_empty_library)
next
  case (clean v data0 updated n)
  with load normalize_songs_reload [OF clean(2,3) uuid] show ?thesis
    by (auto simp: library_normal_set)
next
  case (saved v data0 updated n)
  note facts = normalize_songs_reload [OF saved(2,3) uuid]
  from facts(1) have "library_normal (sset data0 ''songs'' (PDict updated))"
    by (rule library_normal_set)
  with load saved(4) facts show ?thesis
    by (auto simp: save_library_normal split: sum.splits)
qed (use load in simp_all)

section \<open>The catalog a disk holds\<close>

text \<open>
  The catalog file holds a normal catalog: every view that finds the disk in
  this state loads that catalog and changes nothing by loading it.
\<close>

definition holds_catalog :: "world \<Rightarrow> pydict \<Rightarrow> bool" where
  "holds_catalog w d \<longleftrightarrow>
     library_normal d \<and>
     (case fs_read (disk w) LIBRARY_FILE of
        Inr (Doc v) \<Rightarrow> json_reload v = PDict d
      | _ \<Rightarrow> False)"

lemma holds_catalogI:
  "fs_read (disk w) LIBRARY_FILE = Inr (Doc v) \<Longrightarrow> json_reload v = PDict d \<Longrightarrow>
     library_normal d \<Longrightarrow> holds_catalog w d"
  by (simp add: holds_catalog_def)

lemma holds_catalogE:
  assumes "holds_catalog w d"
  obtains v where "fs_read (disk w) LIBRARY_FILE = Inr (Doc v)" and "json_reload v = PDict d"
    and "library_normal d" and "json_ok (PDict d)"
proof -
  from assms obtain v where "fs_read (disk w) LIBRARY_FILE = Inr (Doc v)"
    and "json_reload v = PDict d" and "library_normal d"
    by (auto simp: holds_catalog_def split: sum.splits content.splits)
  moreover from this have "json_ok (PDict d)" using json_ok_reload [of v] by simp
  ultimately show thesis by (rule that)
qed

lemma holds_catalog_load:
  "holds_catalog w d \<Longrightarrow> load_library e LIBRARY_FILE w = (Inr d, w)"
  by (erule holds_catalogE) (rule load_library_normal_doc)

lemma holds_catalog_unique: "holds_catalog w d \<Longrightarrow> holds_catalog w d' \<Longrightarrow> d' = d"
  by (auto elim!: holds_catalogE)

text \<open>The state only enters through the file: a disk that reads the same
  catalog file holds the same catalog.\<close>

lemma holds_catalog_cong:
  "fs_read (disk w') LIBRARY_FILE = fs_read (disk w) LIBRARY_FILE \<Longrightarrow>
     holds_catalog w' d = holds_catalog w d"
  by (simp add: holds_catalog_def)

text \<open>A successful write of a normal catalog, as \<^verbatim>\<open>save_library\<close> does it,
  establishes the state.\<close>

lemma holds_catalog_written:
  assumes "fs_write f LIBRARY_FILE (Doc (PDict d)) = Inr (disk w')"
    and "read_fault f (realpath f LIBRARY_FILE) = None"
    and "library_normal d" and "json_ok (PDict d)"
  shows "holds_catalog w' d"
  using fs_read_after_write [OF assms(1,2)] json_reload_ok [OF assms(4)] assms(3)
  by (rule holds_catalogI)

section \<open>The example installation\<close>

lemma demo_read_library: "fs_read demo_fs LIBRARY_FILE = Inr (Doc (PDict demo_library))"
  by (simp add: demo_fs_def LIBRARY_FILE_def fs_read_def stat_def start_dir_def node_at_def
      step_into_def read_fault_def)

lemma demo_library_normal: "library_normal demo_library"
  by (simp add: demo_library_def demo_song_def demo_id_def library_normal_def
      songs_missing_def songs_dict_def songs_normal_def dict_ok_def dict_keys_def
      id_ok_def audio_ok_def cover_ok_def dict_has_def)

lemma demo_no_faults [simp]:
  "read_fault demo_fs a = None" "write_fault demo_fs a = None" "remove_fault demo_fs a = None"
  by (simp_all add: demo_fs_def read_fault_def write_fault_def remove_fault_def)

lemma demo_library_json_ok: "json_ok (PDict demo_library)"
  by (simp add: demo_library_def demo_song_def json_ok_PDict str_keys_def dict_ok_def
      dict_keys_def)

lemma holds_catalog_demo: "holds_catalog demo_world demo_library"
  using demo_read_library json_reload_ok [OF demo_library_json_ok] demo_library_normal
  by (intro holds_catalogI) (simp_all add: demo_world_def)

text \<open>The same installation with a catalog of an earlier format: a record
  stored under a usable key with a relative cover path and no \<^verbatim>\<open>audioSrc\<close>,
  and a record stored under a key that is too short to be an identifier.\<close>

definition legacy_library :: pydict where
  "legacy_library =
     [(PStr ''songs'',
       PDict [(PStr ''track-0001-old'',
               PDict [(PStr ''filename'', PStr ''blue.mp3''),
                      (PStr ''coverSrc'', PStr ''art/blue.png'')]),
              (PStr ''7'', PDict [(PStr ''title'', PStr ''Seven'')])])]"

definition legacy_world :: world where
  "legacy_world =
     \<lparr>disk = demo_fs\<lparr>nodes := AList.update [''srv'', ''library.json'']
                                  (File (Doc (PDict legacy_library))) (nodes demo_fs)\<rparr>,
      uuid_count = 0\<rparr>"

definition repaired_library :: pydict where
  "repaired_library =
     [(PStr ''songs'',
       PDict [(PStr ''track-0001-old'',
               PDict [(PStr ''filename'', PStr ''blue.mp3''),
                      (PStr ''coverSrc'', PStr ''/covers/blue.png''),
                      (PStr ''id'', PStr ''track-0001-old''),
                      (PStr ''audioSrc'', PStr ''/uploads/blue.mp3'')]),
              (PStr ''7d1f0c52-9a3e-4b6f-8c21-5e0a9b7d3f00'',
               PDict [(PStr ''title'', PStr ''Seven''),
                      (PStr ''id'', PStr ''7d1f0c52-9a3e-4b6f-8c21-5e0a9b7d3f00'')])])]"

definition repaired_world :: world where
  "repaired_world =
     \<lparr>disk = demo_fs\<lparr>nodes := AList.update [''srv'', ''library.json'']
                                  (File (Doc (PDict repaired_library))) (nodes demo_fs)\<rparr>,
      uuid_count = 1\<rparr>"

text \<open>And with a catalog one of whose songs is \<^verbatim>\<open>null\<close>.\<close>

definition broken_world :: world where
  "broken_world =
     \<lparr>disk = demo_fs\<lparr>nodes := AList.update [''srv'', ''library.json'']
         (File (Doc (PDict [(PStr ''songs'', PDict [(PStr ''a'', PNone)])]))) (nodes demo_fs)\<rparr>,
      uuid_count = 0\<rparr>"

lemma load_legacy:
  "load_library demo_env LIBRARY_FILE legacy_world = (Inr repaired_library, repaired_world)"
  by code_simp

lemma save_demo_library:
  "save_library demo_library LIBRARY_FILE demo_fs = Inr (True, demo_library, demo_fs)"
  by code_simp

section \<open>Properties of the catalog store\<close>

text \<open>C16: Loading a catalog file that holds a normal catalog returns that
  catalog as it is, draws no identifier and writes nothing: an already
  normalized catalog is not rewritten.\<close>

theorem load_library_idempotent:
  assumes "fs_read (disk w) p = Inr (Doc (PDict d))"
    and "json_ok (PDict d)" and "library_normal d"
  shows "load_library e p w = (Inr d, w)"
  using assms(1) json_reload_ok [OF assms(2)] assms(3) by (rule load_library_normal_doc)

theorem load_library_idempotent_witness:
  "library_normal demo_library \<and>
   load_library demo_env LIBRARY_FILE demo_world = (Inr demo_library, demo_world)"
  using load_library_idempotent [of demo_world LIBRARY_FILE demo_library demo_env]
  by (simp add: demo_world_def demo_read_library demo_library_normal demo_library_json_ok)

text \<open>C2: Whatever catalog a load returns is normal and can be written as
  JSON and read back unchanged, provided the identifiers drawn have the 36
  characters of a UUID.\<close>

theorem load_library_gives_normal:
  assumes "load_library e p w = (Inr d, w')" and "uuid_ok e"
  shows "library_normal d \<and> json_ok (PDict d)"
  using load_library_result [OF assms] by simp

theorem load_library_gives_normal_witness:
  "uuid_ok demo_env \<and>
   load_library demo_env LIBRARY_FILE legacy_world = (Inr repaired_library, repaired_world) \<and>
   library_normal repaired_library \<and> json_ok (PDict repaired_library)"
  using load_library_gives_normal [OF load_legacy uuid_ok_demo]
  by (simp add: load_legacy uuid_ok_demo)

text \<open>C3: A normal catalog that was saved with success is what the next load
  returns, and that load changes nothing.\<close>

theorem save_load_roundtrip:
  assumes normal: "library_normal d" and json: "json_ok (PDict d)"
    and save: "save_library d p (disk w) = Inr (True, d', f')"
    and readable: "read_fault (disk w) (realpath (disk w) p) = None"
  shows "d' = d \<and> load_library e p (w\<lparr>disk := f'\<rparr>) = (Inr d, w\<lparr>disk := f'\<rparr>)"
proof -
  from normal save
  have same: "d' = d" and written: "fs_write (disk w) p (Doc (PDict d)) = Inr f'"
    by (auto simp: save_library_normal split: sum.splits)
  from written readable have "fs_read f' p = Inr (Doc (PDict d))"
    by (rule fs_read_after_write)
  then have "load_library e p (w\<lparr>disk := f'\<rparr>) = (Inr d, w\<lparr>disk := f'\<rparr>)"
    by (intro load_library_normal_doc [OF _ json_reload_ok [OF json] normal]) simp
  with same show ?thesis by simp
qed

theorem save_load_roundtrip_witness:
  "library_normal demo_library \<and> json_ok (PDict demo_library) \<and>
   save_library demo_library LIBRARY_FILE (disk demo_world) = Inr (True, demo_library, demo_fs) \<and>
   load_library demo_env LIBRARY_FILE (demo_world\<lparr>disk := demo_fs\<rparr>)
     = (Inr demo_library, demo_world\<lparr>disk := demo_fs\<rparr>)"
  using save_load_roundtrip [of demo_library LIBRARY_FILE demo_world demo_library demo_fs demo_env]
  by (simp add: demo_library_normal demo_library_json_ok save_demo_library demo_world_def)

text \<open>C6: A load raises exactly when the file holds a JSON document that is
  no dictionary, or one of whose songs is no dictionary or has a cover path
  that is true and no string; every other file, readable or not, gives a
  catalog.\<close>

theorem load_library_raises_iff:
  "isl (fst (load_library e p w)) \<longleftrightarrow>
     (\<exists>v. fs_read (disk w) p = Inr (Doc v) \<and> \<not> doc_loadable (json_reload v))"
proof (cases "\<exists>v. fs_read (disk w) p = Inr (Doc v)")
  case False
  then have "load_library e p w = (Inr empty_library, w)"
    by (cases rule: load_library_cases [of e p w]) simp_all
  with False show ?thesis by simp
next
  case True
  then obtain v where read: "fs_read (disk w) p = Inr (Doc v)" by blast
  show ?thesis
  proof (cases "is_dict (json_reload v)")
    case False
    with read show ?thesis
      by (auto simp: load_library_not_dict doc_loadable_def is_dict_iff split: pyval.splits)
  next
    case True
    then obtain data0 where doc: "json_reload v = PDict data0" by (auto simp: is_dict_iff)
    obtain r n where loop:
      "normalize_songs e (songs_dict data0) False [] (uuid_count w) = (r, n)"
      by (cases "normalize_songs e (songs_dict data0) False [] (uuid_count w)")
    have "isl (fst (load_library e p w)) \<longleftrightarrow> isl r"
      using load_library_Doc_raises [OF read doc, of e] load_library_Doc_returns [OF read doc, of e]
        loop by (cases r) auto
    also have "\<dots> \<longleftrightarrow> \<not> doc_loadable (json_reload v)"
      using normalize_songs_Inr_iff [of e "songs_dict data0" False "[]" "uuid_count w"] loop doc
      by (auto simp: doc_loadable_def)
    finally show ?thesis using read by simp
  qed
qed

text \<open>A catalog file with a song that is \<^verbatim>\<open>null\<close>: the load raises
  \<^verbatim>\<open>AttributeError\<close>, which no caller catches.\<close>

lemma load_library_raises_example:
  "load_library demo_env LIBRARY_FILE broken_world =
     (Inl (no_attribute PNone ''get''), broken_world)"
  by code_simp

text \<open>C18: A successful save is one write of a catalog to the catalog path in
  which every song is a dictionary filed under its own \<^verbatim>\<open>id\<close>; a save that
  returns \<^verbatim>\<open>False\<close> leaves the disk as it was.\<close>

theorem save_library_files_by_id:
  assumes "save_library d p f = Inr (ok, d', f')"
  shows "if ok then \<exists>lib. fs_write f p (Doc (PDict lib)) = Inr f' \<and> filed_by_id (songs_dict lib)
         else f' = f"
proof -
  have "filed_by_id c" if "rekey_songs songs [] = Inr c" for songs c
    using that by (rule rekey_songs_filed) (simp add: filed_by_id_def)
  with assms show ?thesis
    by (auto simp: save_library_def Let_def split: pyval.splits sum.splits if_splits)
qed

theorem save_library_files_by_id_witness:
  "save_library demo_library LIBRARY_FILE demo_fs = Inr (True, demo_library, demo_fs) \<and>
   (\<exists>lib. fs_write demo_fs LIBRARY_FILE (Doc (PDict lib)) = Inr demo_fs \<and>
      filed_by_id (songs_dict lib))"
  using save_library_files_by_id [OF save_demo_library] by (simp add: save_demo_library)

text \<open>C23: A save raises exactly when the catalog has a \<^verbatim>\<open>songs\<close> entry that
  is no dictionary: the entry is kept by line 100 and has no \<^verbatim>\<open>items\<close>. No
  failure of the write and no unhashable \<^verbatim>\<open>id\<close> makes it raise.\<close>

theorem save_library_raises_iff:
  "isl (save_library d p f) \<longleftrightarrow> (\<exists>v. sget d ''songs'' = Some v \<and> \<not> is_dict v)"
proof (cases "sget d ''songs''")
  case None
  then show ?thesis
    by (simp add: save_library_def songs_missing_def songs_of_def dict_has_def Let_def
        split: sum.splits)
next
  case (Some v)
  then show ?thesis
    by (cases v)
      (simp_all add: save_library_def songs_missing_def songs_of_def dict_has_def Let_def
        no_attribute_def split: sum.splits)
qed

lemma save_library_raises_example:
  "save_library [(PStr ''songs'', PList [])] LIBRARY_FILE demo_fs
     = Inl (no_attribute (PList []) ''items'')"
  by (simp add: save_library_def songs_missing_def songs_of_def dict_has_def)

end
