(* ===== verification/Upload_Paths.thy ===== *)
theory Upload_Paths
  imports World
begin

text \<open>
  Where the files of the upload folder and of the covers folder are: the
  path \<^verbatim>\<open>Path(UPLOAD_FOLDER) / name\<close> of a file name without a slash is
  \<^verbatim>\<open>uploads/name\<close>, which names the entry \<^verbatim>\<open>name\<close> of the directory
  \<^verbatim>\<open>uploads\<close> of the working directory; different names are different
  entries, and none of them is the catalog file.
\<close>

section \<open>Paths of the upload folder\<close>

lemma parts_Path_UPLOAD_FOLDER [simp]: "parts (Path UPLOAD_FOLDER) = [''uploads'']"
  by (simp add: Path_def UPLOAD_FOLDER_def)

lemma parts_Path_COVERS_FOLDER [simp]: "parts (Path COVERS_FOLDER) = [''uploads'', ''covers'']"
  by (simp add: Path_def COVERS_FOLDER_eq)

lemma folders_relative [simp]:
  "\<not> startswith UPLOAD_FOLDER ''/''" "\<not> startswith COVERS_FOLDER ''/''"
  by (simp_all add: UPLOAD_FOLDER_def COVERS_FOLDER_eq)

lemma name_ok_startswith: "name_ok name \<Longrightarrow> \<not> startswith name ''/''"
  by (cases name) (auto simp: name_ok_def)

lemma parts_Path_name: "name_ok name \<Longrightarrow> parts (Path name) = [name]"
  by (simp add: parts_Path_simple name_ok_def)

lemma upload_path_str:
  "name_ok name \<Longrightarrow> path_str (joinpath (Path UPLOAD_FOLDER) name) = ''uploads/'' @ name"
  by (simp add: path_str_def parts_joinpath_relative anchor_joinpath_relative
      name_ok_startswith parts_Path_name join_with_Cons)

lemma covers_path_str:
  "name_ok name \<Longrightarrow> path_str (joinpath (Path COVERS_FOLDER) name) = ''uploads/covers/'' @ name"
  by (simp add: path_str_def parts_joinpath_relative anchor_joinpath_relative
      name_ok_startswith parts_Path_name join_with_Cons)

lemma split_on_upload:
  "name_ok name \<Longrightarrow> split_on (CHR ''/'') (''uploads/'' @ name) = [''uploads'', name]"
proof -
  assume "name_ok name"
  then have "split_on (CHR ''/'') name = [name]" by (simp add: split_on_no_sep name_ok_def)
  then show ?thesis
    using split_on_append_sep [of "CHR ''/''" "''uploads''" name] by simp
qed

lemma name_ok_uploads [simp]: "name_ok ''uploads''" "name_ok ''covers''"
  by (simp_all add: name_ok_def)

lemma realpath_upload:
  assumes "name_ok name"
  shows "realpath f (''uploads/'' @ name) = cwd f @ [''uploads'', name]"
  unfolding realpath_def split_on_upload [OF assms]
  using assms by (simp add: start_dir_def normpath_names)

lemma split_on_covers:
  assumes "name_ok name"
  shows "split_on (CHR ''/'') (''uploads/covers/'' @ name) = [''uploads'', ''covers'', name]"
proof -
  from assms have "split_on (CHR ''/'') name = [name]" by (simp add: split_on_no_sep name_ok_def)
  then have "split_on (CHR ''/'') (''covers/'' @ name) = [''covers'', name]"
    using split_on_append_sep [of "CHR ''/''" "''covers''" name] by simp
  then show ?thesis
    using split_on_append_sep [of "CHR ''/''" "''uploads''" "''covers/'' @ name"] by simp
qed

lemma realpath_covers:
  assumes "name_ok name"
  shows "realpath f (''uploads/covers/'' @ name) = cwd f @ [''uploads'', ''covers'', name]"
  unfolding realpath_def split_on_covers [OF assms]
  using assms by (simp add: start_dir_def normpath_names)

text \<open>The path of a file of the upload folder, and of the covers folder.\<close>

lemma realpath_upload_path:
  "name_ok name \<Longrightarrow>
   realpath f (path_str (joinpath (Path UPLOAD_FOLDER) name)) = cwd f @ [''uploads'', name]"
  by (simp only: upload_path_str realpath_upload)

lemma realpath_covers_path:
  "name_ok name \<Longrightarrow>
   realpath f (path_str (joinpath (Path COVERS_FOLDER) name)) =
     cwd f @ [''uploads'', ''covers'', name]"
  by (simp only: covers_path_str realpath_covers)

text \<open>The catalog file is an entry of the working directory, and so is no
  file of the two folders.\<close>

lemma realpath_LIBRARY_FILE: "realpath f LIBRARY_FILE = cwd f @ [''library.json'']"
  by (simp add: realpath_def LIBRARY_FILE_def start_dir_def step_into_def)

lemma catalog_not_upload:
  "name_ok name \<Longrightarrow>
   realpath f LIBRARY_FILE \<noteq> realpath f (path_str (joinpath (Path UPLOAD_FOLDER) name))"
  by (simp add: realpath_upload_path realpath_LIBRARY_FILE)

lemma catalog_not_cover:
  "name_ok name \<Longrightarrow>
   realpath f LIBRARY_FILE \<noteq> realpath f (path_str (joinpath (Path COVERS_FOLDER) name))"
  by (simp add: realpath_covers_path realpath_LIBRARY_FILE)

lemma upload_not_cover:
  "name_ok name \<Longrightarrow> name_ok name' \<Longrightarrow>
   realpath f (path_str (joinpath (Path UPLOAD_FOLDER) name))
     \<noteq> realpath f (path_str (joinpath (Path COVERS_FOLDER) name'))"
  by (simp add: realpath_covers_path realpath_upload_path)

text \<open>The path \<^verbatim>\<open>covers/<name>\<close> below the upload folder is the path of
  \<^verbatim>\<open><name>\<close> in the covers folder.\<close>

lemma covers_below_uploads:
  assumes "name_ok name"
  shows "joinpath (Path UPLOAD_FOLDER) (''covers/'' @ name) = joinpath (Path COVERS_FOLDER) name"
proof -
  from assms have "split_on (CHR ''/'') name = [name]" by (simp add: split_on_no_sep name_ok_def)
  then have "split_on (CHR ''/'') (''covers/'' @ name) = [''covers'', name]"
    using split_on_append_sep [of "CHR ''/''" "''covers''" name] by simp
  with assms have "parts (Path (''covers/'' @ name)) = [''covers'', name]"
    unfolding Path_def by (simp add: name_ok_def)
  with assms show ?thesis
    by (simp add: joinpath_def Let_def parts_Path_name name_ok_startswith
        UPLOAD_FOLDER_def COVERS_FOLDER_eq Path_def)
qed

text \<open>A file that exists is an entry of the disk.\<close>

lemma path_exists_node:
  "path_exists f p \<Longrightarrow> realpath f (path_str p) \<in> fst ` set (nodes f)"
  by (auto simp: path_exists_def os_path_exists_def node_at_def
      dest!: stat_SomeD map_of_SomeD intro: rev_image_eqI)

end
