(* ===== verification/Deletion_Handler.thy ===== *)
theory Deletion_Handler
  imports Catalog_Store Upload_Paths
begin

text \<open>
  The view \<^verbatim>\<open>delete_song\<close> of \<^verbatim>\<open>src/app.py\<close> (lines 293--370): it loads
  the catalog, removes the audio file and the cover file of the song, each
  behind a test on the resolved path, and removes the song from the catalog
  when both removals are counted as done. The variables
  \<^verbatim>\<open>audio_file_deleted\<close> and \<^verbatim>\<open>cover_file_deleted\<close> of the source are
  the flags the two removals return.
\<close>

section \<open>Removing a file behind the path test\<close>

text \<open>
  Lines 311--323, and lines 333--345 with the covers folder: a path that is
  no file counts as removed; a file whose resolved path does not start with
  the resolved folder is left alone and does not count; an \<^verbatim>\<open>OSError\<close> of
  \<^verbatim>\<open>os.remove\<close> is caught and does not count.
\<close>

definition remove_guarded :: "fs \<Rightarrow> path \<Rightarrow> string \<Rightarrow> (bool \<times> fs) result" where
  "remove_guarded f p folder =
     (if path_exists f p \<and> path_is_file f p then
        if startswith (resolve f p) (resolve f (Path folder)) then
          (case os_remove f (path_str p) of
             Inr f' \<Rightarrow> Inr (True, f')
           | Inl ex \<Rightarrow> if is_OSError ex then Inr (False, f) else Inl ex)
        else Inr (False, f)
      else Inr (True, f))"

text \<open>\<^verbatim>\<open>Path(...) / v\<close> for a value that is no string.\<close>

definition bad_operand :: "pyval \<Rightarrow> py_exn" where
  "bad_operand v =
     TypeError (''unsupported operand type(s) for /: '' @ quoted ''PosixPath'' @ '' and ''
                @ quoted (type_name v))"

text \<open>Lines 309--326: the audio file.\<close>

definition delete_audio :: "pydict \<Rightarrow> fs \<Rightarrow> (bool \<times> fs) result" where
  "delete_audio song_info f =
     (case sget song_info ''filename'' of
        None \<Rightarrow> Inr (True, f)
      | Some fv \<Rightarrow>
          if truthy fv then
            (case fv of
               PStr filename \<Rightarrow>
                 remove_guarded f (joinpath (Path UPLOAD_FOLDER) filename) UPLOAD_FOLDER
             | _ \<Rightarrow> Inl (bad_operand fv))
          else Inr (True, f))"

text \<open>Lines 329--351: the cover file.\<close>

definition delete_cover :: "pydict \<Rightarrow> fs \<Rightarrow> (bool \<times> fs) result" where
  "delete_cover song_info f =
     (case sget song_info ''coverSrc'' of
        None \<Rightarrow> Inr (True, f)
      | Some cv \<Rightarrow>
          if truthy cv then
            (case cv of
               PStr cover_src \<Rightarrow>
                 let cover_path_rel = lstrip ''/'' cover_src in
                 if startswith cover_path_rel (COVERS_FOLDER_NAME @ ''/'')
                 then remove_guarded f (joinpath (Path UPLOAD_FOLDER) cover_path_rel)
                        COVERS_FOLDER
                 else Inr (True, f)
             | _ \<Rightarrow> Inl (no_attribute cv ''lstrip''))
          else Inr (True, f))"

section \<open>The view\<close>

text \<open>Lines 362--368: the message when a removal did not count.\<close>

definition failure_message :: "bool \<Rightarrow> bool \<Rightarrow> string" where
  "failure_message audio_file_deleted cover_file_deleted =
     (if \<not> audio_file_deleted \<and> \<not> cover_file_deleted
        then ''Failed to delete both audio and cover files.''
      else if \<not> audio_file_deleted then ''Failed to delete audio file.''
      else if \<not> cover_file_deleted then ''Failed to delete cover file.''
      else ''Failed to delete associated files. Library not modified.'')"

definition stale_message :: string where
  "stale_message =
     ''Files deleted, but failed to update library metadata. Please check manually.''"

text \<open>The body of the answer 200 (line 357).\<close>

definition deleted_body :: "env \<Rightarrow> pydict \<Rightarrow> string \<Rightarrow> pyval" where
  "deleted_body e song_info song_id =
     PDict [(PStr ''success'', PBool True),
            (PStr ''message'',
             PStr (''Song '' @ quoted (py_str e (case sget song_info ''title'' of
                                                  Some t \<Rightarrow> t | None \<Rightarrow> PStr song_id))
                   @ '' deleted.''))]"

text \<open>
  Lines 354--370, after the two removals: the entry is deleted from the
  dictionary and the catalog saved, or the failure is reported.
\<close>

definition commit_delete ::
  "env \<Rightarrow> pydict \<Rightarrow> pydict \<Rightarrow> string \<Rightarrow> bool \<Rightarrow> bool \<Rightarrow> fs \<Rightarrow> response \<times> fs" where
  "commit_delete e library_data song_info song_id audio_file_deleted cover_file_deleted f =
     (if audio_file_deleted \<and> cover_file_deleted then
        let library_data1 =
              sset library_data ''songs''
                (PDict (dict_del (songs_dict library_data) (PStr song_id)))
        in (case save_library library_data1 LIBRARY_FILE f of
              Inl ex \<Rightarrow> (Unhandled ex, f)
            | Inr (ok, d, f') \<Rightarrow>
                if ok then (Json 200 (deleted_body e song_info song_id), f')
                else (Json 500 (error_body stale_message), f'))
      else (Json 500 (error_body (failure_message audio_file_deleted cover_file_deleted)), f))"

text \<open>
  The whole view. The catalog that \<^verbatim>\<open>load_library\<close> returns has a
  dictionary under \<^verbatim>\<open>songs\<close> (\<open>load_library_has_songs\<close>), which is
  what \<^verbatim>\<open>library_data.get("songs", {})\<close> and \<^verbatim>\<open>library_data["songs"]\<close>
  read. An exception that no \<^verbatim>\<open>try\<close> of the view catches leaves it.
\<close>

definition delete_song :: "env \<Rightarrow> string \<Rightarrow> world \<Rightarrow> response \<times> world" where
  "delete_song e song_id w =
     (case load_library e LIBRARY_FILE w of
        (Inl ex, w1) \<Rightarrow> (Unhandled ex, w1)
      | (Inr library_data, w1) \<Rightarrow>
          (case dict_get (songs_dict library_data) (PStr song_id) of
             None \<Rightarrow> (Json 404 (error_body ''Song not found''), w1)
           | Some (PDict song_info) \<Rightarrow>
               (case delete_audio song_info (disk w1) of
                  Inl ex \<Rightarrow> (Unhandled ex, w1)
                | Inr (audio_file_deleted, f1) \<Rightarrow>
                    (case delete_cover song_info f1 of
                       Inl ex \<Rightarrow> (Unhandled ex, w1\<lparr>disk := f1\<rparr>)
                     | Inr (cover_file_deleted, f2) \<Rightarrow>
                         let (r, f3) = commit_delete e library_data song_info song_id
                                         audio_file_deleted cover_file_deleted f2
                         in (r, w1\<lparr>disk := f3\<rparr>)))
           | Some v \<Rightarrow> (Unhandled (no_attribute v ''get''), w1)))"

lemmas [handler_defs] =
  remove_guarded_def bad_operand_def delete_audio_def delete_cover_def failure_message_def
  stale_message_def deleted_body_def commit_delete_def delete_song_def

section \<open>The files of a song and what a removal may change\<close>

text \<open>The paths of lines 310 and 332, when the record gives them.\<close>

definition audio_path :: "pydict \<Rightarrow> path option" where
  "audio_path song_info =
     (case sget song_info ''filename'' of
        Some (PStr filename) \<Rightarrow>
          if filename = [] then None else Some (joinpath (Path UPLOAD_FOLDER) filename)
      | _ \<Rightarrow> None)"

definition cover_path :: "pydict \<Rightarrow> path option" where
  "cover_path song_info =
     (case sget song_info ''coverSrc'' of
        Some (PStr cover_src) \<Rightarrow>
          if startswith (lstrip ''/'' cover_src) (COVERS_FOLDER_NAME @ ''/'')
          then Some (joinpath (Path UPLOAD_FOLDER) (lstrip ''/'' cover_src)) else None
      | _ \<Rightarrow> None)"

definition gone :: "fs \<Rightarrow> path option \<Rightarrow> bool" where
  "gone f po \<longleftrightarrow> (case po of Some p \<Rightarrow> \<not> path_is_file f p | None \<Rightarrow> True)"

text \<open>A record whose \<^verbatim>\<open>filename\<close>, if true, is a string: the others make
  line 310 raise.\<close>

definition file_named :: "pydict \<Rightarrow> bool" where
  "file_named song_info \<longleftrightarrow>
     (case sget song_info ''filename'' of Some fv \<Rightarrow> is_str fv \<or> \<not> truthy fv | None \<Rightarrow> True)"

text \<open>
  \<open>only_removes f f'\<close>: the disk \<open>f'\<close> is \<open>f\<close> without some files whose
  absolute path, as a string, starts with that of the upload folder.
\<close>

definition only_removes :: "fs \<Rightarrow> fs \<Rightarrow> bool" where
  "only_removes f f' \<longleftrightarrow>
     f' = f\<lparr>nodes := nodes f'\<rparr> \<and>
     (\<forall>a. node_at f' a = node_at f a \<or>
          (node_at f' a = None \<and> (\<exists>c. node_at f a = Some (File c)) \<and>
           startswith (apath_str a) (resolve f (Path UPLOAD_FOLDER))))"

section \<open>What a deletion promises\<close>

text \<open>
  The outcomes of a call, and the contract between the catalog and the disk
  before and after it: a song that is not in the catalog changes nothing; a
  committed deletion has removed the files of the song and written the
  catalog without it; an inconsistent one has removed the files and could not
  write the catalog; a partial one has kept the catalog and may have removed
  a file.
\<close>

datatype outcome = NotFound | CommittedToCatalog | Inconsistent | FilesPartiallyRemoved

inductive delete_spec :: "string \<Rightarrow> pydict \<times> fs \<Rightarrow> outcome \<Rightarrow> pydict \<times> fs \<Rightarrow> bool"
  for song_id where
  not_found:
    "dict_get (songs_dict d) (PStr song_id) = None \<Longrightarrow>
       delete_spec song_id (d, f) NotFound (d, f)"
| committed:
    "dict_get (songs_dict d) (PStr song_id) = Some (PDict song_info) \<Longrightarrow>
     only_removes f g \<Longrightarrow> gone g (audio_path song_info) \<Longrightarrow> gone g (cover_path song_info) \<Longrightarrow>
     d' = sset d ''songs'' (PDict (dict_del (songs_dict d) (PStr song_id))) \<Longrightarrow>
     fs_write g LIBRARY_FILE (Doc (PDict d')) = Inr f' \<Longrightarrow>
       delete_spec song_id (d, f) CommittedToCatalog (d', f')"
| inconsistent:
    "dict_get (songs_dict d) (PStr song_id) = Some (PDict song_info) \<Longrightarrow>
     only_removes f f' \<Longrightarrow> gone f' (audio_path song_info) \<Longrightarrow> gone f' (cover_path song_info) \<Longrightarrow>
     d' = sset d ''songs'' (PDict (dict_del (songs_dict d) (PStr song_id))) \<Longrightarrow>
     isl (fs_write f' LIBRARY_FILE (Doc (PDict d'))) \<Longrightarrow>
       delete_spec song_id (d, f) Inconsistent (d, f')"
| partial:
    "dict_get (songs_dict d) (PStr song_id) = Some (PDict song_info) \<Longrightarrow>
     only_removes f f' \<Longrightarrow>
       delete_spec song_id (d, f) FilesPartiallyRemoved (d, f')"

inductive_cases delete_spec_NotFoundE: "delete_spec song_id s NotFound s'"
inductive_cases delete_spec_CommittedE: "delete_spec song_id s CommittedToCatalog s'"
inductive_cases delete_spec_InconsistentE: "delete_spec song_id s Inconsistent s'"
inductive_cases delete_spec_PartialE: "delete_spec song_id s FilesPartiallyRemoved s'"

text \<open>The outcome a response reports; an exception that left the view
  reports none.\<close>

definition response_outcome :: "response \<Rightarrow> outcome option" where
  "response_outcome r =
     (case r of
        Json code body \<Rightarrow>
          Some (if code = 404 then NotFound
                else if code = 200 then CommittedToCatalog
                else if body = error_body stale_message then Inconsistent
                else FilesPartiallyRemoved)
      | _ \<Rightarrow> None)"

section \<open>Facts about the folders\<close>

lemma apath_str_snoc:
  "apath_str (a @ [c]) = concat (map (\<lambda>c. CHR ''/'' # c) a) @ CHR ''/'' # c"
  by (simp add: apath_str_def)

lemma resolve_UPLOAD_FOLDER: "resolve f (Path UPLOAD_FOLDER) = apath_str (cwd f @ [''uploads''])"
  by (simp add: resolve_def realpath_def UPLOAD_FOLDER_def Path_def path_str_def
      start_dir_def step_into_def)

lemma resolve_COVERS_FOLDER:
  "resolve f (Path COVERS_FOLDER) = apath_str (cwd f @ [''uploads'', ''covers''])"
  by (simp add: resolve_def realpath_def COVERS_FOLDER_eq Path_def path_str_def
      start_dir_def step_into_def)

text \<open>What starts with the covers folder starts with the upload folder, and
  the catalog file does not.\<close>

lemma covers_inside_uploads:
  "startswith s (resolve f (Path COVERS_FOLDER)) \<Longrightarrow> startswith s (resolve f (Path UPLOAD_FOLDER))"
  by (auto simp: resolve_UPLOAD_FOLDER resolve_COVERS_FOLDER apath_str_def startswith_def
      prefix_def)

lemma catalog_outside_uploads:
  "\<not> startswith (apath_str (realpath f LIBRARY_FILE)) (resolve f (Path UPLOAD_FOLDER))"
  by (simp add: resolve_UPLOAD_FOLDER realpath_LIBRARY_FILE apath_str_snoc startswith_def)

section \<open>Facts about disks that differ by removed files\<close>

lemma only_removes_refl [simp]: "only_removes f f"
  by (simp add: only_removes_def)

lemma only_removes_same:
  assumes "only_removes f f'"
  shows "cwd f' = cwd f" and "resolve f' p = resolve f p" and "realpath f' s = realpath f s"
    and "read_fault f' = read_fault f" and "start_dir f' s = start_dir f s"
proof -
  from assms have "f' = f\<lparr>nodes := nodes f'\<rparr>" by (simp add: only_removes_def)
  then obtain ns where f': "f' = f\<lparr>nodes := ns\<rparr>" ..
  show "cwd f' = cwd f" "resolve f' p = resolve f p" "realpath f' s = realpath f s"
    "read_fault f' = read_fault f" "start_dir f' s = start_dir f s"
    by (simp_all add: f')
qed

lemma only_removes_trans:
  assumes "only_removes f f'" and "only_removes f' f''"
  shows "only_removes f f''"
proof -
  from assms have "f'' = f\<lparr>nodes := nodes f''\<rparr>"
    by (metis (no_types) only_removes_def fs.update_convs(1) fs.surjective fs.select_convs)
  moreover have "node_at f'' a = node_at f a \<or>
      (node_at f'' a = None \<and> (\<exists>c. node_at f a = Some (File c)) \<and>
       startswith (apath_str a) (resolve f (Path UPLOAD_FOLDER)))" for a
    using assms only_removes_same(2) [OF assms(1), of "Path UPLOAD_FOLDER"]
    by (simp add: only_removes_def) metis
  ultimately show ?thesis by (simp add: only_removes_def)
qed

lemma only_removes_dir:
  "only_removes f f' \<Longrightarrow> node_at f' a = Some Dir \<longleftrightarrow> node_at f a = Some Dir"
  by (auto simp: only_removes_def) (metis node.distinct(1) option.distinct(1) option.inject)+

text \<open>Looking a path up after the removals: it is found as before unless it
  was removed.\<close>

lemma only_removes_stat:
  assumes "only_removes f f'"
  shows "stat f' s = (if node_at f' (realpath f s) = None then None else stat f s)"
proof -
  from assms have node: "node_at f' a \<noteq> None \<Longrightarrow> node_at f' a = node_at f a" for a
    by (auto simp: only_removes_def)
  show ?thesis
    using node [of "realpath f s"]
    by (auto simp: stat_eq only_removes_same [OF assms] only_removes_dir [OF assms])
qed

lemma only_removes_is_file:
  "only_removes f f' \<Longrightarrow> path_is_file f' p \<Longrightarrow> path_is_file f p"
  by (auto simp: path_is_file_def only_removes_stat split: option.splits if_splits)

lemma only_removes_gone: "only_removes f f' \<Longrightarrow> gone f po \<Longrightarrow> gone f' po"
  by (auto simp: gone_def dest: only_removes_is_file split: option.splits)

text \<open>The catalog file is read as before.\<close>

lemma only_removes_catalog:
  assumes "only_removes f f'"
  shows "fs_read f' LIBRARY_FILE = fs_read f LIBRARY_FILE"
proof -
  from assms have "node_at f' (realpath f LIBRARY_FILE) = node_at f (realpath f LIBRARY_FILE)"
    using catalog_outside_uploads [of f] by (auto simp: only_removes_def)
  then have "stat f' LIBRARY_FILE = stat f LIBRARY_FILE"
    by (cases "stat f LIBRARY_FILE") (auto simp: only_removes_stat [OF assms] dest: stat_SomeD)
  then show ?thesis
    by (simp add: fs_read_def only_removes_same(4) [OF assms]
        split: option.splits node.splits prod.splits)
qed

section \<open>Facts about the guarded removal\<close>

lemma os_remove_only_removes:
  assumes "os_remove f s = Inr f'"
    and "startswith (apath_str (realpath f s)) (resolve f (Path UPLOAD_FOLDER))"
  shows "only_removes f f'"
proof -
  from assms(1) obtain c where "node_at f (realpath f s) = Some (File c)"
    using os_remove_InrD(1) by (blast dest: stat_SomeD)
  with assms(2) os_remove_InrD(3) [OF assms(1)] show ?thesis
    by (simp add: only_removes_def)
qed

text \<open>The ways through the guarded removal: the disk is left as it is, and
  the removal counts exactly when there was no file; or the file is removed.\<close>

lemma remove_guarded_cases [case_names kept removed]:
  obtains b where "remove_guarded f p folder = Inr (b, f)" and "b \<longleftrightarrow> \<not> path_is_file f p"
  | f' where "remove_guarded f p folder = Inr (True, f')"
      and "os_remove f (path_str p) = Inr f'"
      and "startswith (resolve f p) (resolve f (Path folder))"
proof (cases "os_remove f (path_str p)")
  case (Inl ex)
  then have "is_OSError ex" by (rule os_remove_is_OSError)
  with Inl show thesis
    by (intro that(1) [of "\<not> path_is_file f p"])
      (auto simp: remove_guarded_def dest: path_is_file_exists)
next
  case (Inr f')
  then have "path_is_file f p" "path_exists f p"
    using os_remove_InrD(1) [OF Inr] by (auto simp: path_is_file_iff intro: path_is_file_exists)
  with Inr show thesis
    by (cases "startswith (resolve f p) (resolve f (Path folder))")
      (auto simp: remove_guarded_def intro: that(1) [of False] that(2) [of f'])
qed

lemma remove_guarded_sound:
  assumes "remove_guarded f p folder = Inr (b, f')"
    and "startswith (resolve f p) (resolve f (Path folder)) \<Longrightarrow>
         startswith (resolve f p) (resolve f (Path UPLOAD_FOLDER))"
  shows "only_removes f f'" and "b \<Longrightarrow> \<not> path_is_file f' p" and "fs_ok f \<Longrightarrow> fs_ok f'"
proof -
  have "only_removes f f' \<and> (b \<longrightarrow> \<not> path_is_file f' p) \<and> (fs_ok f \<longrightarrow> fs_ok f')"
  proof (cases rule: remove_guarded_cases [of f p folder])
    case (kept b')
    with assms(1) show ?thesis by auto
  next
    case (removed f'')
    with assms have "only_removes f f'"
      by (auto simp: resolve_def intro: os_remove_only_removes)
    moreover from removed assms(1) have "\<not> path_is_file f' p"
      by (auto simp: path_is_file_def dest: os_remove_gone)
    moreover from removed assms(1) have "fs_ok f \<longrightarrow> fs_ok f'"
      by (auto intro: fs_ok_remove)
    ultimately show ?thesis by simp
  qed
  then show "only_removes f f'" "b \<Longrightarrow> \<not> path_is_file f' p" "fs_ok f \<Longrightarrow> fs_ok f'"
    by simp_all
qed

lemma remove_guarded_returns: "\<not> isl (remove_guarded f p folder)"
  by (cases rule: remove_guarded_cases [of f p folder]) simp_all

section \<open>Facts about the two removals\<close>

lemma delete_audio_returns: "\<not> isl (delete_audio song_info f) \<longleftrightarrow> file_named song_info"
  using remove_guarded_returns
  by (auto simp: delete_audio_def file_named_def split: option.splits pyval.splits)

lemma delete_audio_sound:
  assumes "delete_audio song_info f = Inr (b, f')"
  shows "only_removes f f'" and "b \<Longrightarrow> gone f' (audio_path song_info)"
    and "fs_ok f \<Longrightarrow> fs_ok f'"
  using assms remove_guarded_sound [of f _ UPLOAD_FOLDER b f']
  by (auto simp: delete_audio_def audio_path_def gone_def
      split: option.splits pyval.splits if_splits)

lemma delete_cover_returns:
  "\<not> isl (delete_cover song_info f) \<longleftrightarrow> record_loadable (PDict song_info)"
  using remove_guarded_returns
  by (auto simp: delete_cover_def record_loadable_def Let_def split: option.splits pyval.splits)

lemma delete_cover_sound:
  assumes "delete_cover song_info f = Inr (b, f')"
  shows "only_removes f f'" and "b \<Longrightarrow> gone f' (cover_path song_info)"
    and "fs_ok f \<Longrightarrow> fs_ok f'"
  using assms remove_guarded_sound [of f _ COVERS_FOLDER b f'] covers_inside_uploads
  by (auto simp: delete_cover_def cover_path_def gone_def Let_def lstrip_def
      COVERS_FOLDER_NAME_def split: option.splits pyval.splits if_splits)

section \<open>Facts about the commit\<close>

lemma failure_message_not_stale [simp]: "failure_message a c \<noteq> stale_message"
  by (simp add: failure_message_def stale_message_def)

text \<open>The catalog without a song is a normal catalog again.\<close>

lemma library_normal_del:
  assumes "library_normal d"
  shows "library_normal (sset d ''songs'' (PDict (dict_del (songs_dict d) k)))"
  using assms by (intro library_normal_set songs_normal_del) (simp add: library_normal_def)

lemma json_ok_del_song:
  "json_ok (PDict d) \<Longrightarrow> json_ok (PDict (sset d ''songs'' (PDict (dict_del (songs_dict d) k))))"
  by (intro json_ok_dict_set json_ok_dict_del json_ok_songs)

text \<open>With both removals counted, the view writes the catalog without the
  song; the answer tells whether the write succeeded.\<close>

lemma commit_delete_normal:
  assumes "library_normal d"
  shows "commit_delete e d song_info song_id True True f =
           (case fs_write f LIBRARY_FILE
                   (Doc (PDict (sset d ''songs'' (PDict (dict_del (songs_dict d) (PStr song_id)))))) of
              Inl ex \<Rightarrow> (Json 500 (error_body stale_message), f)
            | Inr f' \<Rightarrow> (Json 200 (deleted_body e song_info song_id), f'))"
  using library_normal_del [OF assms, of "PStr song_id"]
  by (simp add: commit_delete_def save_library_normal split: sum.splits)

lemma commit_delete_failed:
  "\<not> (a \<and> c) \<Longrightarrow>
     commit_delete e d song_info song_id a c f = (Json 500 (error_body (failure_message a c)), f)"
  by (auto simp: commit_delete_def)

lemma commit_delete_answers:
  assumes "library_normal d" and "commit_delete e d song_info song_id a c f = (r, f')"
  shows "response_outcome r \<noteq> None"
proof -
  from assms(1) have "\<not> isl (save_library
      (sset d ''songs'' (PDict (dict_del (songs_dict d) (PStr song_id)))) LIBRARY_FILE f)"
    by (intro save_library_no_raise) simp
  with assms(2) show ?thesis
    by (auto simp: commit_delete_def response_outcome_def Let_def split: if_splits sum.splits)
qed

text \<open>The commit meets the contract, from a disk that differs from the
  first one by removed files.\<close>

lemma commit_delete_refines:
  assumes cat: "holds_catalog (w\<lparr>disk := f2\<rparr>) d"
    and found: "dict_get (songs_dict d) (PStr song_id) = Some (PDict song_info)"
    and rem: "only_removes f f2"
    and audio: "a \<Longrightarrow> gone f2 (audio_path song_info)"
    and cover: "c \<Longrightarrow> gone f2 (cover_path song_info)"
    and res: "commit_delete e d song_info song_id a c f2 = (r, f3)"
  shows "\<exists>out d'. response_outcome r = Some out \<and> holds_catalog (w\<lparr>disk := f3\<rparr>) d' \<and>
           delete_spec song_id (d, f) out (d', f3)"
proof (cases "a \<and> c")
  case False
  with res have "r = Json 500 (error_body (failure_message a c))" and "f3 = f2"
    by (simp_all add: commit_delete_failed)
  with cat found rem show ?thesis
    by (auto simp: response_outcome_def error_body_def intro!: delete_spec.partial)
next
  case True
  let ?d' = "sset d ''songs'' (PDict (dict_del (songs_dict d) (PStr song_id)))"
  from cat obtain v where read: "fs_read f2 LIBRARY_FILE = Inr (Doc v)"
    and normal: "library_normal d" and json: "json_ok (PDict d)"
    by (auto elim: holds_catalogE)
  note gone = audio cover
  show ?thesis
  proof (cases "fs_write f2 LIBRARY_FILE (Doc (PDict ?d'))")
    case (Inl ex)
    with res True normal have "r = Json 500 (error_body stale_message)" and "f3 = f2"
      by (simp_all add: commit_delete_normal)
    moreover from found rem gone True Inl
    have "delete_spec song_id (d, f) Inconsistent (d, f2)"
      by (intro delete_spec.inconsistent [where d' = ?d']) simp_all
    ultimately show ?thesis using cat by (auto simp: response_outcome_def)
  next
    case (Inr f')
    with res True normal have r: "r = Json 200 (deleted_body e song_info song_id)"
      and f3: "f3 = f'"
      by (simp_all add: commit_delete_normal)
    from read have "read_fault f2 (realpath f2 LIBRARY_FILE) = None"
      by (simp add: fs_read_Inr_iff)
    with Inr f3 have "holds_catalog (w\<lparr>disk := f3\<rparr>) ?d'"
      by (intro holds_catalog_written [of f2] library_normal_del json_ok_del_song normal json)
        simp_all
    moreover from found rem gone True Inr f3
    have "delete_spec song_id (d, f) CommittedToCatalog (?d', f3)"
      by (intro delete_spec.committed [where g = f2]) simp_all
    ultimately show ?thesis using r by (auto simp: response_outcome_def)
  qed
qed

section \<open>The ways through the view\<close>

lemma delete_song_cases [case_names load_raises not_found no_record audio_raises cover_raises finished]:
  obtains ex w1 where "load_library e LIBRARY_FILE w = (Inl ex, w1)"
      and "delete_song e song_id w = (Unhandled ex, w1)"
  | d w1 where "load_library e LIBRARY_FILE w = (Inr d, w1)"
      and "dict_get (songs_dict d) (PStr song_id) = None"
      and "delete_song e song_id w = (Json 404 (error_body ''Song not found''), w1)"
  | d w1 v where "load_library e LIBRARY_FILE w = (Inr d, w1)"
      and "dict_get (songs_dict d) (PStr song_id) = Some v" and "\<not> is_dict v"
      and "delete_song e song_id w = (Unhandled (no_attribute v ''get''), w1)"
  | d w1 song_info ex where "load_library e LIBRARY_FILE w = (Inr d, w1)"
      and "dict_get (songs_dict d) (PStr song_id) = Some (PDict song_info)"
      and "delete_audio song_info (disk w1) = Inl ex"
      and "delete_song e song_id w = (Unhandled ex, w1)"
  | d w1 song_info a f1 ex where "load_library e LIBRARY_FILE w = (Inr d, w1)"
      and "dict_get (songs_dict d) (PStr song_id) = Some (PDict song_info)"
      and "delete_audio song_info (disk w1) = Inr (a, f1)"
      and "delete_cover song_info f1 = Inl ex"
      and "delete_song e song_id w = (Unhandled ex, w1\<lparr>disk := f1\<rparr>)"
  | d w1 song_info a f1 c f2 r f3 where "load_library e LIBRARY_FILE w = (Inr d, w1)"
      and "dict_get (songs_dict d) (PStr song_id) = Some (PDict song_info)"
      and "delete_audio song_info (disk w1) = Inr (a, f1)"
      and "delete_cover song_info f1 = Inr (c, f2)"
      and "commit_delete e d song_info song_id a c f2 = (r, f3)"
      and "delete_song e song_id w = (r, w1\<lparr>disk := f3\<rparr>)"
proof -
  obtain res w1 where load: "load_library e LIBRARY_FILE w = (res, w1)"
    by (cases "load_library e LIBRARY_FILE w")
  show thesis
  proof (cases res)
    case (Inl ex)
    with load show thesis by (intro that(1) [of ex w1]) (simp_all add: delete_song_def)
  next
    case (Inr d)
    note load = load [unfolded Inr]
    show thesis
    proof (cases "dict_get (songs_dict d) (PStr song_id)")
      case None
      with load show thesis by (intro that(2) [of d w1]) (simp_all add: delete_song_def)
    next
      case (Some v)
      show thesis
      proof (cases "is_dict v")
        case False
        with load Some show thesis
          by (intro that(3) [of d w1 v]) (auto simp: delete_song_def split: pyval.splits)
      next
        case True
        then obtain song_info where v: "v = PDict song_info" by (auto simp: is_dict_iff)
        note found = Some [unfolded v]
        show thesis
        proof (cases "delete_audio song_info (disk w1)")
          case (Inl ex)
          with load found show thesis
            by (intro that(4) [of d w1 song_info ex]) (simp_all add: delete_song_def)
        next
          case audio: (Inr r1)
          obtain a f1 where r1: "r1 = (a, f1)" by (cases r1)
          show thesis
          proof (cases "delete_cover song_info f1")
            case (Inl ex)
            with load found audio r1 show thesis
              by (intro that(5) [of d w1 song_info a f1 ex]) (simp_all add: delete_song_def)
          next
            case cover: (Inr r2)
            obtain c f2 where r2: "r2 = (c, f2)" by (cases r2)
            obtain r f3 where "commit_delete e d song_info song_id a c f2 = (r, f3)"
              by (cases "commit_delete e d song_info song_id a c f2")
            with load found audio r1 cover r2 show thesis
              by (intro that(6) [of d w1 song_info a f1 c f2 r f3])
                (simp_all add: delete_song_def)
          qed
        qed
      qed
    qed
  qed
qed

section \<open>What the view does to the disk\<close>

lemma commit_delete_disk:
  "commit_delete e d song_info song_id a c f = (r, f') \<Longrightarrow> writes_only f LIBRARY_FILE f'"
  by (auto simp: commit_delete_def Let_def split: if_splits sum.splits dest: writes_only_save)

text \<open>After the load, the view removes files and then writes the catalog,
  at most.\<close>

lemma delete_song_disk:
  "\<exists>g. only_removes (disk (snd (load_library e LIBRARY_FILE w))) g \<and>
       (fs_ok (disk (snd (load_library e LIBRARY_FILE w))) \<longrightarrow> fs_ok g) \<and>
       writes_only g LIBRARY_FILE (disk (snd (delete_song e song_id w)))"
proof (cases rule: delete_song_cases [of e w song_id])
  case (cover_raises d w1 song_info a f1 ex)
  with delete_audio_sound [OF cover_raises(3)] show ?thesis by auto
next
  case (finished d w1 song_info a f1 c f2 r f3)
  note audio = delete_audio_sound [OF finished(3)] and cover = delete_cover_sound [OF finished(4)]
  from audio(1) cover(1) have "only_removes (disk w1) f2" by (rule only_removes_trans)
  moreover from audio(3) cover(3) have "fs_ok (disk w1) \<longrightarrow> fs_ok f2" by simp
  moreover from finished(5) have "writes_only f2 LIBRARY_FILE f3" by (rule commit_delete_disk)
  ultimately show ?thesis using finished by auto
qed (auto intro: exI [of _ "disk (snd (load_library e LIBRARY_FILE w))"])

lemma delete_song_keeps_fs_ok: "fs_ok (disk w) \<Longrightarrow> fs_ok (disk (snd (delete_song e song_id w)))"
  using delete_song_disk [of e w song_id] load_library_fs_ok [of w e LIBRARY_FILE]
  by (auto intro: writes_only_fs_ok)

section \<open>The view meets the contract\<close>

lemma delete_song_specE:
  assumes cat: "holds_catalog w d" and res: "delete_song e song_id w = (r, w')"
    and out: "response_outcome r = Some out"
  obtains d' where "holds_catalog w' d'"
    and "delete_spec song_id (d, disk w) out (d', disk w')" and "uuid_count w' = uuid_count w"
proof (cases rule: delete_song_cases [of e w song_id])
  case (not_found d0 w1)
  with cat res out have "w' = w" "d0 = d" "out = NotFound"
    by (auto simp: holds_catalog_load response_outcome_def)
  with not_found(2) cat show thesis by (intro that [of d]) (auto intro: delete_spec.not_found)
next
  case (finished d0 w1 song_info a f1 c f2 r0 f3)
  with cat res have same: "w1 = w" "d0 = d" "r0 = r" and w': "w' = w\<lparr>disk := f3\<rparr>"
    by (simp_all add: holds_catalog_load)
  note audio = delete_audio_sound [OF finished(3) [unfolded same]]
    and cover = delete_cover_sound [OF finished(4)]
  from audio(1) cover(1) have rem: "only_removes (disk w) f2" by (rule only_removes_trans)
  then have "holds_catalog (w\<lparr>disk := f2\<rparr>) d"
    using cat by (simp add: holds_catalog_cong [of "w\<lparr>disk := f2\<rparr>" w] only_removes_catalog)
  from commit_delete_refines [OF this finished(2) [unfolded same] rem _ _
      finished(5) [unfolded same]] audio(2) cover(2) only_removes_gone [OF cover(1)]
  obtain out' d' where "response_outcome r = Some out'"
    and "holds_catalog (w\<lparr>disk := f3\<rparr>) d'" and "delete_spec song_id (d, disk w) out' (d', f3)"
    by blast
  with out w' show thesis by (intro that [of d']) simp_all
qed (use cat res out in \<open>auto simp: holds_catalog_load response_outcome_def\<close>)

text \<open>Whatever the answer, the catalog file holds a normal catalog again,
  with songs of the old catalog only.\<close>

lemma delete_spec_songs:
  "delete_spec song_id (d, f) out (d', f') \<Longrightarrow> set (songs_dict d') \<subseteq> set (songs_dict d)"
  using set_dict_del_subset [of "songs_dict d" "PStr song_id"]
  by (auto elim!: delete_spec.cases)

lemma delete_song_holds:
  assumes cat: "holds_catalog w d"
  obtains d' where "holds_catalog (snd (delete_song e song_id w)) d'"
    and "set (songs_dict d') \<subseteq> set (songs_dict d)"
    and "uuid_count (snd (delete_song e song_id w)) = uuid_count w"
proof (cases rule: delete_song_cases [of e w song_id])
  case (cover_raises d0 w1 song_info a f1 ex)
  with cat have "w1 = w" by (simp add: holds_catalog_load)
  with cover_raises(3) have "only_removes (disk w) f1" by (auto dest: delete_audio_sound(1))
  then have "holds_catalog (w\<lparr>disk := f1\<rparr>) d"
    using cat by (simp add: holds_catalog_cong [of "w\<lparr>disk := f1\<rparr>" w] only_removes_catalog)
  with cover_raises(5) \<open>w1 = w\<close> show thesis by (intro that [of d]) simp_all
next
  case (finished d0 w1 song_info a f1 c f2 r f3)
  with cat have res: "delete_song e song_id w = (r, w\<lparr>disk := f3\<rparr>)" and "d0 = d"
    by (simp_all add: holds_catalog_load)
  with cat finished(5) obtain out where "response_outcome r = Some out"
    by (auto elim!: holds_catalogE dest: commit_delete_answers)
  from delete_song_specE [OF cat res this] obtain d'
    where "holds_catalog (w\<lparr>disk := f3\<rparr>) d'"
      and "delete_spec song_id (d, disk w) out (d', disk (w\<lparr>disk := f3\<rparr>))"
    by blast
  with res show thesis by (intro that [of d']) (auto dest: delete_spec_songs)
qed (use cat in \<open>auto simp: holds_catalog_load intro: that [of d]\<close>)

text \<open>A removal whose file is not there counts and changes nothing.\<close>

lemma remove_guarded_absent: "\<not> path_is_file f p \<Longrightarrow> remove_guarded f p folder = Inr (True, f)"
  by (simp add: remove_guarded_def)

lemma delete_audio_gone:
  "file_named song_info \<Longrightarrow> gone f (audio_path song_info) \<Longrightarrow>
     delete_audio song_info f = Inr (True, f)"
  by (auto simp: delete_audio_def file_named_def gone_def audio_path_def remove_guarded_absent
      split: option.splits pyval.splits)

lemma delete_cover_gone:
  "record_loadable (PDict song_info) \<Longrightarrow> gone f (cover_path song_info) \<Longrightarrow>
     delete_cover song_info f = Inr (True, f)"
  by (auto simp: delete_cover_def record_loadable_def gone_def cover_path_def Let_def
      remove_guarded_absent split: option.splits pyval.splits)

text \<open>The songs of a normal catalog are dictionaries that the cover removal
  accepts.\<close>

lemma songs_normal_record:
  assumes "songs_normal songs" and "dict_get songs k = Some v"
  obtains song_info where "v = PDict song_info" and "record_loadable (PDict song_info)"
proof -
  from assms(2) obtain k' where "(k', v) \<in> set songs" by (blast dest: dict_get_SomeD)
  with assms(1) have "song_normal k' v" by (auto simp: songs_normal_def list_all_iff)
  then show thesis
    by (cases k'; cases v)
      (auto simp: song_normal_def cover_ok_def record_loadable_def intro!: that
        split: option.splits pyval.splits)
qed

section \<open>Examples\<close>

text \<open>The example installation after the deletion of its song.\<close>

definition deleted_world :: world where
  "deleted_world =
     \<lparr>disk = demo_fs\<lparr>nodes :=
        [([], Dir), ([''srv''], Dir),
         ([''srv'', ''library.json''], File (Doc (PDict [(PStr ''songs'', PDict [])]))),
         ([''srv'', ''uploads''], Dir),
         ([''srv'', ''uploads'', ''covers''], Dir)]\<rparr>,
      uuid_count = 0\<rparr>"

text \<open>An installation with a folder \<^verbatim>\<open>uploads_old\<close> beside the upload folder
  and a song whose \<^verbatim>\<open>filename\<close> points into it.\<close>

definition escape_id :: string where
  "escape_id = ''0b7e6a55-2f3c-4d19-9e8a-6c5d4e3f2a1b''"

definition escape_library :: pydict where
  "escape_library =
     [(PStr ''songs'',
       PDict [(PStr escape_id,
               PDict [(PStr ''id'', PStr escape_id),
                      (PStr ''filename'', PStr ''../uploads_old/keep.mp3''),
                      (PStr ''audioSrc'', PStr ''/uploads/../uploads_old/keep.mp3'')])])]"

definition escape_world :: world where
  "escape_world =
     \<lparr>disk = demo_fs\<lparr>nodes :=
        [([], Dir), ([''srv''], Dir),
         ([''srv'', ''library.json''], File (Doc (PDict escape_library))),
         ([''srv'', ''uploads''], Dir),
         ([''srv'', ''uploads'', ''covers''], Dir),
         ([''srv'', ''uploads_old''], Dir),
         ([''srv'', ''uploads_old'', ''keep.mp3''], File (Bytes ''kept''))]\<rparr>,
      uuid_count = 0\<rparr>"

text \<open>The example installation after its two files were lost.\<close>

definition orphan_world :: world where
  "orphan_world =
     \<lparr>disk = demo_fs\<lparr>nodes :=
        [([], Dir), ([''srv''], Dir),
         ([''srv'', ''library.json''], File (Doc (PDict demo_library))),
         ([''srv'', ''uploads''], Dir),
         ([''srv'', ''uploads'', ''covers''], Dir)]\<rparr>,
      uuid_count = 0\<rparr>"

lemma orphan_facts:
  "holds_catalog orphan_world demo_library"
  "dict_get (songs_dict demo_library) (PStr demo_id) = Some (PDict demo_song)"
  "file_named demo_song"
  "gone (disk orphan_world) (audio_path demo_song)"
  "gone (disk orphan_world) (cover_path demo_song)"
  "fs_write (disk orphan_world) LIBRARY_FILE
     (Doc (PDict (sset demo_library ''songs''
        (PDict (dict_del (songs_dict demo_library) (PStr demo_id)))))) = Inr (disk deleted_world)"
  by code_simp+

lemma delete_demo:
  "delete_song demo_env demo_id demo_world
     = (Json 200 (deleted_body demo_env demo_song demo_id), deleted_world)"
  by code_simp

lemma delete_nobody:
  "delete_song demo_env ''nobody'' demo_world
     = (Json 404 (error_body ''Song not found''), demo_world)"
  by code_simp

section \<open>Properties of the deletion handler\<close>

text \<open>C1: From a disk whose catalog file holds a normal catalog, every answer
  of \<^verbatim>\<open>delete_song\<close> that is a JSON body meets the contract of its
  outcome: \<^verbatim>\<open>404\<close> changes nothing; \<^verbatim>\<open>200\<close> has removed the files of the
  song and written the catalog without it; the answer "files deleted, but
  failed to update" has removed the files and left the catalog file; any
  other \<^verbatim>\<open>500\<close> has left the catalog file and removed files at most. The
  disk holds a normal catalog again, and no identifier is drawn.\<close>

theorem delete_song_refines:
  assumes "holds_catalog w d" and "delete_song e song_id w = (r, w')"
    and "response_outcome r = Some out"
  shows "\<exists>d'. holds_catalog w' d' \<and> delete_spec song_id (d, disk w) out (d', disk w') \<and>
           uuid_count w' = uuid_count w"
proof -
  from assms obtain d' where "holds_catalog w' d'"
    and "delete_spec song_id (d, disk w) out (d', disk w')" and "uuid_count w' = uuid_count w"
    by (rule delete_song_specE)
  then show ?thesis by blast
qed

theorem delete_song_refines_witness:
  "holds_catalog demo_world demo_library \<and>
   delete_song demo_env demo_id demo_world
     = (Json 200 (deleted_body demo_env demo_song demo_id), deleted_world) \<and>
   (\<exists>d'. holds_catalog deleted_world d' \<and>
      delete_spec demo_id (demo_library, disk demo_world) CommittedToCatalog
        (d', disk deleted_world) \<and>
      uuid_count deleted_world = uuid_count demo_world)"
  using delete_song_refines [OF holds_catalog_demo delete_demo, of CommittedToCatalog]
  by (simp add: holds_catalog_demo delete_demo response_outcome_def)

text \<open>C4: Apart from the catalog file, \<^verbatim>\<open>delete_song\<close> changes the disk
  only by removing files, and the absolute path of every file it removes
  starts, as a string, with the absolute path of the upload folder.\<close>

theorem delete_song_frame:
  assumes "a \<noteq> realpath (disk w) LIBRARY_FILE"
  shows "node_at (disk (snd (delete_song e song_id w))) a = node_at (disk w) a \<or>
         (node_at (disk (snd (delete_song e song_id w))) a = None \<and>
          (\<exists>c. node_at (disk w) a = Some (File c)) \<and>
          startswith (apath_str a) (resolve (disk w) (Path UPLOAD_FOLDER)))"
proof -
  let ?f1 = "disk (snd (load_library e LIBRARY_FILE w))"
  note load = writes_only_load [of w LIBRARY_FILE e]
  from delete_song_disk [of e w song_id] obtain g where rem: "only_removes ?f1 g"
    and commit: "writes_only g LIBRARY_FILE (disk (snd (delete_song e song_id w)))"
    by blast
  have "realpath g LIBRARY_FILE = realpath (disk w) LIBRARY_FILE"
    by (simp add: only_removes_same [OF rem] writes_only_same [OF load])
  with assms commit have "node_at (disk (snd (delete_song e song_id w))) a = node_at g a"
    by (simp add: writes_only_node)
  moreover from assms load have "node_at ?f1 a = node_at (disk w) a"
    by (simp add: writes_only_node)
  moreover have "resolve ?f1 (Path UPLOAD_FOLDER) = resolve (disk w) (Path UPLOAD_FOLDER)"
    by (simp add: writes_only_same [OF load])
  moreover from rem have "node_at g a = node_at ?f1 a \<or>
      (node_at g a = None \<and> (\<exists>c. node_at ?f1 a = Some (File c)) \<and>
       startswith (apath_str a) (resolve ?f1 (Path UPLOAD_FOLDER)))"
    by (simp add: only_removes_def)
  ultimately show ?thesis by simp
qed

theorem delete_song_frame_witness:
  "[''srv'', ''uploads'', ''blue.mp3''] \<noteq> realpath (disk demo_world) LIBRARY_FILE \<and>
   node_at (disk (snd (delete_song demo_env demo_id demo_world)))
     [''srv'', ''uploads'', ''blue.mp3''] = None \<and>
   startswith (apath_str [''srv'', ''uploads'', ''blue.mp3''])
     (resolve (disk demo_world) (Path UPLOAD_FOLDER))"
  using delete_song_frame [of "[''srv'', ''uploads'', ''blue.mp3'']" demo_world demo_env demo_id]
  by (simp add: delete_demo realpath_LIBRARY_FILE deleted_world_def node_at_def
      resolve_UPLOAD_FOLDER apath_str_def startswith_def)

text \<open>An example of what the statement above leaves open. The test on the
  resolved path is a test on strings: the folder
  \<^verbatim>\<open>uploads_old\<close> beside the upload folder passes it, and the deletion of a
  song whose \<^verbatim>\<open>filename\<close> leads there removes a file outside the upload
  folder and answers \<^verbatim>\<open>200\<close>.\<close>

lemma delete_song_escapes_upload_folder:
  "node_at (disk escape_world) [''srv'', ''uploads_old'', ''keep.mp3''] = Some (File (Bytes ''kept'')) \<and>
   node_at (disk (snd (delete_song demo_env escape_id escape_world)))
     [''srv'', ''uploads_old'', ''keep.mp3''] = None \<and>
   status_of (fst (delete_song demo_env escape_id escape_world)) = 200"
  by code_simp

text \<open>C19: When the load returns a catalog, the answer is \<^verbatim>\<open>404\<close> with the
  body "Song not found", and the state is the one the load left, exactly
  when the catalog has no song under the identifier.\<close>

theorem delete_song_not_found_iff:
  assumes "load_library e LIBRARY_FILE w = (Inr d, w1)"
  shows "delete_song e song_id w = (Json 404 (error_body ''Song not found''), w1)
           \<longleftrightarrow> dict_get (songs_dict d) (PStr song_id) = None"
proof (cases rule: delete_song_cases [of e w song_id])
  case (finished d0 w0 song_info a f1 c f2 r f3)
  from finished(5) have "r \<noteq> Json 404 (error_body ''Song not found'')"
    by (auto simp: commit_delete_def Let_def split: if_splits sum.splits)
  with assms finished show ?thesis by simp
qed (use assms in simp_all)

theorem delete_song_not_found_iff_witness:
  "load_library demo_env LIBRARY_FILE demo_world = (Inr demo_library, demo_world) \<and>
   delete_song demo_env ''nobody'' demo_world
     = (Json 404 (error_body ''Song not found''), demo_world) \<and>
   dict_get (songs_dict demo_library) (PStr ''nobody'') = None"
  using delete_song_not_found_iff [OF holds_catalog_load [OF holds_catalog_demo], of demo_env
      "''nobody''"]
  by (simp add: holds_catalog_load [OF holds_catalog_demo] delete_nobody)

text \<open>An example: the state the load left is not always the state before the call:
  a catalog of an earlier format is rewritten by the load, also when the
  answer is \<^verbatim>\<open>404\<close>.\<close>

lemma delete_song_not_found_rewrites:
  "delete_song demo_env ''nobody'' legacy_world
     = (Json 404 (error_body ''Song not found''), repaired_world) \<and>
   fs_read (disk repaired_world) LIBRARY_FILE \<noteq> fs_read (disk legacy_world) LIBRARY_FILE"
  by code_simp

text \<open>C5: After an answer \<^verbatim>\<open>200\<close> the song is gone from the catalog: the
  same request again is answered \<^verbatim>\<open>404\<close> and changes nothing.\<close>

theorem delete_song_twice:
  assumes cat: "holds_catalog w d" and res: "delete_song e song_id w = (Json 200 body, w')"
  shows "delete_song e song_id w' = (Json 404 (error_body ''Song not found''), w')"
proof -
  from cat res obtain d' where cat': "holds_catalog w' d'"
    and spec: "delete_spec song_id (d, disk w) CommittedToCatalog (d', disk w')"
    by (rule delete_song_specE) (simp add: response_outcome_def)
  from spec have "d' = sset d ''songs'' (PDict (dict_del (songs_dict d) (PStr song_id)))"
    by (rule delete_spec_CommittedE) simp
  moreover from cat have "dict_ok (songs_dict d)"
    by (auto elim!: holds_catalogE simp: library_normal_def songs_normal_def)
  ultimately have "dict_get (songs_dict d') (PStr song_id) = None"
    by (simp add: dict_get_del)
  with holds_catalog_load [OF cat', of e] show ?thesis by (simp add: delete_song_def)
qed

theorem delete_song_twice_witness:
  "holds_catalog demo_world demo_library \<and>
   delete_song demo_env demo_id demo_world
     = (Json 200 (deleted_body demo_env demo_song demo_id), deleted_world) \<and>
   delete_song demo_env demo_id deleted_world
     = (Json 404 (error_body ''Song not found''), deleted_world)"
  using delete_song_twice [OF holds_catalog_demo delete_demo]
  by (simp add: holds_catalog_demo delete_demo)

text \<open>C17: With identifiers of 36 characters, an exception leaves
  \<^verbatim>\<open>delete_song\<close> exactly when the load raises or the song found has a
  \<^verbatim>\<open>filename\<close> that is true and no string; every other call answers with a
  JSON body.\<close>

theorem delete_song_unhandled_iff:
  assumes uuid: "uuid_ok e"
  shows "response_outcome (fst (delete_song e song_id w)) = None \<longleftrightarrow>
           isl (fst (load_library e LIBRARY_FILE w)) \<or>
           (\<exists>d song_info. fst (load_library e LIBRARY_FILE w) = Inr d \<and>
              dict_get (songs_dict d) (PStr song_id) = Some (PDict song_info) \<and>
              \<not> file_named song_info)"
proof -
  have entry: "is_dict v \<and> record_loadable v \<and> library_normal d"
    if "load_library e LIBRARY_FILE w = (Inr d, w1)"
      and "dict_get (songs_dict d) (PStr song_id) = Some v" for d w1 v
  proof -
    from that(1) uuid have "library_normal d" by (simp add: load_library_result)
    with that(2) show ?thesis
      by (auto simp: library_normal_def elim: songs_normal_record)
  qed
  show ?thesis
  proof (cases rule: delete_song_cases [of e w song_id])
    case (audio_raises d w1 song_info ex)
    with delete_audio_returns [of song_info "disk w1"] show ?thesis
      by (simp add: response_outcome_def)
  next
    case (cover_raises d w1 song_info a f1 ex)
    with entry [OF cover_raises(1,2)] delete_cover_returns [of song_info f1]
    show ?thesis by simp
  next
    case (finished d w1 song_info a f1 c f2 r f3)
    from entry [OF finished(1,2)] have "library_normal d" by simp
    from commit_delete_answers [OF this finished(5)] have "response_outcome r \<noteq> None" .
    with finished delete_audio_returns [of song_info "disk w1"] show ?thesis by simp
  qed (use entry in \<open>auto simp: response_outcome_def\<close>)
qed

theorem delete_song_unhandled_iff_witness:
  "uuid_ok demo_env \<and> response_outcome (fst (delete_song demo_env demo_id demo_world)) \<noteq> None \<and>
   \<not> isl (fst (load_library demo_env LIBRARY_FILE demo_world)) \<and> file_named demo_song"
  using delete_song_unhandled_iff [OF uuid_ok_demo, of demo_id demo_world]
  by (simp add: uuid_ok_demo delete_demo response_outcome_def
      holds_catalog_load [OF holds_catalog_demo] file_named_def demo_song_def)

text \<open>C20: A song whose files are not on the disk is deleted all the same:
  when the catalog can be written, the answer is \<^verbatim>\<open>200\<close> and the disk is the
  old one with the catalog written without the song.\<close>

theorem delete_song_missing_files:
  assumes cat: "holds_catalog w d"
    and found: "dict_get (songs_dict d) (PStr song_id) = Some (PDict song_info)"
    and named: "file_named song_info"
    and audio: "gone (disk w) (audio_path song_info)"
    and cover: "gone (disk w) (cover_path song_info)"
    and written: "fs_write (disk w) LIBRARY_FILE
        (Doc (PDict (sset d ''songs'' (PDict (dict_del (songs_dict d) (PStr song_id)))))) = Inr f'"
  shows "delete_song e song_id w = (Json 200 (deleted_body e song_info song_id), w\<lparr>disk := f'\<rparr>)"
proof -
  from cat have normal: "library_normal d" by (auto elim: holds_catalogE)
  with found have "record_loadable (PDict song_info)"
    by (auto simp: library_normal_def elim: songs_normal_record)
  with named audio cover show ?thesis
    using holds_catalog_load [OF cat, of e] found written
    by (simp add: delete_song_def delete_audio_gone delete_cover_gone
        commit_delete_normal [OF normal])
qed

theorem delete_song_missing_files_witness:
  "holds_catalog orphan_world demo_library \<and> file_named demo_song \<and>
   gone (disk orphan_world) (audio_path demo_song) \<and>
   gone (disk orphan_world) (cover_path demo_song) \<and>
   delete_song demo_env demo_id orphan_world
     = (Json 200 (deleted_body demo_env demo_song demo_id),
        orphan_world\<lparr>disk := disk deleted_world\<rparr>)"
  using delete_song_missing_files [OF orphan_facts, of demo_env]
  by (simp add: orphan_facts)

end
