(* ===== verification/Listing_Handler.thy ===== *)
theory Listing_Handler
  imports Catalog_Store
begin

text \<open>
  The view \<^verbatim>\<open>get_songs\<close> of \<^verbatim>\<open>src/app.py\<close> (lines 285--290): it loads the
  catalog and answers with the list of its records, in the order of the
  dictionary. An exception of the load leaves the view.
\<close>

definition get_songs :: "env \<Rightarrow> world \<Rightarrow> response \<times> world" where
  "get_songs e w =
     (case load_library e LIBRARY_FILE w of
        (Inl ex, w1) \<Rightarrow> (Unhandled ex, w1)
      | (Inr library_data, w1) \<Rightarrow>
          let song_list = map snd (songs_dict library_data)
          in (Json 200 (PList song_list), w1))"

lemmas [handler_defs] = get_songs_def

section \<open>Facts\<close>

lemma get_songs_holds:
  "holds_catalog w d \<Longrightarrow> get_songs e w = (Json 200 (PList (map snd (songs_dict d))), w)"
  by (simp add: get_songs_def holds_catalog_load)

lemma get_songs_world: "snd (get_songs e w) = snd (load_library e LIBRARY_FILE w)"
  by (simp add: get_songs_def split: prod.splits sum.splits)

lemma get_songs_fs_ok: "fs_ok (disk w) \<Longrightarrow> fs_ok (disk (snd (get_songs e w)))"
  by (simp add: get_songs_world load_library_fs_ok)

lemma songs_dict_demo: "songs_dict demo_library = [(PStr demo_id, PDict demo_song)]"
  by (simp add: demo_library_def)

lemma list_demo:
  "get_songs demo_env demo_world = (Json 200 (PList [PDict demo_song]), demo_world)"
  by code_simp

text \<open>The \<^verbatim>\<open>id\<close> of a listed record, as a client reads it.\<close>

definition listed_id :: "pyval \<Rightarrow> pyval" where
  "listed_id v =
     (case v of
        PDict sd \<Rightarrow> (case sget sd ''id'' of Some i \<Rightarrow> i | None \<Rightarrow> PNone)
      | _ \<Rightarrow> PNone)"

lemma song_normal_listed_id: "song_normal k v \<Longrightarrow> listed_id v = k \<and> hkey k = k"
  by (cases k; cases v) (auto simp: song_normal_def id_ok_def listed_id_def)

lemma songs_normal_listed_ids:
  assumes "songs_normal songs"
  shows "map listed_id (map snd songs) = map fst songs" and "distinct (map fst songs)"
proof -
  from assms have each: "\<forall>kv \<in> set songs. listed_id (snd kv) = fst kv \<and> hkey (fst kv) = fst kv"
    by (auto simp: songs_normal_def list_all_iff dest: song_normal_listed_id)
  then show "map listed_id (map snd songs) = map fst songs" by simp
  from each have "map (hkey \<circ> fst) songs = map fst songs" by simp
  with assms show "distinct (map fst songs)"
    by (simp add: songs_normal_def dict_ok_def dict_keys_def)
qed

lemma songs_normal_keys: "songs_normal songs \<Longrightarrow> dict_keys songs = map fst songs"
  by (auto simp: songs_normal_def list_all_iff dict_keys_def dest: song_normal_listed_id)

section \<open>Properties of the listing handler\<close>

text \<open>C22: From a disk whose catalog file holds a normal catalog, the listing
  answers \<^verbatim>\<open>200\<close> with the records of the catalog in its order, each once
  and each carrying the identifier it is filed under, and changes
  nothing.\<close>

theorem get_songs_lists_catalog:
  assumes "holds_catalog w d"
  shows "\<exists>songs. get_songs e w = (Json 200 (PList songs), w) \<and>
           songs = map snd (songs_dict d) \<and>
           map listed_id songs = map fst (songs_dict d) \<and> distinct (map listed_id songs)"
proof -
  from assms have "songs_normal (songs_dict d)"
    by (auto elim: holds_catalogE simp: library_normal_def)
  note ids = songs_normal_listed_ids [OF this]
  have "distinct (map listed_id (map snd (songs_dict d)))"
    unfolding ids(1) by (rule ids(2))
  with ids(1) get_songs_holds [OF assms, of e] show ?thesis by blast
qed

theorem get_songs_lists_catalog_witness:
  "holds_catalog demo_world demo_library \<and>
   get_songs demo_env demo_world = (Json 200 (PList [PDict demo_song]), demo_world) \<and>
   map listed_id [PDict demo_song] = [PStr demo_id]"
  using get_songs_lists_catalog [OF holds_catalog_demo, of demo_env]
  by (simp add: holds_catalog_demo list_demo songs_dict_demo)

end
