(* ===== verification/Metadata_Resolver.thy ===== *)
theory Metadata_Resolver
  imports Catalog_Store
begin

text \<open>
  The function \<^verbatim>\<open>get_song_metadata\<close> of \<^verbatim>\<open>src/app.py\<close> (lines 123--214):
  it builds the record of a song from the name of the stored file, saves the
  cover that was uploaded or the first acceptable picture of the tag, and
  reads title, artist, album and genre from the tag. Every \<^verbatim>\<open>try\<close> of the
  function catches \<^verbatim>\<open>Exception\<close>, so the function returns a record whatever
  the disk and the tag reader do; what it changes is the disk.
\<close>

section \<open>The record and the manual artist\<close>

text \<open>Lines 134--143.\<close>

definition seed_metadata :: "string \<Rightarrow> string \<Rightarrow> pydict" where
  "seed_metadata mp3_filepath_str song_id =
     [(PStr ''id'', PStr song_id),
      (PStr ''filename'', PStr mp3_filepath_str),
      (PStr ''title'', PStr (path_stem (Path mp3_filepath_str))),
      (PStr ''artist'', PStr ''Unknown Artist''),
      (PStr ''album'', PStr ''Unknown Album''),
      (PStr ''genre'', PStr ''Unknown Genre''),
      (PStr ''audioSrc'', PStr (''/uploads/'' @ mp3_filepath_str)),
      (PStr ''coverSrc'', PNone)]"

text \<open>The truth of \<^verbatim>\<open>manual_artist\<close> in a condition,
  \<^verbatim>\<open>manual_artist if manual_artist else d\<close>, and \<^verbatim>\<open>if manual_artist:
  metadata['artist'] = manual_artist\<close>.\<close>

definition given :: "string option \<Rightarrow> bool" where
  "given manual_artist \<longleftrightarrow> (case manual_artist of Some a \<Rightarrow> a \<noteq> [] | None \<Rightarrow> False)"

definition manual_or :: "string option \<Rightarrow> string \<Rightarrow> string" where
  "manual_or manual_artist d =
     (case manual_artist of Some a \<Rightarrow> if a \<noteq> [] then a else d | None \<Rightarrow> d)"

definition set_manual :: "string option \<Rightarrow> pydict \<Rightarrow> pydict" where
  "set_manual manual_artist metadata =
     (case manual_artist of
        Some a \<Rightarrow> if a \<noteq> [] then sset metadata ''artist'' (PStr a) else metadata
      | None \<Rightarrow> metadata)"

text \<open>\<^verbatim>\<open>metadata[key]\<close> for a key whose value is a string.\<close>

definition str_at :: "pydict \<Rightarrow> string \<Rightarrow> string" where
  "str_at metadata key = (case sget metadata key of Some (PStr s) \<Rightarrow> s | _ \<Rightarrow> [])"

text \<open>The path \<^verbatim>\<open>/covers/<name>\<close> stored under \<^verbatim>\<open>coverSrc\<close> (lines 152 and 193).\<close>

definition cover_src_of :: "string \<Rightarrow> pyval" where
  "cover_src_of cover_filename = PStr (''/'' @ COVERS_FOLDER_NAME @ ''/'' @ cover_filename)"

section \<open>The uploaded cover\<close>

text \<open>
  Lines 145--156. The result is the record, the flag \<^verbatim>\<open>cover_saved\<close> and
  the disk; an exception of \<^verbatim>\<open>save\<close> is caught and leaves all three.
\<close>

definition save_uploaded_cover ::
  "string \<Rightarrow> file_storage option \<Rightarrow> pydict \<Rightarrow> fs \<Rightarrow> pydict \<times> bool \<times> fs" where
  "save_uploaded_cover song_id uploaded_cover_file metadata f =
     (case uploaded_cover_file of
        None \<Rightarrow> (metadata, False, f)
      | Some c \<Rightarrow>
          if storage_true uploaded_cover_file \<and> storage_filename c \<noteq> []
             \<and> allowed_cover_file (storage_filename c)
          then
            let cover_ext = lower (rsplit1 (CHR ''.'') (storage_filename c) ! 1);
                cover_filename = song_id @ ''.'' @ cover_ext;
                cover_save_path = joinpath (Path COVERS_FOLDER) cover_filename
            in (case storage_save c cover_save_path f of
                  Inr f' \<Rightarrow> (sset metadata ''coverSrc'' (cover_src_of cover_filename), True, f')
                | Inl ex \<Rightarrow> (metadata, False, f))
          else (metadata, False, f))"

section \<open>The text tags\<close>

text \<open>\<^verbatim>\<open>EasyID3(path)\<close> reads the file; a file that cannot be read makes it
  raise.\<close>

definition open_easy :: "env \<Rightarrow> fs \<Rightarrow> path \<Rightarrow> easy_result" where
  "open_easy e f p =
     (case fs_read f (path_str p) of Inl ex \<Rightarrow> EasyRaises ex | Inr c \<Rightarrow> EasyID3 e c)"

text \<open>\<^verbatim>\<open>audio_easy.get(key, [d])[0]\<close>: a tag without values has no first one.\<close>

definition tag_first :: "(string \<times> string list) list \<Rightarrow> string \<Rightarrow> string \<Rightarrow> string result" where
  "tag_first tags key d =
     (case map_of tags key of
        None \<Rightarrow> Inr d
      | Some [] \<Rightarrow> Inl (IndexError ''list index out of range'')
      | Some (v # vs) \<Rightarrow> Inr v)"

text \<open>The four tags read, in the order of lines 161--164.\<close>

definition text_keys :: "string list" where
  "text_keys = [''title'', ''artist'', ''album'', ''genre'']"

text \<open>
  Lines 161--164: the four assignments in their order. The first that raises
  ends them; the flag says whether one did. The artist is the manual artist
  when there is one.
\<close>

fun assign_tags ::
  "(string \<times> string list) list \<Rightarrow> string option \<Rightarrow> string list \<Rightarrow> pydict \<Rightarrow> pydict \<times> bool" where
  "assign_tags tags manual_artist [] metadata = (metadata, False)"
| "assign_tags tags manual_artist (key # keys) metadata =
     (case (if key = ''artist'' \<and> given manual_artist
            then Inr (manual_or manual_artist [])
            else tag_first tags key (str_at metadata key)) of
        Inl ex \<Rightarrow> (metadata, True)
      | Inr v \<Rightarrow> assign_tags tags manual_artist keys (sset metadata key (PStr v)))"

text \<open>Lines 159--172: both handlers set the manual artist, if there is one.\<close>

definition read_basic_tags :: "env \<Rightarrow> string option \<Rightarrow> path \<Rightarrow> pydict \<Rightarrow> fs \<Rightarrow> pydict" where
  "read_basic_tags e manual_artist server_mp3_path metadata f =
     (case open_easy e f server_mp3_path of
        EasyRaises ex \<Rightarrow> set_manual manual_artist metadata
      | EasyTags tags \<Rightarrow>
          (case assign_tags tags manual_artist text_keys metadata of
             (metadata', raised) \<Rightarrow>
               if raised then set_manual manual_artist metadata' else metadata'))"

section \<open>The embedded cover\<close>

text \<open>\<^verbatim>\<open>MP3(path, ID3=ID3)\<close> reads the file as well.\<close>

definition open_mp3 :: "env \<Rightarrow> fs \<Rightarrow> path \<Rightarrow> mp3_result" where
  "open_mp3 e f p =
     (case fs_read f (path_str p) of Inl ex \<Rightarrow> Mp3Raises ex | Inr c \<Rightarrow> MP3 e c)"

text \<open>Lines 183--184: the extension a MIME type stands for.\<close>

definition mime_ext :: "string \<Rightarrow> string" where
  "mime_ext mime_type =
     (let ext = lower (last (split_on (CHR ''/'') mime_type))
      in if ext = ''jpeg'' then ''jpg'' else ext)"

text \<open>
  Lines 178--201, the loop over the frames of the tag: a frame that is no
  picture is passed over, and so is a picture whose type is not allowed; the
  first picture of an allowed type is written, and the loop ends there
  whether the write succeeded or not. A frame named \<^verbatim>\<open>APIC\<close> without a MIME
  type raises, which ends the loop as well (line 202).
\<close>

fun scan_covers :: "string \<Rightarrow> (string \<times> frame) list \<Rightarrow> pydict \<Rightarrow> fs \<Rightarrow> pydict \<times> fs" where
  "scan_covers song_id [] metadata f = (metadata, f)"
| "scan_covers song_id ((tag_name, fr) # rest) metadata f =
     (if startswith tag_name ''APIC'' then
        (case fr of
           APIC mime_type image_data \<Rightarrow>
             let ext = mime_ext mime_type in
             if ext \<in> set ALLOWED_COVER_EXTENSIONS then
               let cover_filename = song_id @ ''.'' @ ext;
                   cover_save_path = joinpath (Path COVERS_FOLDER) cover_filename
               in (case fs_write f (path_str cover_save_path) (Bytes image_data) of
                     Inr f' \<Rightarrow> (sset metadata ''coverSrc'' (cover_src_of cover_filename), f')
                   | Inl ex \<Rightarrow> (metadata, f))
             else scan_covers song_id rest metadata f
         | OtherFrame \<Rightarrow> (metadata, f))
      else scan_covers song_id rest metadata f)"

text \<open>Lines 174--203.\<close>

definition embedded_cover :: "env \<Rightarrow> string \<Rightarrow> path \<Rightarrow> pydict \<Rightarrow> fs \<Rightarrow> pydict \<times> fs" where
  "embedded_cover e song_id server_mp3_path metadata f =
     (case open_mp3 e f server_mp3_path of
        Mp3Raises ex \<Rightarrow> (metadata, f)
      | Mp3Tags frames \<Rightarrow> scan_covers song_id frames metadata f)"

section \<open>get\_song\_metadata\<close>

text \<open>Lines 210--211.\<close>

definition final_artist :: "string option \<Rightarrow> pydict \<Rightarrow> pydict" where
  "final_artist manual_artist metadata =
     (if str_at metadata ''artist'' = [] \<or> str_at metadata ''artist'' = ''Unknown Artist''
      then sset metadata ''artist'' (PStr (manual_or manual_artist ''Unknown Artist''))
      else metadata)"

definition get_song_metadata ::
  "env \<Rightarrow> string \<Rightarrow> string \<Rightarrow> string option \<Rightarrow> file_storage option \<Rightarrow> fs \<Rightarrow> pydict \<times> fs" where
  "get_song_metadata e mp3_filepath_str song_id manual_artist uploaded_cover_file f =
     (let server_mp3_path = joinpath (Path UPLOAD_FOLDER) mp3_filepath_str;
          metadata = seed_metadata mp3_filepath_str song_id;
          (metadata1, cover_saved, f1) =
             save_uploaded_cover song_id uploaded_cover_file metadata f;
          (metadata2, f2) =
             (if MUTAGEN_AVAILABLE e \<and> path_is_file f1 server_mp3_path then
                let m = read_basic_tags e manual_artist server_mp3_path metadata1 f1
                in if \<not> cover_saved then embedded_cover e song_id server_mp3_path m f1
                   else (m, f1)
              else if \<not> MUTAGEN_AVAILABLE e then
                (sset metadata1 ''artist''
                   (PStr (manual_or manual_artist ''N/A (mutagen not installed)'')), f1)
              else
                (sset metadata1 ''artist''
                   (PStr (manual_or manual_artist ''N/A (File missing?)'')), f1))
      in (final_artist manual_artist metadata2, f2))"

lemmas [handler_defs] =
  seed_metadata_def given_def manual_or_def set_manual_def str_at_def cover_src_of_def
  save_uploaded_cover_def open_easy_def tag_first_def read_basic_tags_def open_mp3_def
  mime_ext_def embedded_cover_def final_artist_def get_song_metadata_def

section \<open>The shape of a song record\<close>

text \<open>
  What \<^verbatim>\<open>get_song_metadata\<close> returns for an identifier and a file name:
  the eight keys in their order, the identifier, the file name and the audio
  path built from it, four strings, and a cover path that is \<^verbatim>\<open>None\<close> or
  \<^verbatim>\<open>/covers/<id>.<ext>\<close> with an allowed extension.
\<close>

definition record_keys :: "string list" where
  "record_keys =
     [''id'', ''filename'', ''title'', ''artist'', ''album'', ''genre'', ''audioSrc'', ''coverSrc'']"

definition song_record :: "string \<Rightarrow> string \<Rightarrow> pydict \<Rightarrow> bool" where
  "song_record song_id name md \<longleftrightarrow>
     map fst md = map PStr record_keys \<and>
     sget md ''id'' = Some (PStr song_id) \<and>
     sget md ''filename'' = Some (PStr name) \<and>
     sget md ''audioSrc'' = Some (PStr (''/uploads/'' @ name)) \<and>
     list_all (\<lambda>k. case sget md k of Some v \<Rightarrow> is_str v | None \<Rightarrow> False) text_keys \<and>
     (sget md ''coverSrc'' = Some PNone \<or>
      list_ex (\<lambda>ext. sget md ''coverSrc'' = Some (cover_src_of (song_id @ ''.'' @ ext)))
        ALLOWED_COVER_EXTENSIONS)"

section \<open>Facts about the record\<close>

lemma song_record_has:
  "song_record song_id name md \<Longrightarrow> k \<in> set record_keys \<Longrightarrow> shas md k"
proof -
  assume "song_record song_id name md" and k: "k \<in> set record_keys"
  then have keys: "map fst md = map PStr record_keys" by (simp add: song_record_def)
  have "dict_keys md = map hkey (map fst md)" by (simp add: dict_keys_def)
  also have "\<dots> = map PStr record_keys" unfolding keys by (simp add: comp_def)
  finally show ?thesis using k by (simp add: dict_has_iff)
qed

lemma text_keys_record_keys: "k \<in> set text_keys \<Longrightarrow> k \<in> set record_keys"
  by (auto simp: text_keys_def record_keys_def)

lemma text_keys_cases:
  assumes "k \<in> set text_keys"
  obtains "k = ''title''" | "k = ''artist''" | "k = ''album''" | "k = ''genre''"
  using assms by (auto simp: text_keys_def)

lemma song_record_seed: "song_record song_id name (seed_metadata name song_id)"
  unfolding song_record_def
proof (intro conjI)
  show "map fst (seed_metadata name song_id) = map PStr record_keys"
    by (simp add: seed_metadata_def record_keys_def)
  show "list_all (\<lambda>k. case sget (seed_metadata name song_id) k of Some v \<Rightarrow> is_str v | None \<Rightarrow> False) text_keys"
    by (simp add: seed_metadata_def text_keys_def)
qed (simp_all add: seed_metadata_def)

lemma song_record_set_text:
  assumes "song_record song_id name md" and "k \<in> set text_keys"
  shows "song_record song_id name (sset md k (PStr v))"
proof -
  have "map fst (sset md k (PStr v)) = map fst md"
    using assms by (intro map_fst_dict_set song_record_has [OF assms(1)] text_keys_record_keys)
  with assms show ?thesis
    by (auto simp: song_record_def text_keys_def)
qed

lemma song_record_set_cover:
  assumes "song_record song_id name md" and "ext \<in> set ALLOWED_COVER_EXTENSIONS"
  shows "song_record song_id name (sset md ''coverSrc'' (cover_src_of (song_id @ ''.'' @ ext)))"
proof -
  have "map fst (sset md ''coverSrc'' (cover_src_of (song_id @ ''.'' @ ext))) = map fst md"
    by (rule map_fst_dict_set, rule song_record_has [OF assms(1)]) (simp add: record_keys_def)
  with assms show ?thesis
    by (auto simp: song_record_def text_keys_def list_ex_iff)
qed

lemma song_record_set_manual:
  "song_record song_id name md \<Longrightarrow> song_record song_id name (set_manual manual_artist md)"
  by (simp add: set_manual_def song_record_set_text text_keys_def split: option.splits)

lemma song_record_final_artist:
  "song_record song_id name md \<Longrightarrow> song_record song_id name (final_artist manual_artist md)"
  by (simp add: final_artist_def song_record_set_text text_keys_def)

lemma assign_tags_record:
  "song_record song_id name md \<Longrightarrow> set keys \<subseteq> set text_keys \<Longrightarrow>
   song_record song_id name (fst (assign_tags tags manual_artist keys md))"
  by (induction keys arbitrary: md) (auto simp: song_record_set_text split: sum.splits)

lemma read_basic_tags_cases [case_names raises assigned]:
  obtains ex where "open_easy e f p = EasyRaises ex"
      and "read_basic_tags e manual_artist p md f = set_manual manual_artist md"
  | tags md' raised where "open_easy e f p = EasyTags tags"
      and "assign_tags tags manual_artist text_keys md = (md', raised)"
      and "read_basic_tags e manual_artist p md f =
             (if raised then set_manual manual_artist md' else md')"
proof (cases "open_easy e f p")
  case (EasyRaises ex)
  then show ?thesis by (intro that(1) [of ex]) (simp_all add: read_basic_tags_def)
next
  case (EasyTags tags)
  obtain md' raised where "assign_tags tags manual_artist text_keys md = (md', raised)"
    by force
  with EasyTags show ?thesis
    by (intro that(2) [of tags md' raised])
      (simp_all add: read_basic_tags_def text_keys_def del: assign_tags.simps)
qed

lemma read_basic_tags_record:
  assumes "song_record song_id name md"
  shows "song_record song_id name (read_basic_tags e manual_artist p md f)"
proof (cases rule: read_basic_tags_cases [where e = e and f = f and p = p and md = md
        and manual_artist = manual_artist])
  case (raises ex)
  with assms show ?thesis by (simp add: song_record_set_manual)
next
  case (assigned tags md' raised)
  with assign_tags_record [OF assms, of text_keys tags manual_artist]
  show ?thesis by (simp add: song_record_set_manual)
qed

text \<open>Keys that are no text keys keep their values.\<close>

lemma set_manual_keeps:
  "k \<noteq> ''artist'' \<Longrightarrow> sget (set_manual manual_artist md) k = sget md k"
  by (simp add: set_manual_def split: option.splits)

lemma final_artist_keeps:
  "k \<noteq> ''artist'' \<Longrightarrow> sget (final_artist manual_artist md) k = sget md k"
  by (simp add: final_artist_def)

lemma assign_tags_keeps:
  "k \<notin> set keys \<Longrightarrow> sget (fst (assign_tags tags manual_artist keys md)) k = sget md k"
  by (induction keys arbitrary: md) (auto split: sum.splits)

lemma read_basic_tags_keeps:
  assumes "k \<notin> set text_keys"
  shows "sget (read_basic_tags e manual_artist p md f) k = sget md k"
proof -
  from assms have k: "k \<noteq> ''artist''" by (auto simp: text_keys_def)
  show ?thesis
  proof (cases rule: read_basic_tags_cases [where e = e and f = f and p = p and md = md
        and manual_artist = manual_artist])
    case (raises ex)
    with k show ?thesis by (simp add: set_manual_keeps)
  next
    case (assigned tags md' raised)
    with assign_tags_keeps [OF assms, of tags manual_artist md] have "sget md' k = sget md k"
      by simp
    with k assigned show ?thesis by (simp add: set_manual_keeps)
  qed
qed

section \<open>What the resolver does to the disk\<close>

text \<open>
  The file \<^verbatim>\<open>covers/<id>.<ext>\<close>, and the effect of the resolver on record
  and disk: either the record has no cover and the disk is as it was, or the
  record names \<^verbatim>\<open>/covers/<id>.<ext>\<close> for an allowed extension and the disk
  is the old one with that file written.
\<close>

definition cover_target :: "string \<Rightarrow> string \<Rightarrow> string" where
  "cover_target song_id ext = path_str (joinpath (Path COVERS_FOLDER) (song_id @ ''.'' @ ext))"

definition cover_effect :: "string \<Rightarrow> pydict \<Rightarrow> fs \<Rightarrow> pydict \<Rightarrow> fs \<Rightarrow> bool" where
  "cover_effect song_id md f md' f' \<longleftrightarrow>
     md' = md \<and> f' = f \<or>
     (\<exists>ext \<in> set ALLOWED_COVER_EXTENSIONS. \<exists>c.
        md' = sset md ''coverSrc'' (cover_src_of (song_id @ ''.'' @ ext)) \<and>
        fs_write f (cover_target song_id ext) c = Inr f')"

lemma cover_effect_refl [simp]: "cover_effect song_id md f md f"
  by (simp add: cover_effect_def)

lemma cover_effect_written:
  "ext \<in> set ALLOWED_COVER_EXTENSIONS \<Longrightarrow> fs_write f (cover_target song_id ext) c = Inr f' \<Longrightarrow>
   cover_effect song_id md f (sset md ''coverSrc'' (cover_src_of (song_id @ ''.'' @ ext))) f'"
  by (auto simp: cover_effect_def)

lemmas cover_effect_writtenI = cover_effect_written [unfolded cover_target_def, simplified]

lemma cover_effectE [consumes 1, case_names none written]:
  assumes "cover_effect song_id md f md' f'"
  obtains "md' = md" and "f' = f"
  | ext c where "ext \<in> set ALLOWED_COVER_EXTENSIONS"
      and "md' = sset md ''coverSrc'' (cover_src_of (song_id @ ''.'' @ ext))"
      and "fs_write f (cover_target song_id ext) c = Inr f'"
  using assms by (auto simp: cover_effect_def)

lemma cover_effect_record:
  "cover_effect song_id md f md' f' \<Longrightarrow> song_record song_id name md \<Longrightarrow>
   song_record song_id name md'"
  by (auto elim!: cover_effectE intro: song_record_set_cover)

lemma cover_effect_keeps:
  "cover_effect song_id md f md' f' \<Longrightarrow> k \<noteq> ''coverSrc'' \<Longrightarrow> sget md' k = sget md k"
  by (auto elim!: cover_effectE)

lemma cover_effect_fs_ok: "cover_effect song_id md f md' f' \<Longrightarrow> fs_ok f \<Longrightarrow> fs_ok f'"
  by (auto elim!: cover_effectE intro: fs_ok_write)

lemma allowed_cover_ext:
  "allowed_cover_file name \<Longrightarrow>
   lower (rsplit1 (CHR ''.'') name ! Suc 0) \<in> set ALLOWED_COVER_EXTENSIONS"
  by (simp add: allowed_cover_file_def)

lemma save_uploaded_cover_effect:
  assumes "save_uploaded_cover song_id c md f = (md', saved, f')"
  shows "cover_effect song_id md f md' f'" and "\<not> saved \<Longrightarrow> md' = md \<and> f' = f"
  using assms
  by (auto simp: save_uploaded_cover_def storage_save_def Let_def
      intro: cover_effect_writtenI allowed_cover_ext
      split: option.splits if_splits sum.splits)

lemma scan_covers_effect:
  "cover_effect song_id md f (fst (scan_covers song_id frames md f)) (snd (scan_covers song_id frames md f))"
  by (induction song_id frames md f rule: scan_covers.induct)
    (auto simp: Let_def intro: cover_effect_writtenI split: frame.splits sum.splits)

lemma embedded_cover_effect:
  "cover_effect song_id md f (fst (embedded_cover e song_id p md f)) (snd (embedded_cover e song_id p md f))"
  by (simp add: embedded_cover_def scan_covers_effect split: mp3_result.splits)

section \<open>The branches of get\_song\_metadata\<close>

text \<open>
  The four ways through the function: the uploaded cover was saved and the
  tags are read; no cover was saved, the tags are read and the pictures of
  the tag scanned; there is no tag reader; the stored file is no file.
\<close>

lemma get_song_metadata_cases [case_names uploaded scanned no_reader no_file]:
  fixes e name song_id manual_artist c f
  defines "p \<equiv> joinpath (Path UPLOAD_FOLDER) name"
    and "seed \<equiv> seed_metadata name song_id"
    and "r \<equiv> get_song_metadata e name song_id manual_artist c f"
  obtains md1 f1 where "save_uploaded_cover song_id c seed f = (md1, True, f1)"
      and "MUTAGEN_AVAILABLE e" and "path_is_file f1 p"
      and "r = (final_artist manual_artist (read_basic_tags e manual_artist p md1 f1), f1)"
  | m where "save_uploaded_cover song_id c seed f = (seed, False, f)"
      and "MUTAGEN_AVAILABLE e" and "path_is_file f p"
      and "m = read_basic_tags e manual_artist p seed f"
      and "r = (final_artist manual_artist (fst (embedded_cover e song_id p m f)),
                snd (embedded_cover e song_id p m f))"
  | md1 saved f1 where "save_uploaded_cover song_id c seed f = (md1, saved, f1)"
      and "\<not> MUTAGEN_AVAILABLE e"
      and "r = (final_artist manual_artist (sset md1 ''artist''
                  (PStr (manual_or manual_artist ''N/A (mutagen not installed)''))), f1)"
  | md1 saved f1 where "save_uploaded_cover song_id c seed f = (md1, saved, f1)"
      and "MUTAGEN_AVAILABLE e" and "\<not> path_is_file f1 p"
      and "r = (final_artist manual_artist (sset md1 ''artist''
                  (PStr (manual_or manual_artist ''N/A (File missing?)''))), f1)"
proof -
  obtain md1 saved f1 where s: "save_uploaded_cover song_id c seed f = (md1, saved, f1)"
    by (cases "save_uploaded_cover song_id c seed f") auto
  note eq = get_song_metadata_def [of e name song_id manual_artist c f, folded p_def seed_def r_def]
  consider "MUTAGEN_AVAILABLE e" "path_is_file f1 p" "saved"
    | "MUTAGEN_AVAILABLE e" "path_is_file f1 p" "\<not> saved"
    | "\<not> MUTAGEN_AVAILABLE e" | "MUTAGEN_AVAILABLE e" "\<not> path_is_file f1 p"
    by blast
  then show thesis
  proof cases
    case 1
    with s show thesis by (intro that(1) [of md1 f1]) (simp_all add: eq)
  next
    case 2
    with save_uploaded_cover_effect(2) [OF s] s show thesis
      by (intro that(2) [OF _ _ _ refl]) (simp_all add: eq case_prod_unfold Let_def)
  next
    case 3
    with s show thesis by (intro that(3) [of md1 saved f1]) (simp_all add: eq)
  next
    case 4
    with s show thesis by (intro that(4) [of md1 saved f1]) (simp_all add: eq)
  qed
qed


lemma save_uploaded_cover_record:
  "save_uploaded_cover song_id c (seed_metadata name song_id) f = (md1, saved, f1) \<Longrightarrow>
   song_record song_id name md1"
  by (drule save_uploaded_cover_effect(1), erule cover_effect_record) (rule song_record_seed)

lemma get_song_metadata_shape:
  "song_record song_id name (fst (get_song_metadata e name song_id manual_artist c f))"
proof (cases rule: get_song_metadata_cases [of song_id c name f e manual_artist])
  case (uploaded md1 f1)
  from save_uploaded_cover_record [OF uploaded(1)] uploaded(4) show ?thesis
    by (simp add: song_record_final_artist read_basic_tags_record)
next
  case (scanned m)
  have "song_record song_id name m"
    unfolding scanned(4) by (intro read_basic_tags_record song_record_seed)
  with embedded_cover_effect have "song_record song_id name
     (fst (embedded_cover e song_id (joinpath (Path UPLOAD_FOLDER) name) m f))"
    by (rule cover_effect_record)
  with scanned(5) show ?thesis by (simp add: song_record_final_artist)
next
  case (no_reader md1 saved f1)
  from save_uploaded_cover_record [OF no_reader(1)] no_reader(3) show ?thesis
    by (simp add: song_record_final_artist song_record_set_text text_keys_def)
next
  case (no_file md1 saved f1)
  from save_uploaded_cover_record [OF no_file(1)] no_file(4) show ?thesis
    by (simp add: song_record_final_artist song_record_set_text text_keys_def)
qed

section \<open>The cover of the record and the disk\<close>

text \<open>
  What the record says of the cover and what is on the disk agree: either
  \<^verbatim>\<open>coverSrc\<close> is \<^verbatim>\<open>None\<close> and the disk is as it was, or \<^verbatim>\<open>coverSrc\<close> is
  \<^verbatim>\<open>/covers/<id>.<ext>\<close> and the disk is the old one with the file
  \<^verbatim>\<open>covers/<id>.<ext>\<close> written.
\<close>

definition cover_resolved :: "string \<Rightarrow> pydict \<Rightarrow> fs \<Rightarrow> fs \<Rightarrow> bool" where
  "cover_resolved song_id md f f' \<longleftrightarrow>
     sget md ''coverSrc'' = Some PNone \<and> f' = f \<or>
     (\<exists>ext \<in> set ALLOWED_COVER_EXTENSIONS. \<exists>c.
        sget md ''coverSrc'' = Some (cover_src_of (song_id @ ''.'' @ ext)) \<and>
        fs_write f (cover_target song_id ext) c = Inr f')"

lemma cover_effect_resolved:
  "cover_effect song_id md f md' f' \<Longrightarrow> sget md ''coverSrc'' = Some PNone \<Longrightarrow>
   cover_resolved song_id md' f f'"
  by (erule cover_effectE) (auto simp: cover_resolved_def)

lemma cover_resolved_cong:
  "cover_resolved song_id md f f' \<Longrightarrow> sget md' ''coverSrc'' = sget md ''coverSrc'' \<Longrightarrow>
   cover_resolved song_id md' f f'"
  by (simp add: cover_resolved_def)

lemma cover_resolved_text:
  "cover_resolved song_id md f f' \<Longrightarrow> k \<in> set text_keys \<Longrightarrow>
   cover_resolved song_id (sset md k v) f f'"
  by (erule cover_resolved_cong) (auto simp: text_keys_def)

lemma cover_resolved_tags:
  "cover_resolved song_id md f f' \<Longrightarrow>
   cover_resolved song_id (read_basic_tags e manual_artist p md f1) f f'"
  by (erule cover_resolved_cong) (simp add: read_basic_tags_keeps text_keys_def)

lemma cover_resolved_final:
  "cover_resolved song_id md f f' \<Longrightarrow> cover_resolved song_id (final_artist manual_artist md) f f'"
  by (erule cover_resolved_cong) (simp add: final_artist_keeps)

lemma sget_seed_cover [simp]: "sget (seed_metadata name song_id) ''coverSrc'' = Some PNone"
  by (simp add: seed_metadata_def)

lemma save_uploaded_cover_resolved:
  "save_uploaded_cover song_id c (seed_metadata name song_id) f = (md1, saved, f1) \<Longrightarrow>
   cover_resolved song_id md1 f f1"
  by (drule save_uploaded_cover_effect(1), erule cover_effect_resolved) simp

lemma get_song_metadata_resolved:
  "cover_resolved song_id (fst (get_song_metadata e name song_id manual_artist c f)) f
     (snd (get_song_metadata e name song_id manual_artist c f))"
proof (cases rule: get_song_metadata_cases [of song_id c name f e manual_artist])
  case (uploaded md1 f1)
  from save_uploaded_cover_resolved [OF uploaded(1)] uploaded(4) show ?thesis
    by (simp add: cover_resolved_final cover_resolved_tags)
next
  case (scanned m)
  have "sget m ''coverSrc'' = Some PNone"
    unfolding scanned(4) by (simp add: read_basic_tags_keeps text_keys_def)
  with embedded_cover_effect have "cover_resolved song_id
     (fst (embedded_cover e song_id (joinpath (Path UPLOAD_FOLDER) name) m f)) f
     (snd (embedded_cover e song_id (joinpath (Path UPLOAD_FOLDER) name) m f))"
    by (rule cover_effect_resolved)
  with scanned(5) show ?thesis by (simp add: cover_resolved_final)
next
  case (no_reader md1 saved f1)
  from save_uploaded_cover_resolved [OF no_reader(1)] no_reader(3) show ?thesis
    by (simp add: cover_resolved_final cover_resolved_text text_keys_def)
next
  case (no_file md1 saved f1)
  from save_uploaded_cover_resolved [OF no_file(1)] no_file(4) show ?thesis
    by (simp add: cover_resolved_final cover_resolved_text text_keys_def)
qed

lemma get_song_metadata_resolvedD:
  "get_song_metadata e name song_id manual_artist c f = (md, f') \<Longrightarrow>
   cover_resolved song_id md f f'"
  using get_song_metadata_resolved [of song_id e name manual_artist c f] by simp

lemma get_song_metadata_shapeD:
  "get_song_metadata e name song_id manual_artist c f = (md, f') \<Longrightarrow>
   song_record song_id name md"
  using get_song_metadata_shape [of song_id name e manual_artist c f] by simp

section \<open>The artist\<close>

lemma manual_or_given [simp]: "given (Some a) \<Longrightarrow> manual_or (Some a) d = a"
  by (simp add: given_def manual_or_def)

lemma manual_or_not_given [simp]: "\<not> given manual_artist \<Longrightarrow> manual_or manual_artist d = d"
  by (auto simp: given_def manual_or_def split: option.splits)

lemma set_manual_given: "given (Some a) \<Longrightarrow> sget (set_manual (Some a) md) ''artist'' = Some (PStr a)"
  by (simp add: given_def set_manual_def)

lemma assign_tags_artist:
  assumes "given (Some a)"
    and "assign_tags tags (Some a) text_keys md = (md', False)"
  shows "sget md' ''artist'' = Some (PStr a)"
  using assms by (auto simp: text_keys_def split: sum.splits if_splits)

lemma read_basic_tags_artist:
  assumes "given (Some a)"
  shows "sget (read_basic_tags e (Some a) p md f) ''artist'' = Some (PStr a)"
proof (cases rule: read_basic_tags_cases [where e = e and f = f and p = p and md = md
        and manual_artist = "Some a"])
  case (raises ex)
  with assms show ?thesis by (simp add: set_manual_given)
next
  case (assigned tags md' raised)
  with assms assign_tags_artist [OF assms, of tags md md'] show ?thesis
    by (cases raised) (simp_all add: set_manual_given)
qed

lemma final_artist_given:
  assumes "given (Some a)" and "sget md ''artist'' = Some (PStr a)"
  shows "sget (final_artist (Some a) md) ''artist'' = Some (PStr a)"
  using assms by (simp add: final_artist_def)

lemma get_song_metadata_artist:
  assumes "given (Some a)"
  shows "sget (fst (get_song_metadata e name song_id (Some a) c f)) ''artist'' = Some (PStr a)"
proof (cases rule: get_song_metadata_cases [of song_id c name f e "Some a"])
  case (uploaded md1 f1)
  with assms show ?thesis by (simp add: final_artist_given read_basic_tags_artist)
next
  case (scanned m)
  from assms have "sget m ''artist'' = Some (PStr a)"
    unfolding scanned(4) by (rule read_basic_tags_artist)
  with cover_effect_keeps [OF embedded_cover_effect, of "''artist''"] scanned(5) assms
  show ?thesis by (simp add: final_artist_given)
next
  case (no_reader md1 saved f1)
  with assms show ?thesis by (simp add: final_artist_given)
next
  case (no_file md1 saved f1)
  with assms show ?thesis by (simp add: final_artist_given)
qed

section \<open>The scan as a search\<close>

text \<open>
  The loop of lines 178--201 stated without the loop: the frame it stops at
  is the first whose name starts with \<^verbatim>\<open>APIC\<close> and which is either a
  picture of an allowed type or no picture at all (reading its MIME type
  raises); \<^verbatim>\<open>write_picture\<close> is what happens at that frame.
\<close>

definition stops_scan :: "string \<times> frame \<Rightarrow> bool" where
  "stops_scan tf \<longleftrightarrow>
     startswith (fst tf) ''APIC'' \<and>
     (case snd tf of
        APIC mime_type image_data \<Rightarrow> mime_ext mime_type \<in> set ALLOWED_COVER_EXTENSIONS
      | OtherFrame \<Rightarrow> True)"

definition write_picture :: "string \<Rightarrow> frame \<Rightarrow> pydict \<Rightarrow> fs \<Rightarrow> pydict \<times> fs" where
  "write_picture song_id fr metadata f =
     (case fr of
        APIC mime_type image_data \<Rightarrow>
          (case fs_write f (cover_target song_id (mime_ext mime_type)) (Bytes image_data) of
             Inr f' \<Rightarrow>
               (sset metadata ''coverSrc'' (cover_src_of (song_id @ ''.'' @ mime_ext mime_type)), f')
           | Inl ex \<Rightarrow> (metadata, f))
      | OtherFrame \<Rightarrow> (metadata, f))"

definition first_picture :: "string \<Rightarrow> (string \<times> frame) list \<Rightarrow> pydict \<Rightarrow> fs \<Rightarrow> pydict \<times> fs" where
  "first_picture song_id frames metadata f =
     (case find stops_scan frames of
        None \<Rightarrow> (metadata, f)
      | Some tf \<Rightarrow> write_picture song_id (snd tf) metadata f)"

lemma scan_covers_Cons:
  "scan_covers song_id (tf # rest) md f =
     (if stops_scan tf then write_picture song_id (snd tf) md f
      else scan_covers song_id rest md f)"
  by (cases tf)
    (auto simp: stops_scan_def write_picture_def cover_target_def Let_def
      split: frame.splits sum.splits)

lemma scan_covers_find: "scan_covers song_id frames md f = first_picture song_id frames md f"
  by (induction frames) (simp_all add: first_picture_def scan_covers_Cons del: scan_covers.simps(2))

lemma scan_covers_skip:
  assumes "startswith tag_name ''APIC''" and "mime_ext mime_type \<notin> set ALLOWED_COVER_EXTENSIONS"
  shows "scan_covers song_id ((tag_name, APIC mime_type image_data) # rest) md f =
         scan_covers song_id rest md f"
  using assms by simp

text \<open>A cover the record names is a file of the disk afterwards.\<close>

lemma cover_src_of_inj [simp]: "cover_src_of a = cover_src_of b \<longleftrightarrow> a = b"
  by (simp add: cover_src_of_def)

lemma cover_resolved_exists:
  assumes "cover_resolved song_id md f f'"
    and "sget md ''coverSrc'' = Some (cover_src_of (song_id @ ''.'' @ ext))"
  shows "\<exists>c. stat f' (cover_target song_id ext) = Some (realpath f (cover_target song_id ext), File c)"
  using assms by (auto simp: cover_resolved_def cover_src_of_def dest: fs_write_stat)

lemma cover_resolved_fs_ok: "cover_resolved song_id md f f' \<Longrightarrow> fs_ok f \<Longrightarrow> fs_ok f'"
  by (auto simp: cover_resolved_def intro: fs_ok_write)

lemma cover_resolved_none:
  "cover_resolved song_id md f f' \<Longrightarrow> sget md ''coverSrc'' = Some PNone \<Longrightarrow> f' = f"
  by (auto simp: cover_resolved_def cover_src_of_def)

text \<open>A record of the resolver is a record the catalog accepts.\<close>

lemma song_record_values:
  assumes "song_record song_id name md" and "(k, v) \<in> set md"
  shows "is_str v \<or> v = PNone"
proof -
  from assms(1) have keys: "map fst md = map PStr record_keys" by (simp add: song_record_def)
  then have ok: "dict_ok md"
    by (simp add: dict_ok_def dict_keys_def record_keys_def flip: map_map)
  from keys assms(2) have "k \<in> PStr ` set record_keys"
    by (metis image_eqI fst_conv list.set_map)
  then obtain s where s: "k = PStr s" "s \<in> set record_keys" by auto
  from ok assms(2) have "sget md s = Some v" unfolding s(1) by (rule dict_get_in_set)
  with assms(1) s(2) show ?thesis
    by (auto simp: song_record_def record_keys_def text_keys_def cover_src_of_def list_ex_iff)
qed

lemma song_record_json_ok:
  assumes "song_record song_id name md"
  shows "json_ok (PDict md)"
proof -
  from assms have keys: "map fst md = map PStr record_keys" by (simp add: song_record_def)
  then have "dict_ok md"
    by (simp add: dict_ok_def dict_keys_def record_keys_def flip: map_map)
  moreover have "is_str k" if "(k, v) \<in> set md" for k v
  proof -
    from that have "k \<in> set (map fst md)" by force
    then show ?thesis unfolding keys by auto
  qed
  then have "str_keys md" by (auto simp: str_keys_def list_all_iff)
  moreover have "json_ok v" if "(k, v) \<in> set md" for k v
    using song_record_values [OF assms that] by (auto simp: is_str_iff)
  ultimately show ?thesis by (auto simp: json_ok_PDict list_all_iff)
qed

lemma song_record_normal:
  assumes "song_record song_id name md" and "10 \<le> length song_id"
  shows "song_normal (PStr song_id) (PDict md)"
  using assms song_record_has [OF assms(1), of "''audioSrc''"]
  by (auto simp: song_record_def id_ok_def audio_ok_def cover_ok_def cover_src_of_def
      record_keys_def list_ex_iff)

section \<open>An example\<close>

text \<open>
  The stored file \<^verbatim>\<open>blue.mp3\<close> of the example installation resolved with
  the manual artist \<^verbatim>\<open>Bo\<close> and no uploaded cover: the title comes from the
  tag, the artist from the form, and the picture of the tag is written.
\<close>

definition resolved_song :: pydict where
  "resolved_song =
     [(PStr ''id'', PStr (demo_uuid 0)), (PStr ''filename'', PStr ''blue.mp3''),
      (PStr ''title'', PStr ''Blue''), (PStr ''artist'', PStr ''Bo''),
      (PStr ''album'', PStr ''Unknown Album''), (PStr ''genre'', PStr ''Unknown Genre''),
      (PStr ''audioSrc'', PStr ''/uploads/blue.mp3''),
      (PStr ''coverSrc'', PStr (''/covers/'' @ demo_uuid 0 @ ''.jpg''))]"

definition two_pictures :: "(string \<times> frame) list" where
  "two_pictures =
     [(''APIC:front'', APIC ''image/bmp'' ''BM''), (''APIC:back'', APIC ''image/png'' ''PNG'')]"

lemma resolve_demo:
  "fst (get_song_metadata demo_env ''blue.mp3'' (demo_uuid 0) (Some ''Bo'') None demo_fs) =
     resolved_song"
  by code_simp

lemma resolve_demo_disk:
  "fs_read (snd (get_song_metadata demo_env ''blue.mp3'' (demo_uuid 0) (Some ''Bo'') None demo_fs))
     (cover_target (demo_uuid 0) ''jpg'') = Inr (Bytes ''JFIF'')"
  by code_simp

text \<open>A tag with a picture of a type that is not allowed before one of an
  allowed type: the scan passes the first and writes the second.\<close>

lemma scan_two_pictures:
  "sget (fst (scan_covers demo_id two_pictures demo_song demo_fs)) ''coverSrc'' =
     Some (PStr (''/covers/'' @ demo_id @ ''.png''))"
  by code_simp

section \<open>Properties of the metadata resolver\<close>

text \<open>C28: The record \<^verbatim>\<open>get_song_metadata\<close> returns has the eight keys of a
  song in their order, the identifier and the file name it was given, the
  audio path \<^verbatim>\<open>/uploads/<name>\<close>, strings under title, artist, album and
  genre, and under \<^verbatim>\<open>coverSrc\<close> either \<^verbatim>\<open>None\<close> or \<^verbatim>\<open>/covers/<id>.<ext>\<close>
  with an allowed extension, whatever the disk holds and the tag reader does.\<close>

theorem get_song_metadata_record:
  "song_record song_id name (fst (get_song_metadata e name song_id manual_artist c f))"
  by (rule get_song_metadata_shape)

text \<open>C30: A manual artist that is not empty is the artist of the record, on
  every path through \<^verbatim>\<open>get_song_metadata\<close>: with or without a tag reader,
  whether the tags can be read or not.\<close>

theorem get_song_metadata_manual_artist:
  assumes "given (Some a)"
  shows "sget (fst (get_song_metadata e name song_id (Some a) c f)) ''artist'' = Some (PStr a)"
  using assms by (rule get_song_metadata_artist)

theorem get_song_metadata_manual_artist_witness:
  "given (Some ''Bo'') \<and>
   sget (fst (get_song_metadata demo_env ''blue.mp3'' (demo_uuid 0) (Some ''Bo'') None demo_fs))
     ''artist'' = Some (PStr ''Bo'')"
  using get_song_metadata_manual_artist [of "''Bo''" demo_env "''blue.mp3''" "demo_uuid 0" None demo_fs]
  by (simp add: given_def)

text \<open>C29: The cover of the record and the disk agree after
  \<^verbatim>\<open>get_song_metadata\<close>: either \<^verbatim>\<open>coverSrc\<close> is \<^verbatim>\<open>None\<close> and the disk is
  unchanged, or \<^verbatim>\<open>coverSrc\<close> is \<^verbatim>\<open>/covers/<id>.<ext>\<close> for an allowed
  extension and the disk is the old one after one successful write of
  \<^verbatim>\<open>uploads/covers/<id>.<ext>\<close>. The function writes no other file.\<close>

theorem get_song_metadata_cover:
  "cover_resolved song_id (fst (get_song_metadata e name song_id manual_artist c f)) f
     (snd (get_song_metadata e name song_id manual_artist c f))"
  by (rule get_song_metadata_resolved)

text \<open>C31: The loop over the frames of the tag does what a search does: it
  acts on the first frame named \<^verbatim>\<open>APIC...\<close> that is a picture of an allowed
  type or no picture, and on no other frame; a picture of a type that is not
  allowed does not end the search.\<close>

theorem scan_covers_first_picture:
  "scan_covers song_id frames md f = first_picture song_id frames md f"
  by (rule scan_covers_find)

end
