(* ===== verification/Upload_Handler.thy ===== *)
theory Upload_Handler
  imports Metadata_Resolver Upload_Paths
begin

text \<open>
  The view \<^verbatim>\<open>upload_file\<close> of \<^verbatim>\<open>src/app.py\<close> (lines 220--282): the
  checks of the request, the loop that looks for a file name that is free,
  the steps that store the file, resolve its record and file it in the
  catalog, and the handler that removes the stored files when one of the
  steps raises. The loop is a partial function: a run that never finds a
  free name is the value \<^verbatim>\<open>None\<close>, and that there is none is a theorem.
\<close>

section \<open>The request\<close>

text \<open>
  \<^verbatim>\<open>request.files\<close> and \<^verbatim>\<open>request.form\<close>: the fields of the form in the
  order they were sent; a lookup finds the first field of a name.
\<close>

record upload_request =
  files :: "(string \<times> file_storage) list"
  form :: "(string \<times> string) list"

text \<open>Lines 227 and 228: the artist typed into the form, without the white
  space around it, and the cover that was sent.\<close>

definition artist_field :: "upload_request \<Rightarrow> string" where
  "artist_field req =
     strip (case map_of (form req) ''artistName'' of Some a \<Rightarrow> a | None \<Rightarrow> [])"

definition cover_field :: "upload_request \<Rightarrow> file_storage option" where
  "cover_field req = map_of (files req) ''coverFile''"

text \<open>\<^verbatim>\<open>', '.join(xs)\<close>.\<close>

fun comma_join :: "string list \<Rightarrow> string" where
  "comma_join [] = []"
| "comma_join [x] = x"
| "comma_join (x # y # ys) = x @ '', '' @ comma_join (y # ys)"

text \<open>The messages of lines 233 and 236; the allowed extensions are a set,
  which the message lists in the order the set iterates.\<close>

definition mp3_not_allowed :: "string \<Rightarrow> string" where
  "mp3_not_allowed name = ''MP3 file type not allowed for '' @ quoted name"

definition cover_not_allowed :: "env \<Rightarrow> string \<Rightarrow> string" where
  "cover_not_allowed e name =
     ''Cover file type not allowed for '' @ quoted name @ ''. Use ''
       @ comma_join (set_order e ALLOWED_COVER_EXTENSIONS) @ ''.''"

section \<open>A free file name\<close>

text \<open>Line 243: the name tried in the round with the given counter.\<close>

definition numbered :: "string \<Rightarrow> string \<Rightarrow> nat \<Rightarrow> string" where
  "numbered base ext counter = base @ ''_'' @ str_of_nat counter @ ext"

text \<open>
  Lines 241--245: while the path exists, the next name is tried. The state of
  the loop is the file name and the counter; \<^verbatim>\<open>save_path\<close> is the path
  of the file name in the upload folder.
\<close>

partial_function (option) free_name ::
  "fs \<Rightarrow> string \<Rightarrow> string \<Rightarrow> string \<Rightarrow> nat \<Rightarrow> (string \<times> nat) option" where
  "free_name f base ext filename counter =
     (if path_exists f (joinpath (Path UPLOAD_FOLDER) filename)
      then free_name f base ext (numbered base ext counter) (Suc counter)
      else Some (filename, counter))"

declare free_name.simps [code]

text \<open>Lines 238--245: the name the file is stored under. The counter starts
  at 1.\<close>

definition stored_name :: "fs \<Rightarrow> string \<Rightarrow> (string \<times> nat) option" where
  "stored_name f name =
     (let filename = secure_filename name;
          (base, ext) = splitext filename
      in free_name f base ext filename 1)"

section \<open>The steps under try\<close>

text \<open>
  Line 256, \<^verbatim>\<open>library_data["songs"][song_id] = metadata\<close>: the catalog
  must have the key and a dictionary under it.
\<close>

definition set_song :: "pydict \<Rightarrow> string \<Rightarrow> pydict \<Rightarrow> pydict result" where
  "set_song library_data song_id metadata =
     (case sget library_data ''songs'' of
        None \<Rightarrow> Inl (KeyError (quoted ''songs''))
      | Some (PDict songs) \<Rightarrow>
          Inr (sset library_data ''songs'' (PDict (dict_set songs (PStr song_id) (PDict metadata))))
      | Some (PList vs) \<Rightarrow> Inl (TypeError ''list indices must be integers or slices, not str'')
      | Some v \<Rightarrow>
          Inl (TypeError (quoted (type_name v) @ '' object does not support item assignment'')))"

text \<open>The body of the answer 201 (line 258).\<close>

definition uploaded_body :: "string \<Rightarrow> pydict \<Rightarrow> pyval" where
  "uploaded_body filename metadata =
     PDict [(PStr ''success'', PBool True),
            (PStr ''message'', PStr (''File '' @ quoted filename @ '' uploaded.'')),
            (PStr ''song'', PDict metadata)]"

text \<open>
  Lines 256--260: the record is filed under its identifier and the catalog
  saved; a save that returns \<^verbatim>\<open>False\<close> raises.
\<close>

definition file_song ::
  "string \<Rightarrow> string \<Rightarrow> pydict \<Rightarrow> pydict \<Rightarrow> world \<Rightarrow> response result \<times> world" where
  "file_song filename song_id metadata library_data w =
     (case set_song library_data song_id metadata of
        Inl ex \<Rightarrow> (Inl ex, w)
      | Inr library_data' \<Rightarrow>
          (case save_library library_data' LIBRARY_FILE (disk w) of
             Inl ex \<Rightarrow> (Inl ex, w)
           | Inr (ok, seen, f') \<Rightarrow>
               if ok then (Inr (Json 201 (uploaded_body filename metadata)), w\<lparr>disk := f'\<rparr>)
               else (Inl (OSError ''Failed to save library data after processing.''),
                     w\<lparr>disk := f'\<rparr>)))"

text \<open>
  Lines 249--260. The result is the answer or the exception that ends the
  steps, the value of \<^verbatim>\<open>metadata\<close> at that moment (\<^verbatim>\<open>None\<close> until line
  253 has assigned it), and the world. \<^verbatim>\<open>manual_artist_name or None\<close> is
  \<^verbatim>\<open>None\<close> for the empty name.
\<close>

definition try_upload ::
  "env \<Rightarrow> file_storage \<Rightarrow> string \<Rightarrow> string \<Rightarrow> file_storage option \<Rightarrow> world
     \<Rightarrow> response result \<times> pydict option \<times> world" where
  "try_upload e mp3_file filename manual_artist_name cover_file w =
     (case storage_save mp3_file (joinpath (Path UPLOAD_FOLDER) filename) (disk w) of
        Inl ex \<Rightarrow> (Inl ex, None, w)
      | Inr f1 \<Rightarrow>
          let (song_id, w1) = new_uuid e (w\<lparr>disk := f1\<rparr>);
              (metadata, f2) =
                 get_song_metadata e filename song_id
                   (if manual_artist_name = [] then None else Some manual_artist_name)
                   cover_file (disk w1)
          in (case load_library e LIBRARY_FILE (w1\<lparr>disk := f2\<rparr>) of
                (Inl ex, w2) \<Rightarrow> (Inl ex, Some metadata, w2)
              | (Inr library_data, w2) \<Rightarrow>
                  (case file_song filename song_id metadata library_data w2 of
                     (r, w3) \<Rightarrow> (r, Some metadata, w3))))"

section \<open>The handler of the exception\<close>

text \<open>Lines 264--269: the stored file is removed if it exists; an
  \<^verbatim>\<open>OSError\<close> of the removal is printed, and every exception of
  \<^const>\<open>os_remove\<close> is one.\<close>

definition cleanup_mp3 :: "path \<Rightarrow> fs \<Rightarrow> fs" where
  "cleanup_mp3 save_path f =
     (if path_exists f save_path
      then (case os_remove f (path_str save_path) of Inr f' \<Rightarrow> f' | Inl ex \<Rightarrow> f)
      else f)"

text \<open>Lines 271--280: the cover the record names is removed if it is a file
  of the disk. A cover that is true and no string has no \<^verbatim>\<open>lstrip\<close>.\<close>

definition cleanup_cover :: "pydict option \<Rightarrow> fs \<Rightarrow> fs result" where
  "cleanup_cover metadata f =
     (case metadata of
        None \<Rightarrow> Inr f
      | Some md \<Rightarrow>
          if md = [] then Inr f
          else (case sget md ''coverSrc'' of
                  None \<Rightarrow> Inr f
                | Some cv \<Rightarrow>
                    if \<not> truthy cv then Inr f
                    else (case cv of
                            PStr cover_src \<Rightarrow>
                              let cover_path_rel = lstrip ''/'' cover_src in
                              if startswith cover_path_rel (COVERS_FOLDER_NAME @ ''/'') then
                                let cover_path_abs = joinpath (Path UPLOAD_FOLDER) cover_path_rel
                                in if path_exists f cover_path_abs \<and> path_is_file f cover_path_abs
                                   then (case os_remove f (path_str cover_path_abs) of
                                           Inr f' \<Rightarrow> Inr f' | Inl ex \<Rightarrow> Inr f)
                                   else Inr f
                              else Inr f
                          | _ \<Rightarrow> Inl (no_attribute cv ''lstrip''))))"

section \<open>upload\_file\<close>

text \<open>
  Lines 223--282. \<^verbatim>\<open>None\<close> is a run whose loop never ends; an exception
  that leaves the handler of line 262 leaves the view.
\<close>

definition upload_file :: "env \<Rightarrow> upload_request \<Rightarrow> world \<Rightarrow> (response \<times> world) option" where
  "upload_file e req w =
     (case map_of (files req) ''file'' of
        None \<Rightarrow> Some (Json 400 (error_body ''No MP3 file part''), w)
      | Some mp3_file \<Rightarrow>
          if storage_filename mp3_file = []
          then Some (Json 400 (error_body ''No selected MP3 file''), w)
          else if \<not> allowed_file (storage_filename mp3_file)
          then Some (Json 400 (error_body (mp3_not_allowed (storage_filename mp3_file))), w)
          else if (case cover_field req of
                     Some c \<Rightarrow> storage_true (cover_field req) \<and> storage_filename c \<noteq> []
                                 \<and> \<not> allowed_cover_file (storage_filename c)
                   | None \<Rightarrow> False)
          then Some (Json 400 (error_body
                       (cover_not_allowed e (case cover_field req of
                                               Some c \<Rightarrow> storage_filename c | None \<Rightarrow> []))), w)
          else
            (case stored_name (disk w) (storage_filename mp3_file) of
               None \<Rightarrow> None
             | Some (filename, counter) \<Rightarrow>
                 (case try_upload e mp3_file filename (artist_field req) (cover_field req) w of
                    (Inr answer, metadata, w') \<Rightarrow> Some (answer, w')
                  | (Inl ex, metadata, w') \<Rightarrow>
                      let f1 = cleanup_mp3 (joinpath (Path UPLOAD_FOLDER) filename) (disk w')
                      in (case cleanup_cover metadata f1 of
                            Inl ex' \<Rightarrow> Some (Unhandled ex', w'\<lparr>disk := f1\<rparr>)
                          | Inr f2 \<Rightarrow>
                              Some (Json 500 (error_body
                                      (''Failed to process file: '' @ exn_text ex)),
                                    w'\<lparr>disk := f2\<rparr>)))))"

lemmas [handler_defs] =
  artist_field_def cover_field_def file_song_def stored_name_def mp3_not_allowed_def
  cover_not_allowed_def numbered_def set_song_def uploaded_body_def
  try_upload_def cleanup_mp3_def cleanup_cover_def upload_file_def

section \<open>Facts about the numbered names\<close>

lemma numbered_inj: "numbered base ext j = numbered base ext k \<longleftrightarrow> j = k"
  by (auto simp: numbered_def dest: str_of_nat_inj)

lemma str_of_nat_no_slash: "CHR ''/'' \<notin> set (str_of_nat n)"
  using str_of_nat_digits [of n] by (auto simp: digits_def)

lemma numbered_name_ok:
  assumes "CHR ''/'' \<notin> set base" and "CHR ''/'' \<notin> set ext"
  shows "name_ok (numbered base ext k)"
proof -
  have "CHR ''_'' \<in> set (numbered base ext k)" by (simp add: numbered_def)
  then have "numbered base ext k \<noteq> []" "numbered base ext k \<noteq> ''.''" "numbered base ext k \<noteq> ''..''"
    by auto
  moreover from assms have "CHR ''/'' \<notin> set (numbered base ext k)"
    by (simp add: numbered_def str_of_nat_no_slash)
  ultimately show ?thesis by (simp add: name_ok_def)
qed

text \<open>A name is taken when its path in the upload folder exists.\<close>

definition taken :: "fs \<Rightarrow> string \<Rightarrow> bool" where
  "taken f name \<longleftrightarrow> path_exists f (joinpath (Path UPLOAD_FOLDER) name)"

lemma taken_node:
  "name_ok name \<Longrightarrow> taken f name \<Longrightarrow> cwd f @ [''uploads'', name] \<in> fst ` set (nodes f)"
  unfolding taken_def by (drule path_exists_node) (simp add: realpath_upload_path)

lemma free_name_unfold:
  "free_name f base ext filename counter =
     (if taken f filename then free_name f base ext (numbered base ext counter) (Suc counter)
      else Some (filename, counter))"
  by (subst free_name.simps) (simp add: taken_def)

text \<open>The loop runs through the numbered names up to the first that is free.\<close>

lemma free_name_run:
  assumes "j \<le> m"
    and "\<And>k. j \<le> k \<Longrightarrow> k < m \<Longrightarrow> taken f (numbered base ext k)"
    and "\<not> taken f (numbered base ext m)"
  shows "free_name f base ext (numbered base ext j) (Suc j) = Some (numbered base ext m, Suc m)"
  using assms
proof (induction rule: inc_induct)
  case base
  then show ?case by (subst free_name_unfold) simp
next
  case (step n)
  then show ?case by (subst free_name_unfold) simp
qed

text \<open>Among more numbered names than the disk has entries, one is free.\<close>

lemma free_numbered:
  assumes "CHR ''/'' \<notin> set base" and "CHR ''/'' \<notin> set ext"
  obtains m where "j \<le> m" and "m \<le> j + length (nodes f)"
    and "\<not> taken f (numbered base ext m)"
    and "\<And>k. j \<le> k \<Longrightarrow> k < m \<Longrightarrow> taken f (numbered base ext k)"
proof -
  let ?at = "\<lambda>k. cwd f @ [''uploads'', numbered base ext k]"
  have "\<exists>k. j \<le> k \<and> k \<le> j + length (nodes f) \<and> \<not> taken f (numbered base ext k)"
  proof (rule ccontr)
    assume "\<not> ?thesis"
    then have "?at ` {j..j + length (nodes f)} \<subseteq> fst ` set (nodes f)"
      by (auto intro!: taken_node numbered_name_ok assms)
    then have "card (?at ` {j..j + length (nodes f)}) \<le> card (fst ` set (nodes f))"
      by (intro card_mono) simp_all
    moreover have "inj_on ?at {j..j + length (nodes f)}"
      by (simp add: inj_on_def numbered_inj)
    then have "card (?at ` {j..j + length (nodes f)}) = Suc (length (nodes f))"
      by (simp add: card_image)
    moreover have "card (fst ` set (nodes f)) \<le> length (nodes f)"
      by (metis card_image_le card_length le_trans List.finite_set)
    ultimately show False by simp
  qed
  then have "\<exists>k. j \<le> k \<and> \<not> taken f (numbered base ext k)" by blast
  then obtain m where m: "j \<le> m \<and> \<not> taken f (numbered base ext m)"
    and least: "\<And>k. k < m \<Longrightarrow> \<not> (j \<le> k \<and> \<not> taken f (numbered base ext k))"
    using exists_least_iff [of "\<lambda>k. j \<le> k \<and> \<not> taken f (numbered base ext k)"] by blast
  from \<open>\<exists>k. j \<le> k \<and> k \<le> j + length (nodes f) \<and> \<not> taken f (numbered base ext k)\<close> least
  have "m \<le> j + length (nodes f)" by (meson not_le_imp_less le_trans less_imp_le)
  with m least that show thesis by blast
qed

text \<open>The loop ends, with the first name or with the first numbered name
  that is free.\<close>

lemma free_name_cases [consumes 2, case_names first numbered]:
  assumes "CHR ''/'' \<notin> set base" and "CHR ''/'' \<notin> set ext"
  obtains "\<not> taken f filename" and "free_name f base ext filename 1 = Some (filename, 1)"
  | m where "taken f filename" and "1 \<le> m" and "m \<le> Suc (length (nodes f))"
      and "\<not> taken f (numbered base ext m)"
      and "\<And>k. 1 \<le> k \<Longrightarrow> k < m \<Longrightarrow> taken f (numbered base ext k)"
      and "free_name f base ext filename 1 = Some (numbered base ext m, Suc m)"
proof (cases "taken f filename")
  case False
  then show ?thesis by (intro that(1)) (simp_all add: free_name_unfold)
next
  case True
  from assms obtain m where m: "1 \<le> m" "m \<le> 1 + length (nodes f)"
    "\<not> taken f (numbered base ext m)"
    "\<And>k. 1 \<le> k \<Longrightarrow> k < m \<Longrightarrow> taken f (numbered base ext k)"
    by (rule free_numbered [of base ext 1 f]) blast
  from m(1,4,3) have "free_name f base ext (numbered base ext 1) (Suc 1)
      = Some (numbered base ext m, Suc m)"
    by (rule free_name_run)
  with True have "free_name f base ext filename 1 = Some (numbered base ext m, Suc m)"
    by (subst free_name_unfold) simp
  with True m show ?thesis by (intro that(2) [of m]) simp_all
qed

lemma splitext_no_slash:
  assumes "CHR ''/'' \<notin> set name"
  shows "CHR ''/'' \<notin> set (fst (splitext name))" and "CHR ''/'' \<notin> set (snd (splitext name))"
proof -
  have "set (fst (splitext name)) \<union> set (snd (splitext name)) = set name"
    by (metis set_append splitext_concat)
  with assms show "CHR ''/'' \<notin> set (fst (splitext name))"
    and "CHR ''/'' \<notin> set (snd (splitext name))" by auto
qed

lemma stored_name_eq:
  "stored_name f name =
     free_name f (fst (splitext (secure_filename name))) (snd (splitext (secure_filename name)))
       (secure_filename name) 1"
  by (simp add: stored_name_def Let_def case_prod_unfold)

lemma stored_name_cases [case_names first numbered]:
  obtains "\<not> taken f (secure_filename name)"
      and "stored_name f name = Some (secure_filename name, 1)"
  | m base ext where "splitext (secure_filename name) = (base, ext)"
      and "taken f (secure_filename name)" and "1 \<le> m" and "m \<le> Suc (length (nodes f))"
      and "\<not> taken f (numbered base ext m)"
      and "\<And>k. 1 \<le> k \<Longrightarrow> k < m \<Longrightarrow> taken f (numbered base ext k)"
      and "stored_name f name = Some (numbered base ext m, Suc m)"
proof -
  let ?n = "secure_filename name"
  have "CHR ''/'' \<notin> set (fst (splitext ?n))" "CHR ''/'' \<notin> set (snd (splitext ?n))"
    by (rule splitext_no_slash, rule secure_filename_no_slash)+
  then show thesis
  proof (cases rule: free_name_cases [where f = f and filename = "secure_filename name"])
    case first
    then show ?thesis by (intro that(1)) (simp_all add: stored_name_eq)
  next
    case (numbered m)
    then show ?thesis
      by (intro that(2) [of "fst (splitext ?n)" "snd (splitext ?n)" m])
        (simp_all add: stored_name_eq)
  qed
qed

section \<open>Facts about the steps under try\<close>

lemma file_song_world:
  assumes "file_song filename song_id md d w = (r, w')"
  shows "writes_only (disk w) LIBRARY_FILE (disk w')" and "uuid_count w' = uuid_count w"
proof -
  have "writes_only (disk w) LIBRARY_FILE f'"
    if "save_library d' LIBRARY_FILE (disk w) = Inr (ok, seen, f')" for d' ok seen f'
    using that by (rule writes_only_save)
  with assms show "writes_only (disk w) LIBRARY_FILE (disk w')"
    by (auto simp: file_song_def split: sum.splits if_splits)
  from assms show "uuid_count w' = uuid_count w"
    by (auto simp: file_song_def split: sum.splits if_splits)
qed

lemma file_song_answer:
  "file_song filename song_id md d w = (Inr answer, w') \<Longrightarrow>
   answer = Json 201 (uploaded_body filename md)"
  by (auto simp: file_song_def split: sum.splits if_splits)

text \<open>The steps under try, one case for each way they end.\<close>

lemma try_upload_cases [case_names not_stored not_loaded filed]:
  fixes e mp3_file filename manual_artist_name cover_file w
  defines "song_id \<equiv> uuid4 e (uuid_count w)"
    and "manual \<equiv> (if manual_artist_name = [] then None else Some manual_artist_name)"
    and "r \<equiv> try_upload e mp3_file filename manual_artist_name cover_file w"
  obtains ex where
      "storage_save mp3_file (joinpath (Path UPLOAD_FOLDER) filename) (disk w) = Inl ex"
      and "r = (Inl ex, None, w)"
  | f1 md f2 ex w2 where
      "storage_save mp3_file (joinpath (Path UPLOAD_FOLDER) filename) (disk w) = Inr f1"
      and "get_song_metadata e filename song_id manual cover_file f1 = (md, f2)"
      and "load_library e LIBRARY_FILE (w\<lparr>uuid_count := Suc (uuid_count w), disk := f2\<rparr>) = (Inl ex, w2)"
      and "r = (Inl ex, Some md, w2)"
  | f1 md f2 d w2 res w3 where
      "storage_save mp3_file (joinpath (Path UPLOAD_FOLDER) filename) (disk w) = Inr f1"
      and "get_song_metadata e filename song_id manual cover_file f1 = (md, f2)"
      and "load_library e LIBRARY_FILE (w\<lparr>uuid_count := Suc (uuid_count w), disk := f2\<rparr>) = (Inr d, w2)"
      and "file_song filename song_id md d w2 = (res, w3)"
      and "r = (res, Some md, w3)"
proof (cases "storage_save mp3_file (joinpath (Path UPLOAD_FOLDER) filename) (disk w)")
  case (Inl ex)
  then show ?thesis by (intro that(1) [of ex]) (simp_all add: r_def try_upload_def)
next
  case (Inr f1)
  obtain md f2 where md: "get_song_metadata e filename song_id manual cover_file f1 = (md, f2)"
    by force
  obtain res w2 where l:
    "load_library e LIBRARY_FILE (w\<lparr>uuid_count := Suc (uuid_count w), disk := f2\<rparr>) = (res, w2)"
    by force
  show ?thesis
  proof (cases res)
    case (Inl ex)
    with Inr md l show ?thesis
      by (intro that(2) [of f1 md f2 ex w2])
        (simp_all add: r_def try_upload_def new_uuid_def song_id_def manual_def)
  next
    case d: (Inr d)
    obtain fr w3 where fs: "file_song filename song_id md d w2 = (fr, w3)" by force
    with Inr md l d show ?thesis
      by (intro that(3) [of f1 md f2 d w2 fr w3])
        (simp_all add: r_def try_upload_def new_uuid_def song_id_def manual_def)
  qed
qed

text \<open>The record at the end of the steps is a record of the resolver.\<close>

lemma try_upload_metadata:
  assumes "try_upload e mp3_file filename manual_artist_name cover_file w = (r, Some md, w')"
  shows "song_record (uuid4 e (uuid_count w)) filename md"
  using get_song_metadata_shape [of "uuid4 e (uuid_count w)" filename e _ cover_file] assms
  by (cases rule: try_upload_cases [of mp3_file filename w e manual_artist_name cover_file])
    (auto dest!: arg_cong [where f = fst])

section \<open>Facts about the handler of the exception\<close>

lemma cleanup_mp3_cases [case_names absent kept removed]:
  obtains "\<not> path_exists f p" and "cleanup_mp3 p f = f"
  | ex where "path_exists f p" and "os_remove f (path_str p) = Inl ex" and "cleanup_mp3 p f = f"
  | f' where "os_remove f (path_str p) = Inr f'" and "cleanup_mp3 p f = f'"
  by (cases "os_remove f (path_str p)"; cases "path_exists f p")
    (auto simp: cleanup_mp3_def path_exists_def os_path_exists_def os_remove_def
      split: option.splits)

lemma cleanup_mp3_fs_ok: "fs_ok f \<Longrightarrow> fs_ok (cleanup_mp3 p f)"
  by (cases rule: cleanup_mp3_cases [where f = f and p = p]) (auto intro: fs_ok_remove)

text \<open>A record of the resolver has a cover the handler can read.\<close>

lemma cleanup_cover_cases [consumes 1, case_names none kept removed]:
  assumes "md = None \<or> (\<exists>song_id name m. md = Some m \<and> song_record song_id name m)"
  obtains "cleanup_cover md f = Inr f"
  | f' m cs where "md = Some m" and "sget m ''coverSrc'' = Some (PStr cs)"
      and "os_remove f (path_str (joinpath (Path UPLOAD_FOLDER) (lstrip ''/'' cs))) = Inr f'"
      and "cleanup_cover md f = Inr f'"
proof (cases md)
  case None
  then show ?thesis by (intro that(1)) (simp add: cleanup_cover_def)
next
  case (Some m)
  with assms obtain song_id name where "song_record song_id name m" by auto
  then consider "sget m ''coverSrc'' = Some PNone"
    | cs where "sget m ''coverSrc'' = Some (PStr cs)"
    by (auto simp: song_record_def cover_src_of_def list_ex_iff)
  then show ?thesis
  proof cases
    case 1
    with Some show ?thesis by (intro that(1)) (simp add: cleanup_cover_def)
  next
    case 2
    let ?p = "path_str (joinpath (Path UPLOAD_FOLDER) (lstrip ''/'' cs))"
    show ?thesis
    proof (cases "os_remove f ?p")
      case (Inl ex)
      with Some 2 show ?thesis by (intro that(1)) (simp add: cleanup_cover_def Let_def)
    next
      case (Inr f')
      show ?thesis
      proof (cases "cleanup_cover md f = Inr f")
        case True
        then show ?thesis by (rule that(1))
      next
        case False
        with Some 2 Inr have "cleanup_cover md f = Inr f'"
          by (simp add: cleanup_cover_def Let_def split: if_splits)
        with Some 2 Inr show ?thesis by (intro that(2) [of m cs f'])
      qed
    qed
  qed
qed

lemma cleanup_cover_fs_ok:
  assumes "md = None \<or> (\<exists>song_id name m. md = Some m \<and> song_record song_id name m)"
    and "fs_ok f"
  obtains f' where "cleanup_cover md f = Inr f'" and "fs_ok f'"
  using assms by (cases rule: cleanup_cover_cases [where f = f]) (auto intro: fs_ok_remove)

section \<open>The branches of upload\_file\<close>

text \<open>A request passes the checks of lines 223--236 when it has the field
  \<^verbatim>\<open>file\<close> with the name of an MP3 file and, if it names a cover, the name of
  a picture.\<close>

definition accepted :: "upload_request \<Rightarrow> file_storage \<Rightarrow> bool" where
  "accepted req mp3_file \<longleftrightarrow>
     map_of (files req) ''file'' = Some mp3_file \<and>
     allowed_file (storage_filename mp3_file) \<and>
     (case cover_field req of
        Some c \<Rightarrow> storage_filename c = [] \<or> allowed_cover_file (storage_filename c)
      | None \<Rightarrow> True)"

lemma allowed_file_nonempty: "allowed_file name \<Longrightarrow> name \<noteq> []"
  by (auto simp: allowed_file_def)

lemma upload_file_accepted:
  assumes "accepted req mp3_file"
  shows "upload_file e req w =
     (case stored_name (disk w) (storage_filename mp3_file) of
        None \<Rightarrow> None
      | Some (filename, counter) \<Rightarrow>
          (case try_upload e mp3_file filename (artist_field req) (cover_field req) w of
             (Inr answer, metadata, w') \<Rightarrow> Some (answer, w')
           | (Inl ex, metadata, w') \<Rightarrow>
               (case cleanup_cover metadata
                       (cleanup_mp3 (joinpath (Path UPLOAD_FOLDER) filename) (disk w')) of
                  Inl ex' \<Rightarrow>
                    Some (Unhandled ex',
                      w'\<lparr>disk := cleanup_mp3 (joinpath (Path UPLOAD_FOLDER) filename) (disk w')\<rparr>)
                | Inr f2 \<Rightarrow>
                    Some (Json 500 (error_body (''Failed to process file: '' @ exn_text ex)),
                          w'\<lparr>disk := f2\<rparr>))))"
proof -
  from assms have f: "map_of (files req) ''file'' = Some mp3_file"
    and a: "allowed_file (storage_filename mp3_file)"
    by (simp_all add: accepted_def)
  from assms have c: "(case cover_field req of
       Some c \<Rightarrow> storage_true (cover_field req) \<and> storage_filename c \<noteq> []
                   \<and> \<not> allowed_cover_file (storage_filename c)
     | None \<Rightarrow> False) = False"
    by (auto simp: accepted_def split: option.splits)
  from a have n: "storage_filename mp3_file \<noteq> []" by (rule allowed_file_nonempty)
  show ?thesis
    unfolding upload_file_def f c
    by (simp add: a n Let_def cong: option.case_cong prod.case_cong sum.case_cong)
qed

lemma upload_checks_cases [case_names no_part no_name bad_type bad_cover passed]:
  obtains "map_of (files req) ''file'' = None"
      and "upload_file e req w = Some (Json 400 (error_body ''No MP3 file part''), w)"
  | mp3_file where "map_of (files req) ''file'' = Some mp3_file"
      and "storage_filename mp3_file = []"
      and "upload_file e req w = Some (Json 400 (error_body ''No selected MP3 file''), w)"
  | mp3_file where "map_of (files req) ''file'' = Some mp3_file"
      and "storage_filename mp3_file \<noteq> []" and "\<not> allowed_file (storage_filename mp3_file)"
      and "upload_file e req w =
             Some (Json 400 (error_body (mp3_not_allowed (storage_filename mp3_file))), w)"
  | mp3_file c where "map_of (files req) ''file'' = Some mp3_file"
      and "allowed_file (storage_filename mp3_file)" and "cover_field req = Some c"
      and "storage_filename c \<noteq> []" and "\<not> allowed_cover_file (storage_filename c)"
      and "upload_file e req w =
             Some (Json 400 (error_body (cover_not_allowed e (storage_filename c))), w)"
  | mp3_file where "accepted req mp3_file"
proof (cases "map_of (files req) ''file''")
  case None
  then show ?thesis by (intro that(1)) (simp_all add: upload_file_def)
next
  case (Some mp3_file)
  consider "storage_filename mp3_file = []"
    | "storage_filename mp3_file \<noteq> []" "\<not> allowed_file (storage_filename mp3_file)"
    | c where "allowed_file (storage_filename mp3_file)" "cover_field req = Some c"
        "storage_filename c \<noteq> []" "\<not> allowed_cover_file (storage_filename c)"
    | "accepted req mp3_file"
    using Some by (cases "cover_field req") (auto simp: accepted_def dest: allowed_file_nonempty)
  then show ?thesis
  proof cases
    case 1
    with Some show ?thesis by (intro that(2) [of mp3_file]) (simp_all add: upload_file_def)
  next
    case 2
    with Some show ?thesis by (intro that(3) [of mp3_file]) (simp_all add: upload_file_def)
  next
    case (3 c)
    with Some show ?thesis
      by (intro that(4) [of mp3_file c])
        (auto simp: upload_file_def storage_true_def dest: allowed_file_nonempty)
  next
    case 4
    then show ?thesis by (rule that(5))
  qed
qed

text \<open>A request that passed the checks is stored, or what was written is
  removed and the answer is 500.\<close>

lemma upload_accepted_cases [consumes 1, case_names stored failed]:
  assumes acc: "accepted req mp3_file"
  obtains filename counter md w' where
      "stored_name (disk w) (storage_filename mp3_file) = Some (filename, counter)"
      and "try_upload e mp3_file filename (artist_field req) (cover_field req) w
             = (Inr (Json 201 (uploaded_body filename md)), Some md, w')"
      and "upload_file e req w = Some (Json 201 (uploaded_body filename md), w')"
  | filename counter ex md w' f' where
      "stored_name (disk w) (storage_filename mp3_file) = Some (filename, counter)"
      and "try_upload e mp3_file filename (artist_field req) (cover_field req) w
             = (Inl ex, md, w')"
      and "cleanup_cover md (cleanup_mp3 (joinpath (Path UPLOAD_FOLDER) filename) (disk w'))
             = Inr f'"
      and "upload_file e req w =
             Some (Json 500 (error_body (''Failed to process file: '' @ exn_text ex)),
                   w'\<lparr>disk := f'\<rparr>)"
proof -
  note eq = upload_file_accepted [OF acc, of e w]
  obtain filename counter where
    name: "stored_name (disk w) (storage_filename mp3_file) = Some (filename, counter)"
    by (cases "disk w" "storage_filename mp3_file" rule: stored_name_cases) auto
  obtain r md w' where
    t: "try_upload e mp3_file filename (artist_field req) (cover_field req) w = (r, md, w')"
    by (cases "try_upload e mp3_file filename (artist_field req) (cover_field req) w") auto
  show ?thesis
  proof (cases r)
    case (Inl ex)
    from t have "md = None \<or> (\<exists>song_id name m. md = Some m \<and> song_record song_id name m)"
      by (cases md) (auto dest: try_upload_metadata)
    then obtain f' where
      "cleanup_cover md (cleanup_mp3 (joinpath (Path UPLOAD_FOLDER) filename) (disk w')) = Inr f'"
      by (rule cleanup_cover_cases) auto
    with name t Inl show ?thesis
      by (intro that(2) [of filename counter ex md w' f']) (simp_all add: eq)
  next
    case (Inr answer)
    with t obtain m where md: "md = Some m" and a: "answer = Json 201 (uploaded_body filename m)"
      by (cases rule: try_upload_cases [of mp3_file filename w e "artist_field req" "cover_field req"])
        (auto dest: file_song_answer)
    with name t Inr show ?thesis
      by (intro that(1) [of filename counter m w']) (simp_all add: eq)
  qed
qed

text \<open>All outcomes of the view.\<close>

lemma upload_file_cases
  [case_names no_part no_name bad_type bad_cover stored failed]:
  obtains "map_of (files req) ''file'' = None"
      and "upload_file e req w = Some (Json 400 (error_body ''No MP3 file part''), w)"
  | mp3_file where "map_of (files req) ''file'' = Some mp3_file"
      and "storage_filename mp3_file = []"
      and "upload_file e req w = Some (Json 400 (error_body ''No selected MP3 file''), w)"
  | mp3_file where "map_of (files req) ''file'' = Some mp3_file"
      and "storage_filename mp3_file \<noteq> []" and "\<not> allowed_file (storage_filename mp3_file)"
      and "upload_file e req w =
             Some (Json 400 (error_body (mp3_not_allowed (storage_filename mp3_file))), w)"
  | mp3_file c where "map_of (files req) ''file'' = Some mp3_file"
      and "allowed_file (storage_filename mp3_file)" and "cover_field req = Some c"
      and "storage_filename c \<noteq> []" and "\<not> allowed_cover_file (storage_filename c)"
      and "upload_file e req w =
             Some (Json 400 (error_body (cover_not_allowed e (storage_filename c))), w)"
  | mp3_file filename counter md w' where "accepted req mp3_file"
      and "stored_name (disk w) (storage_filename mp3_file) = Some (filename, counter)"
      and "try_upload e mp3_file filename (artist_field req) (cover_field req) w
             = (Inr (Json 201 (uploaded_body filename md)), Some md, w')"
      and "upload_file e req w = Some (Json 201 (uploaded_body filename md), w')"
  | mp3_file filename counter ex md w' f' where "accepted req mp3_file"
      and "stored_name (disk w) (storage_filename mp3_file) = Some (filename, counter)"
      and "try_upload e mp3_file filename (artist_field req) (cover_field req) w
             = (Inl ex, md, w')"
      and "cleanup_cover md (cleanup_mp3 (joinpath (Path UPLOAD_FOLDER) filename) (disk w'))
             = Inr f'"
      and "upload_file e req w =
             Some (Json 500 (error_body (''Failed to process file: '' @ exn_text ex)),
                   w'\<lparr>disk := f'\<rparr>)"
proof (cases rule: upload_checks_cases [of req e w])
  case (passed mp3_file)
  then show ?thesis
  proof (cases rule: upload_accepted_cases [where e = e and w = w])
    case (stored filename counter md w')
    with passed show ?thesis by (rule that(5))
  next
    case (failed filename counter ex md w' f')
    with passed show ?thesis by (rule that(6))
  qed
next
  case no_part
  then show ?thesis by (rule that(1))
next
  case (no_name mp3_file)
  then show ?thesis by (rule that(2))
next
  case (bad_type mp3_file)
  then show ?thesis by (rule that(3))
next
  case (bad_cover mp3_file c)
  then show ?thesis by (rule that(4))
qed

section \<open>What every upload does\<close>

lemma upload_file_some: "\<exists>r w'. upload_file e req w = Some (r, w')"
  by (cases rule: upload_file_cases [of req e w]) auto

lemma accepted_unique: "accepted req a \<Longrightarrow> accepted req b \<Longrightarrow> a = b"
  by (simp add: accepted_def)

lemma upload_file_400:
  "(\<exists>body. upload_file e req w = Some (Json 400 body, w')) \<longleftrightarrow>
   (\<forall>mp3_file. \<not> accepted req mp3_file) \<and> w' = w"
  by (cases rule: upload_file_cases [of req e w])
    (auto simp: accepted_def dest: allowed_file_nonempty)

lemma storage_save_fs_ok: "storage_save c p f = Inr f' \<Longrightarrow> fs_ok f \<Longrightarrow> fs_ok f'"
  by (auto simp: storage_save_def intro: fs_ok_write)

lemma get_song_metadata_fs_ok:
  "get_song_metadata e name song_id manual c f = (md, f') \<Longrightarrow> fs_ok f \<Longrightarrow> fs_ok f'"
  using get_song_metadata_resolved [of song_id e name manual c f]
  by (auto intro: cover_resolved_fs_ok)

lemma load_library_fs_ok': "load_library e p w = (r, w') \<Longrightarrow> fs_ok (disk w) \<Longrightarrow> fs_ok (disk w')"
  using load_library_fs_ok [of w e p] by simp

lemma try_upload_fs_ok:
  assumes "try_upload e mp3_file filename manual_artist_name cover_file w = (r, md, w')"
    and "fs_ok (disk w)"
  shows "fs_ok (disk w')"
  using assms
proof (cases rule: try_upload_cases [of mp3_file filename w e manual_artist_name cover_file])
  case (not_stored ex)
  with assms show ?thesis by simp
next
  case (not_loaded f1 md f2 ex w2)
  from assms(2) not_loaded(1) have "fs_ok f1" by (auto intro: storage_save_fs_ok)
  with not_loaded(2) have "fs_ok f2" by (auto intro: get_song_metadata_fs_ok)
  with load_library_fs_ok' [OF not_loaded(3)] assms(1) not_loaded(4) show ?thesis by simp
next
  case (filed f1 md f2 d w2 res w3)
  from assms(2) filed(1) have "fs_ok f1" by (auto intro: storage_save_fs_ok)
  with filed(2) have "fs_ok f2" by (auto intro: get_song_metadata_fs_ok)
  with load_library_fs_ok' [OF filed(3)] have "fs_ok (disk w2)" by simp
  with file_song_world(1) [OF filed(4)] have "fs_ok (disk w3)" by (auto intro: writes_only_fs_ok)
  with assms(1) filed(5) show ?thesis by simp
qed

lemma upload_file_keeps_fs_ok:
  assumes "upload_file e req w = Some (r, w')" and "fs_ok (disk w)"
  shows "fs_ok (disk w')"
  using assms
proof (cases rule: upload_file_cases [of req e w])
  case (stored mp3_file filename counter md w1)
  from try_upload_fs_ok [OF stored(3) assms(2)] stored(4) assms(1) show ?thesis by simp
next
  case (failed mp3_file filename counter ex md w1 f')
  from try_upload_fs_ok [OF failed(3) assms(2)]
  have "fs_ok (cleanup_mp3 (joinpath (Path UPLOAD_FOLDER) filename) (disk w1))"
    by (rule cleanup_mp3_fs_ok)
  moreover from failed(3)
  have "md = None \<or> (\<exists>song_id name m. md = Some m \<and> song_record song_id name m)"
    by (cases md) (auto dest: try_upload_metadata)
  ultimately have "fs_ok f'"
    using failed(4) by (auto elim!: cleanup_cover_fs_ok)
  with failed(5) assms(1) show ?thesis by simp
qed simp_all

section \<open>The stored name\<close>

lemma secure_filename_name_ok: "allowed_file name \<Longrightarrow> name_ok (secure_filename name)"
  by (simp add: name_ok_def allowed_file_secure secure_filename_no_slash secure_filename_not_dots)

lemma stored_name_ok:
  assumes "allowed_file name" and "stored_name f name = Some (filename, n)"
  shows "name_ok filename" and "\<not> taken f filename"
proof -
  have "name_ok filename \<and> \<not> taken f filename"
  proof (cases rule: stored_name_cases [of f name])
    case first
    with assms(2) have "filename = secure_filename name" by simp
    with first(1) assms(1) show ?thesis by (simp add: secure_filename_name_ok)
  next
    case (numbered m base ext)
    from numbered(1) have "CHR ''/'' \<notin> set base" "CHR ''/'' \<notin> set ext"
      using splitext_no_slash [OF secure_filename_no_slash, of name] by simp_all
    then have "name_ok (numbered base ext m)" by (rule numbered_name_ok)
    with numbered assms(2) show ?thesis by simp
  qed
  then show "name_ok filename" and "\<not> taken f filename" by simp_all
qed

section \<open>The catalog file during an upload\<close>

text \<open>The name of a cover is a file name when the identifier has no slash.\<close>

lemma cover_name_ok:
  assumes "CHR ''/'' \<notin> set song_id" and "ext \<in> set ALLOWED_COVER_EXTENSIONS"
  shows "name_ok (song_id @ ''.'' @ ext)"
proof -
  from assms(2) have "ext \<noteq> []" "CHR ''/'' \<notin> set ext" "ext \<noteq> ''.''"
    by (auto simp: ALLOWED_COVER_EXTENSIONS_def)
  with assms(1) show ?thesis
    by (auto simp: name_ok_def append_eq_Cons_conv Cons_eq_append_conv)
qed

lemma realpath_cover_target:
  "CHR ''/'' \<notin> set song_id \<Longrightarrow> ext \<in> set ALLOWED_COVER_EXTENSIONS \<Longrightarrow>
   realpath f (cover_target song_id ext) = cwd f @ [''uploads'', ''covers'', song_id @ ''.'' @ ext]"
  unfolding cover_target_def by (rule realpath_covers_path) (rule cover_name_ok)

text \<open>No step of the upload but the save of the catalog changes what the
  catalog file reads.\<close>

lemma storage_save_catalog:
  assumes "storage_save c (joinpath (Path UPLOAD_FOLDER) filename) f = Inr f'"
    and "name_ok filename"
  shows "fs_read f' LIBRARY_FILE = fs_read f LIBRARY_FILE"
  using assms(1) unfolding storage_save_def
  by (rule fs_write_read_other) (rule catalog_not_upload [OF assms(2)])

lemma cover_resolved_catalog:
  assumes "cover_resolved song_id md f f'" and "CHR ''/'' \<notin> set song_id"
  shows "fs_read f' LIBRARY_FILE = fs_read f LIBRARY_FILE"
proof -
  have "fs_read f' LIBRARY_FILE = fs_read f LIBRARY_FILE"
    if "ext \<in> set ALLOWED_COVER_EXTENSIONS" and "fs_write f (cover_target song_id ext) c = Inr f'"
    for ext c
    using that(2)
    by (rule fs_write_read_other)
      (simp add: realpath_cover_target [OF assms(2) that(1)] realpath_LIBRARY_FILE)
  with assms(1) show ?thesis by (auto simp: cover_resolved_def)
qed

lemma cleanup_mp3_catalog:
  "name_ok filename \<Longrightarrow>
   fs_read (cleanup_mp3 (joinpath (Path UPLOAD_FOLDER) filename) f) LIBRARY_FILE
     = fs_read f LIBRARY_FILE"
  by (cases rule: cleanup_mp3_cases [where f = f and p = "joinpath (Path UPLOAD_FOLDER) filename"])
    (simp_all add: os_remove_read_other catalog_not_upload)

text \<open>The cover of a record of the resolver, as the handler reads it.\<close>

lemma lstrip_cover_src:
  "lstrip ''/'' (''/'' @ COVERS_FOLDER_NAME @ ''/'' @ name) = ''covers/'' @ name"
  by (simp add: lstrip_def COVERS_FOLDER_NAME_def)

lemma cleanup_cover_unnamed:
  "sget m ''coverSrc'' = Some PNone \<Longrightarrow> cleanup_cover (Some m) f = Inr f"
  by (simp add: cleanup_cover_def)

lemma cleanup_cover_named:
  assumes "sget m ''coverSrc'' = Some (cover_src_of (song_id @ ''.'' @ ext))"
    and "CHR ''/'' \<notin> set song_id" and "ext \<in> set ALLOWED_COVER_EXTENSIONS"
  shows "cleanup_cover (Some m) f =
     (if path_is_file f (joinpath (Path COVERS_FOLDER) (song_id @ ''.'' @ ext))
      then (case os_remove f (cover_target song_id ext) of Inr f' \<Rightarrow> Inr f' | Inl ex \<Rightarrow> Inr f)
      else Inr f)"
proof -
  let ?name = "song_id @ ''.'' @ ext"
  from assms(2,3) have ok: "name_ok ?name" by (rule cover_name_ok)
  from assms(1) have "m \<noteq> []" by auto
  moreover have "startswith (''covers/'' @ ?name) (COVERS_FOLDER_NAME @ ''/'')"
    by (simp add: COVERS_FOLDER_NAME_def)
  moreover note covers_below_uploads [OF ok] path_is_file_exists
  ultimately show ?thesis
    using assms(1) unfolding cleanup_cover_def cover_src_of_def
    by (auto simp: lstrip_cover_src cover_target_def Let_def simp del: append.simps
        split: sum.splits)
qed

lemma cleanup_cover_catalog:
  assumes "song_record song_id name m" and "CHR ''/'' \<notin> set song_id"
    and "cleanup_cover (Some m) f = Inr f'"
  shows "fs_read f' LIBRARY_FILE = fs_read f LIBRARY_FILE"
proof -
  from assms(1) consider "sget m ''coverSrc'' = Some PNone"
    | ext where "ext \<in> set ALLOWED_COVER_EXTENSIONS"
        "sget m ''coverSrc'' = Some (cover_src_of (song_id @ ''.'' @ ext))"
    by (auto simp: song_record_def list_ex_iff)
  then show ?thesis
  proof cases
    case 1
    with assms(3) show ?thesis by (simp add: cleanup_cover_unnamed)
  next
    case (2 ext)
    have "fs_read f'' LIBRARY_FILE = fs_read f LIBRARY_FILE"
      if "os_remove f (cover_target song_id ext) = Inr f''" for f''
      using that
      by (rule os_remove_read_other)
        (simp add: realpath_cover_target [OF assms(2) 2(1)] realpath_LIBRARY_FILE)
    with assms(3) show ?thesis
      unfolding cleanup_cover_named [OF 2(2) assms(2) 2(1)]
      by (auto split: if_splits sum.splits)
  qed
qed

section \<open>Uploads to a normal catalog\<close>

text \<open>The catalog with a record filed under an identifier.\<close>

definition with_song :: "pydict \<Rightarrow> string \<Rightarrow> pydict \<Rightarrow> pydict" where
  "with_song d song_id md =
     sset d ''songs'' (PDict (dict_set (songs_dict d) (PStr song_id) (PDict md)))"

lemma set_song_normal:
  "library_normal d \<Longrightarrow> set_song d song_id md = Inr (with_song d song_id md)"
  by (auto simp: set_song_def with_song_def library_normal_def songs_missing_def songs_dict_def
      split: option.splits pyval.splits)

lemma with_song_normal:
  assumes "library_normal d" and "song_record song_id name md" and "10 \<le> length song_id"
  shows "library_normal (with_song d song_id md)"
  unfolding with_song_def using assms
  by (intro library_normal_set songs_normal_set song_record_normal)
    (simp_all add: library_normal_def)

lemma with_song_json_ok:
  assumes "json_ok (PDict d)" and "song_record song_id name md"
  shows "json_ok (PDict (with_song d song_id md))"
proof -
  from assms(1) have "json_ok (PDict (songs_dict d))" by (rule json_ok_songs)
  moreover from assms(2) have "json_ok (PDict md)" by (rule song_record_json_ok)
  ultimately have "json_ok (PDict (dict_set (songs_dict d) (PStr song_id) (PDict md)))"
    by (rule json_ok_dict_set)
  with assms(1) show ?thesis unfolding with_song_def by (rule json_ok_dict_set)
qed

lemma songs_dict_with_song [simp]:
  "songs_dict (with_song d song_id md) = dict_set (songs_dict d) (PStr song_id) (PDict md)"
  by (simp add: with_song_def)

text \<open>Filing a record in a normal catalog is one write of the catalog file.\<close>

lemma file_song_normal:
  assumes "library_normal d" and "song_record song_id name md" and "10 \<le> length song_id"
  shows "file_song filename song_id md d w =
     (case fs_write (disk w) LIBRARY_FILE (Doc (PDict (with_song d song_id md))) of
        Inl ex \<Rightarrow> (Inl (OSError ''Failed to save library data after processing.''), w)
      | Inr f' \<Rightarrow> (Inr (Json 201 (uploaded_body filename md)), w\<lparr>disk := f'\<rparr>))"
  using save_library_normal [OF with_song_normal [OF assms], of LIBRARY_FILE "disk w"]
  by (simp add: file_song_def set_song_normal [OF assms(1)] split: sum.splits)

text \<open>After the file is stored and the record resolved, the catalog file
  is as it was, so the load returns the catalog and changes nothing.\<close>

lemma try_upload_resolved:
  assumes cat: "holds_catalog w d" and id: "CHR ''/'' \<notin> set song_id"
    and name: "name_ok filename"
    and s: "storage_save mp3_file (joinpath (Path UPLOAD_FOLDER) filename) (disk w) = Inr f1"
    and m: "get_song_metadata e filename song_id manual cover_file f1 = (md, f2)"
  shows "load_library e LIBRARY_FILE (w\<lparr>uuid_count := n, disk := f2\<rparr>)
           = (Inr d, w\<lparr>uuid_count := n, disk := f2\<rparr>)"
    and "fs_read f2 LIBRARY_FILE = fs_read (disk w) LIBRARY_FILE"
    and "song_record song_id filename md"
proof -
  from get_song_metadata_resolved [of song_id e filename manual cover_file f1] m
  have "cover_resolved song_id md f1 f2" by simp
  then have "fs_read f2 LIBRARY_FILE = fs_read f1 LIBRARY_FILE"
    using id by (rule cover_resolved_catalog)
  with storage_save_catalog [OF s name]
  show kept: "fs_read f2 LIBRARY_FILE = fs_read (disk w) LIBRARY_FILE" by simp
  then have "holds_catalog (w\<lparr>uuid_count := n, disk := f2\<rparr>) d"
    using cat by (simp add: holds_catalog_def)
  then show "load_library e LIBRARY_FILE (w\<lparr>uuid_count := n, disk := f2\<rparr>)
      = (Inr d, w\<lparr>uuid_count := n, disk := f2\<rparr>)"
    by (rule holds_catalog_load)
  from get_song_metadata_shape [of song_id filename e manual cover_file f1] m
  show "song_record song_id filename md" by simp
qed

text \<open>The steps under try on a disk that holds a normal catalog.\<close>

lemma try_upload_holds [consumes 3, case_names not_stored not_saved saved]:
  fixes e mp3_file filename manual_artist_name cover_file w
  defines "song_id \<equiv> uuid4 e (uuid_count w)"
    and "manual \<equiv> (if manual_artist_name = [] then None else Some manual_artist_name)"
    and "r \<equiv> try_upload e mp3_file filename manual_artist_name cover_file w"
  assumes cat: "holds_catalog w d" and uuid: "uuid_ok e" and name: "name_ok filename"
  obtains ex where
      "storage_save mp3_file (joinpath (Path UPLOAD_FOLDER) filename) (disk w) = Inl ex"
      and "r = (Inl ex, None, w)"
  | f1 md f2 ex where
      "storage_save mp3_file (joinpath (Path UPLOAD_FOLDER) filename) (disk w) = Inr f1"
      and "get_song_metadata e filename song_id manual cover_file f1 = (md, f2)"
      and "fs_read f2 LIBRARY_FILE = fs_read (disk w) LIBRARY_FILE"
      and "fs_write f2 LIBRARY_FILE (Doc (PDict (with_song d song_id md))) = Inl ex"
      and "r = (Inl (OSError ''Failed to save library data after processing.''), Some md,
                w\<lparr>uuid_count := Suc (uuid_count w), disk := f2\<rparr>)"
  | f1 md f2 f3 where
      "storage_save mp3_file (joinpath (Path UPLOAD_FOLDER) filename) (disk w) = Inr f1"
      and "get_song_metadata e filename song_id manual cover_file f1 = (md, f2)"
      and "fs_write f2 LIBRARY_FILE (Doc (PDict (with_song d song_id md))) = Inr f3"
      and "holds_catalog (w\<lparr>uuid_count := Suc (uuid_count w), disk := f3\<rparr>)
             (with_song d song_id md)"
      and "r = (Inr (Json 201 (uploaded_body filename md)), Some md,
                w\<lparr>uuid_count := Suc (uuid_count w), disk := f3\<rparr>)"
proof -
  from uuid have id: "CHR ''/'' \<notin> set song_id" "10 \<le> length song_id"
    by (simp_all add: song_id_def uuid_ok_no_slash uuid_okD)
  from cat have d: "library_normal d" "json_ok (PDict d)" by (auto elim: holds_catalogE)
  note loaded = try_upload_resolved(1) [OF cat id(1) name, where n = "Suc (uuid_count w)"]
    and kept = try_upload_resolved(2) [OF cat id(1) name]
    and shape = try_upload_resolved(3) [OF cat id(1) name]
  show thesis
  proof (cases rule: try_upload_cases [of mp3_file filename w e manual_artist_name cover_file])
    case (not_stored ex)
    then show ?thesis by (intro that(1) [of ex]) (simp_all add: r_def)
  next
    case (not_loaded f1 md f2 ex w2)
    with loaded [where ?f1.0 = f1 and md = md and ?f2.0 = f2] show ?thesis
      by (simp add: song_id_def manual_def)
  next
    case (filed f1 md f2 d' w2 res w3)
    note s = filed(1) and m = filed(2) [folded song_id_def manual_def]
    from loaded [OF s m] filed(3) have d': "d' = d"
      and w2: "w2 = w\<lparr>uuid_count := Suc (uuid_count w), disk := f2\<rparr>"
      by (simp_all add: song_id_def)
    note fs = file_song_normal [OF d(1) shape [OF s m] id(2), of filename w2]
    show ?thesis
    proof (cases "fs_write f2 LIBRARY_FILE (Doc (PDict (with_song d song_id md)))")
      case (Inl ex)
      with filed(4,5) fs d' w2 s m kept [OF s m] show ?thesis
        by (intro that(2) [of f1 md f2 ex]) (simp_all add: r_def song_id_def)
    next
      case (Inr f3)
      from cat kept [OF s m] have "read_fault f2 (realpath f2 LIBRARY_FILE) = None"
        by (auto elim!: holds_catalogE simp: fs_read_Inr_iff)
      with Inr have "holds_catalog (w\<lparr>uuid_count := Suc (uuid_count w), disk := f3\<rparr>)
          (with_song d song_id md)"
        by (intro holds_catalog_written [of f2] with_song_normal [OF d(1) shape [OF s m] id(2)]
            with_song_json_ok [OF d(2) shape [OF s m]]) simp_all
      with filed(4,5) fs d' w2 s m Inr show ?thesis
        by (intro that(3) [of f1 md f2 f3]) (simp_all add: r_def song_id_def)
    qed
  qed
qed

text \<open>An upload to a disk that holds a normal catalog: the catalog is kept,
  or the record of the upload is filed in it.\<close>

lemma accepted_allowed: "accepted req mp3_file \<Longrightarrow> allowed_file (storage_filename mp3_file)"
  by (simp add: accepted_def)

lemma upload_file_holds [consumes 3, case_names kept stored]:
  assumes cat: "holds_catalog w d" and uuid: "uuid_ok e"
    and up: "upload_file e req w = Some (r, w')"
  obtains "holds_catalog w' d" and "\<And>body. r \<noteq> Json 201 body"
      and "uuid_count w \<le> uuid_count w'"
  | mp3_file filename counter md where "accepted req mp3_file"
      and "stored_name (disk w) (storage_filename mp3_file) = Some (filename, counter)"
      and "r = Json 201 (uploaded_body filename md)"
      and "song_record (uuid4 e (uuid_count w)) filename md"
      and "holds_catalog w' (with_song d (uuid4 e (uuid_count w)) md)"
      and "uuid_count w' = Suc (uuid_count w)"
proof (cases rule: upload_file_cases [of req e w])
  case (stored mp3_file filename counter md w1)
  from stored(1,2) have name: "name_ok filename"
    by (auto dest: accepted_allowed stored_name_ok)
  from cat uuid name show ?thesis
  proof (cases rule: try_upload_holds
      [where mp3_file = mp3_file and manual_artist_name = "artist_field req"
        and cover_file = "cover_field req"])
    case (saved f1 md' f2 f3)
    with stored(3) have "md' = md"
      and w1: "w1 = w\<lparr>uuid_count := Suc (uuid_count w), disk := f3\<rparr>" by simp_all
    with saved(4) stored up try_upload_metadata [OF stored(3)] show ?thesis
      by (intro that(2) [of mp3_file filename counter md]) auto
  qed (use stored(3) in simp_all)
next
  case (failed mp3_file filename counter ex md w1 f')
  from failed(1,2) have name: "name_ok filename"
    by (auto dest: accepted_allowed stored_name_ok)
  let ?p = "joinpath (Path UPLOAD_FOLDER) filename"
  from uuid have id: "CHR ''/'' \<notin> set (uuid4 e (uuid_count w))" by (rule uuid_ok_no_slash)
  have "fs_read f' LIBRARY_FILE = fs_read (disk w) LIBRARY_FILE \<and> uuid_count w \<le> uuid_count w1"
    using cat uuid name
  proof (cases rule: try_upload_holds
      [where mp3_file = mp3_file and manual_artist_name = "artist_field req"
        and cover_file = "cover_field req"])
    case (not_stored ex')
    with failed(3,4) cleanup_mp3_catalog [OF name, of "disk w"] show ?thesis
      by (auto simp: cleanup_cover_def)
  next
    case (not_saved f1 md' f2 ex')
    with failed(3) have md: "md = Some md'"
      and w1: "w1 = w\<lparr>uuid_count := Suc (uuid_count w), disk := f2\<rparr>" by simp_all
    from failed(3) md have "song_record (uuid4 e (uuid_count w)) filename md'"
      by (simp add: try_upload_metadata)
    from cleanup_cover_catalog [OF this id failed(4) [unfolded md]] not_saved(3) w1
    show ?thesis by (simp add: cleanup_mp3_catalog [OF name])
  qed (use failed(3) in simp_all)
  with cat failed(5) up show ?thesis
    by (intro that(1)) (auto simp: holds_catalog_def)
qed (use assms in \<open>auto intro: that(1)\<close>)

section \<open>What a failed upload leaves behind\<close>

lemma cleanup_mp3_file:
  assumes "stat f (path_str p) = Some (a, File c)" and "remove_faults f = []"
  shows "cleanup_mp3 p f = f\<lparr>nodes := AList.delete a (nodes f)\<rparr>"
  using assms
  by (simp add: cleanup_mp3_def path_exists_def os_path_exists_def os_remove_file)

lemma cleanup_mp3_absent: "\<not> path_exists f p \<Longrightarrow> cleanup_mp3 p f = f"
  by (simp add: cleanup_mp3_def)

text \<open>
  The steps under try that end in an exception after the file was stored,
  on a disk without faults of removal and without covers of the new
  identifier: the handler of the exception restores the entries of the
  disk.
\<close>

lemma rollback_not_saved:
  fixes e w filename
  defines "song_id \<equiv> uuid4 e (uuid_count w)"
    and "p \<equiv> joinpath (Path UPLOAD_FOLDER) filename"
  assumes s: "storage_save mp3_file p (disk w) = Inr f1"
    and m: "cover_resolved song_id md f1 f2"
    and name: "name_ok filename" and free: "\<not> taken (disk w) filename"
    and id: "CHR ''/'' \<notin> set song_id"
    and faults: "remove_faults (disk w) = []"
    and fresh: "\<forall>ext \<in> set ALLOWED_COVER_EXTENSIONS.
        \<not> os_path_exists (disk w) (cover_target song_id ext)"
    and c: "cleanup_cover (Some md) (cleanup_mp3 p f2) = Inr f'"
  shows "node_at f' a = node_at (disk w) a"
proof -
  let ?f = "disk w"
  let ?a = "realpath ?f (path_str p)"
  from s have wr: "fs_write ?f (path_str p) (Bytes (storage_bytes mp3_file)) = Inr f1"
    by (simp add: storage_save_def)
  from free have new: "stat ?f (path_str p) = None"
    by (intro not_exists_stat) (simp add: taken_def p_def path_exists_def)
  from m show ?thesis
    unfolding cover_resolved_def
  proof (elim disjE conjE bexE exE)
    assume none: "sget md ''coverSrc'' = Some PNone" and "f2 = f1"
    note f1 = fs_write_nodes [OF wr]
    from fs_write_stat [OF wr]
    have "cleanup_mp3 p f1 = f1\<lparr>nodes := AList.delete ?a (nodes f1)\<rparr>"
      by (rule cleanup_mp3_file) (simp add: f1(1) faults)
    with c none \<open>f2 = f1\<close> have "f' = f1\<lparr>nodes := AList.delete ?a (nodes f1)\<rparr>"
      by (simp add: cleanup_cover_unnamed)
    with fs_write_fresh [OF wr new] f1(3) show ?thesis by simp
  next
    fix ext co
    assume ext: "ext \<in> set ALLOWED_COVER_EXTENSIONS"
      and named: "sget md ''coverSrc'' = Some (cover_src_of (song_id @ ''.'' @ ext))"
      and cw: "fs_write f1 (cover_target song_id ext) co = Inr f2"
    from id ext have "name_ok (song_id @ ''.'' @ ext)" by (rule cover_name_ok)
    from upload_not_cover [OF name this, of ?f, symmetric]
    have differ: "realpath ?f (cover_target song_id ext) \<noteq> ?a"
      by (simp add: cover_target_def p_def)
    from fresh ext have "stat ?f (cover_target song_id ext) = None"
      by (intro not_exists_stat) simp
    with wr cw new obtain f3 f4 where rm: "os_remove f2 (path_str p) = Inr f3"
      and st: "stat f3 (cover_target song_id ext) = Some (realpath ?f (cover_target song_id ext), File co)"
      and rc: "os_remove f3 (cover_target song_id ext) = Inr f4"
      and same: "\<forall>a. node_at f4 a = node_at ?f a"
      using differ faults by (rule rollback_both) blast
    from rm have "cleanup_mp3 p f2 = f3"
      by (auto simp: cleanup_mp3_def path_exists_def os_path_exists_def dest: os_remove_InrD(1))
    moreover from st have "path_is_file f3 (joinpath (Path COVERS_FOLDER) (song_id @ ''.'' @ ext))"
      by (simp add: path_is_file_def cover_target_def)
    ultimately have "f' = f4"
      using c rc unfolding cleanup_cover_named [OF named id ext] by simp
    with same show ?thesis by simp
  qed
qed

lemma upload_file_rollback:
  assumes cat: "holds_catalog w d" and uuid: "uuid_ok e"
    and faults: "remove_faults (disk w) = []"
    and fresh: "\<forall>ext \<in> set ALLOWED_COVER_EXTENSIONS.
        \<not> os_path_exists (disk w) (cover_target (uuid4 e (uuid_count w)) ext)"
    and up: "upload_file e req w = Some (Json 500 body, w')"
  shows "node_at (disk w') a = node_at (disk w) a"
proof (cases rule: upload_file_cases [of req e w])
  case (failed mp3_file filename counter ex md w1 f')
  from failed(1,2) have name: "name_ok filename" and free: "\<not> taken (disk w) filename"
    by (auto dest: accepted_allowed stored_name_ok)
  from uuid have id: "CHR ''/'' \<notin> set (uuid4 e (uuid_count w))" by (rule uuid_ok_no_slash)
  have "node_at f' a = node_at (disk w) a"
    using cat uuid name
  proof (cases rule: try_upload_holds
      [where mp3_file = mp3_file and manual_artist_name = "artist_field req"
        and cover_file = "cover_field req"])
    case (not_stored ex')
    with failed(3,4) free show ?thesis
      by (auto simp: cleanup_cover_def cleanup_mp3_absent taken_def)
  next
    case (not_saved f1 md' f2 ex')
    with failed(3) have md: "md = Some md'"
      and w1: "w1 = w\<lparr>uuid_count := Suc (uuid_count w), disk := f2\<rparr>" by simp_all
    from not_saved(2) have "cover_resolved (uuid4 e (uuid_count w)) md' f1 f2"
      by (rule get_song_metadata_resolvedD)
    with not_saved(1) show ?thesis
      using name free id faults fresh failed(4) [unfolded md w1]
      by (intro rollback_not_saved [where mp3_file = mp3_file]) simp_all
  qed (use failed(3) in simp_all)
  with failed(5) up show ?thesis by simp
qed (use up in simp_all)

text \<open>The stored file holds the bytes that were sent.\<close>

lemma cover_resolved_upload:
  assumes "cover_resolved song_id md f f'" and "CHR ''/'' \<notin> set song_id"
    and "name_ok filename"
  shows "stat f' (path_str (joinpath (Path UPLOAD_FOLDER) filename))
           = stat f (path_str (joinpath (Path UPLOAD_FOLDER) filename))"
proof -
  have "stat f' (path_str (joinpath (Path UPLOAD_FOLDER) filename))
           = stat f (path_str (joinpath (Path UPLOAD_FOLDER) filename))"
    if ext: "ext \<in> set ALLOWED_COVER_EXTENSIONS"
      and cw: "fs_write f (cover_target song_id ext) c = Inr f'" for ext c
    using cw upload_not_cover [OF assms(3) cover_name_ok [OF assms(2) ext], of f]
    unfolding cover_target_def by (rule fs_write_other)
  with assms(1) show ?thesis by (auto simp: cover_resolved_def)
qed

lemma upload_file_bytes:
  assumes cat: "holds_catalog w d" and uuid: "uuid_ok e"
    and acc: "accepted req mp3_file"
    and name: "stored_name (disk w) (storage_filename mp3_file) = Some (filename, counter)"
    and up: "upload_file e req w = Some (Json 201 body, w')"
  shows "\<exists>a. stat (disk w') (path_str (joinpath (Path UPLOAD_FOLDER) filename))
           = Some (a, File (Bytes (storage_bytes mp3_file)))"
proof -
  let ?p = "path_str (joinpath (Path UPLOAD_FOLDER) filename)"
  from acc name have ok: "name_ok filename" by (auto dest: accepted_allowed stored_name_ok)
  from uuid have id: "CHR ''/'' \<notin> set (uuid4 e (uuid_count w))" by (rule uuid_ok_no_slash)
  from up acc name obtain md where
    t: "try_upload e mp3_file filename (artist_field req) (cover_field req) w
          = (Inr (Json 201 body), Some md, w')"
    by (cases rule: upload_file_cases [of req e w]) (auto dest: accepted_unique)
  from cat uuid ok show ?thesis
  proof (cases rule: try_upload_holds
      [where mp3_file = mp3_file and manual_artist_name = "artist_field req"
        and cover_file = "cover_field req"])
    case (saved f1 md' f2 f3)
    from saved(1) have "fs_write (disk w) ?p (Bytes (storage_bytes mp3_file)) = Inr f1"
      by (simp add: storage_save_def)
    then have "stat f1 ?p = Some (realpath (disk w) ?p, File (Bytes (storage_bytes mp3_file)))"
      by (rule fs_write_stat)
    moreover from saved(2) have "cover_resolved (uuid4 e (uuid_count w)) md' f1 f2"
      by (rule get_song_metadata_resolvedD)
    then have "stat f2 ?p = stat f1 ?p" using id ok by (rule cover_resolved_upload)
    moreover from saved(3) have "stat f3 ?p = stat f2 ?p"
      by (rule fs_write_other) (rule catalog_not_upload [OF ok, symmetric])
    ultimately show ?thesis using saved(5) t by simp
  qed (use t in simp_all)
qed

section \<open>Examples\<close>

text \<open>
  An upload to the example installation: a file named \<^verbatim>\<open>blue.mp3\<close>, which
  is the name of a stored file, with the artist \<^verbatim>\<open>Bo\<close> typed into the form.
  The second installation has a disk that refuses to write the catalog.
\<close>

definition demo_file :: file_storage where
  "demo_file = \<lparr>storage_filename = ''blue.mp3'', storage_bytes = ''ID3 tagged''\<rparr>"

definition demo_upload :: upload_request where
  "demo_upload = \<lparr>files = [(''file'', demo_file)], form = [(''artistName'', '' Bo '')]\<rparr>"

definition uploaded_song :: pydict where
  "uploaded_song =
     [(PStr ''id'', PStr (demo_uuid 0)), (PStr ''filename'', PStr ''blue_1.mp3''),
      (PStr ''title'', PStr ''Blue''), (PStr ''artist'', PStr ''Bo''),
      (PStr ''album'', PStr ''Unknown Album''), (PStr ''genre'', PStr ''Unknown Genre''),
      (PStr ''audioSrc'', PStr ''/uploads/blue_1.mp3''),
      (PStr ''coverSrc'', PStr (''/covers/'' @ demo_uuid 0 @ ''.jpg''))]"

definition uploaded_world :: world where
  "uploaded_world =
     \<lparr>disk = demo_fs\<lparr>nodes :=
        AList.update [''srv'', ''library.json'']
          (File (Doc (PDict (with_song demo_library (demo_uuid 0) uploaded_song))))
          (nodes demo_fs @
             [([''srv'', ''uploads'', ''blue_1.mp3''], File (Bytes ''ID3 tagged'')),
              ([''srv'', ''uploads'', ''covers'', demo_uuid 0 @ ''.jpg''], File (Bytes ''JFIF''))])\<rparr>,
      uuid_count = 1\<rparr>"

definition locked_world :: world where
  "locked_world =
     \<lparr>disk = demo_fs\<lparr>write_faults :=
               [([''srv'', ''library.json''], ''[Errno 30] Read-only file system'')]\<rparr>,
      uuid_count = 0\<rparr>"

lemma upload_demo:
  "upload_file demo_env demo_upload demo_world
     = Some (Json 201 (uploaded_body ''blue_1.mp3'' uploaded_song), uploaded_world)"
  by code_simp

lemma upload_locked:
  "upload_file demo_env demo_upload locked_world
     = Some (Json 500 (error_body
               ''Failed to process file: Failed to save library data after processing.''),
             locked_world\<lparr>uuid_count := 1\<rparr>)"
  by code_simp

lemma stored_name_demo: "stored_name demo_fs ''blue.mp3'' = Some (''blue_1.mp3'', 2)"
  by code_simp

lemma accepted_demo: "accepted demo_upload demo_file"
  by code_simp

lemma holds_catalog_locked: "holds_catalog locked_world demo_library"
proof -
  have "fs_read (disk locked_world) LIBRARY_FILE = fs_read (disk demo_world) LIBRARY_FILE"
    by code_simp
  with holds_catalog_demo show ?thesis by (simp add: holds_catalog_def)
qed

lemma locked_world_facts:
  "remove_faults (disk locked_world) = []"
  "\<forall>ext \<in> set ALLOWED_COVER_EXTENSIONS.
     \<not> os_path_exists (disk locked_world) (cover_target (uuid4 demo_env (uuid_count locked_world)) ext)"
  "fs_ok (disk locked_world)"
  by code_simp+

lemma nameless_upload:
  "allowed_file ''.mp3''" "stored_name demo_fs ''.mp3'' = Some (''mp3'', 1)"
  "\<not> allowed_file ''mp3''"
  by code_simp+

section \<open>Properties of the upload handler\<close>

text \<open>C10: The loop that looks for a free file name ends for every disk and
  every name that was sent: \<^verbatim>\<open>stored_name\<close> returns a name and a
  counter.\<close>

theorem stored_name_returns: "\<exists>filename counter. stored_name f name = Some (filename, counter)"
  by (cases rule: stored_name_cases [of f name]) auto

text \<open>C25: The counter of the loop stays below the number of entries of the
  disk plus two: the loop tries at most one numbered name more than the disk
  has entries.\<close>

theorem stored_name_bound:
  assumes "stored_name f name = Some (filename, counter)"
  shows "counter \<le> length (nodes f) + 2"
  using assms by (cases rule: stored_name_cases [of f name]) auto

theorem stored_name_bound_witness:
  "stored_name demo_fs ''blue.mp3'' = Some (''blue_1.mp3'', 2) \<and> 2 \<le> length (nodes demo_fs) + 2"
  using stored_name_bound [OF stored_name_demo] by (simp add: stored_name_demo)

text \<open>C24: The name a file is stored under is free, and it is the first free
  name of the policy: the sanitised name if that is free (the counter is
  then 1), and otherwise the sanitised name with \<^verbatim>\<open>_m\<close> before its
  extension for the least \<^verbatim>\<open>m\<close> from 1 on for which that name is free.\<close>

theorem stored_name_first_free:
  assumes "stored_name f name = Some (filename, counter)"
    and "splitext (secure_filename name) = (base, ext)"
  shows "\<not> taken f filename \<and>
         (if counter = 1 then filename = secure_filename name
          else taken f (secure_filename name) \<and> filename = numbered base ext (counter - 1) \<and>
               (\<forall>k. 1 \<le> k \<and> k < counter - 1 \<longrightarrow> taken f (numbered base ext k)))"
  using assms by (cases rule: stored_name_cases [of f name]) auto

theorem stored_name_first_free_witness:
  "stored_name demo_fs ''blue.mp3'' = Some (''blue_1.mp3'', 2) \<and>
   splitext (secure_filename ''blue.mp3'') = (''blue'', ''.mp3'') \<and>
   \<not> taken demo_fs ''blue_1.mp3'' \<and> taken demo_fs ''blue.mp3''"
proof -
  have s: "splitext (secure_filename ''blue.mp3'') = (''blue'', ''.mp3'')"
    "secure_filename ''blue.mp3'' = ''blue.mp3''"
    "numbered ''blue'' ''.mp3'' (Suc 0) = ''blue_1.mp3''"
    "splitext ''blue.mp3'' = (''blue'', ''.mp3'')" by code_simp+
  from stored_name_first_free [OF stored_name_demo s(1)] stored_name_demo
  show ?thesis by (simp add: s)
qed

text \<open>C27: \<^verbatim>\<open>upload_file\<close> answers every request it returns from with a JSON
  body and the status 201, 400 or 500: no exception leaves the view.\<close>

theorem upload_file_answers:
  assumes "upload_file e req w = Some (r, w')"
  shows "\<exists>body. r = Json 201 body \<or> r = Json 400 body \<or> r = Json 500 body"
  using assms by (cases rule: upload_file_cases [of req e w]) auto

theorem upload_file_answers_witness:
  "upload_file demo_env demo_upload demo_world
     = Some (Json 201 (uploaded_body ''blue_1.mp3'' uploaded_song), uploaded_world) \<and>
   (\<exists>body. Json 201 (uploaded_body ''blue_1.mp3'' uploaded_song) = Json 201 body \<or>
      Json 201 (uploaded_body ''blue_1.mp3'' uploaded_song) = Json 400 body \<or>
      Json 201 (uploaded_body ''blue_1.mp3'' uploaded_song) = Json 500 body)"
  using upload_file_answers [OF upload_demo] by (simp add: upload_demo)

text \<open>C26: \<^verbatim>\<open>upload_file\<close> answers 400 exactly when the request does not
  pass the checks (no field \<^verbatim>\<open>file\<close>, an empty name, a name that is no
  MP3 name, or a cover whose name is no picture name), and then the world is
  unchanged: nothing is written before the checks have passed.\<close>

theorem upload_file_rejects:
  "(\<exists>body. upload_file e req w = Some (Json 400 body, w')) \<longleftrightarrow>
   (\<forall>mp3_file. \<not> accepted req mp3_file) \<and> w' = w"
  by (rule upload_file_400)

text \<open>C8: An upload answered 201 to a disk that holds a normal catalog: the
  body carries the record of the resolver for the new identifier and the
  stored name, the catalog file then holds the old catalog with that record
  filed under the identifier, the stored name was free before, and the
  stored file holds the bytes that were sent.\<close>

theorem upload_file_stores:
  assumes "holds_catalog w d" and "uuid_ok e"
    and "upload_file e req w = Some (Json 201 body, w')"
  shows "\<exists>mp3_file filename counter md.
           accepted req mp3_file \<and>
           stored_name (disk w) (storage_filename mp3_file) = Some (filename, counter) \<and>
           \<not> taken (disk w) filename \<and>
           body = uploaded_body filename md \<and>
           song_record (uuid4 e (uuid_count w)) filename md \<and>
           holds_catalog w' (with_song d (uuid4 e (uuid_count w)) md) \<and>
           (\<exists>a. stat (disk w') (path_str (joinpath (Path UPLOAD_FOLDER) filename))
                  = Some (a, File (Bytes (storage_bytes mp3_file))))"
  using assms
proof (cases rule: upload_file_holds)
  case (stored mp3_file filename counter md)
  with upload_file_bytes [OF assms(1,2) stored(1,2) assms(3)]
    stored_name_ok(2) [OF accepted_allowed [OF stored(1)] stored(2)]
  show ?thesis by blast
next
  case kept
  from kept(2) [of body] show ?thesis by simp
qed

theorem upload_file_stores_witness:
  "holds_catalog demo_world demo_library \<and> uuid_ok demo_env \<and>
   upload_file demo_env demo_upload demo_world
     = Some (Json 201 (uploaded_body ''blue_1.mp3'' uploaded_song), uploaded_world) \<and>
   (\<exists>md. uploaded_body ''blue_1.mp3'' uploaded_song = uploaded_body ''blue_1.mp3'' md \<and>
      holds_catalog uploaded_world (with_song demo_library (demo_uuid 0) md))"
proof -
  from upload_file_stores [OF holds_catalog_demo uuid_ok_demo upload_demo]
  obtain filename md where "uploaded_body ''blue_1.mp3'' uploaded_song = uploaded_body filename md"
    and "holds_catalog uploaded_world (with_song demo_library (uuid4 demo_env 0) md)"
    by auto
  then have "\<exists>md. uploaded_body ''blue_1.mp3'' uploaded_song = uploaded_body ''blue_1.mp3'' md \<and>
      holds_catalog uploaded_world (with_song demo_library (demo_uuid 0) md)"
    by (auto simp: uploaded_body_def demo_env_def)
  with holds_catalog_demo uuid_ok_demo upload_demo show ?thesis by simp
qed

text \<open>C12: An upload that is not answered 201 leaves the catalog as it was: a
  disk that held a normal catalog holds the same catalog afterwards, so the
  catalog never names a file of an upload that failed.\<close>

theorem upload_file_keeps_catalog:
  assumes "holds_catalog w d" and "uuid_ok e"
    and "upload_file e req w = Some (r, w')" and "\<forall>body. r \<noteq> Json 201 body"
  shows "holds_catalog w' d"
  using assms(1-3)
proof (cases rule: upload_file_holds)
  case (stored mp3_file filename counter md)
  with assms(4) show ?thesis by simp
qed

theorem upload_file_keeps_catalog_witness:
  "holds_catalog locked_world demo_library \<and> uuid_ok demo_env \<and>
   upload_file demo_env demo_upload locked_world
     = Some (Json 500 (error_body
               ''Failed to process file: Failed to save library data after processing.''),
             locked_world\<lparr>uuid_count := 1\<rparr>) \<and>
   holds_catalog (locked_world\<lparr>uuid_count := 1\<rparr>) demo_library"
  using upload_file_keeps_catalog [OF holds_catalog_locked uuid_ok_demo upload_locked]
  by (simp add: holds_catalog_locked uuid_ok_demo upload_locked)

text \<open>C11: An upload answered 500 removes what it wrote: on a disk that holds
  a normal catalog, has no fault of removal and no cover of the identifier
  that is drawn, every entry of the disk is after the upload what it was
  before; the stored file and the cover are gone.\<close>

theorem upload_file_rolls_back:
  assumes "holds_catalog w d" and "uuid_ok e"
    and "remove_faults (disk w) = []"
    and "\<forall>ext \<in> set ALLOWED_COVER_EXTENSIONS.
           \<not> os_path_exists (disk w) (cover_target (uuid4 e (uuid_count w)) ext)"
    and "upload_file e req w = Some (Json 500 body, w')"
  shows "\<forall>a. node_at (disk w') a = node_at (disk w) a"
  using upload_file_rollback [OF assms] by simp

theorem upload_file_rolls_back_witness:
  "holds_catalog locked_world demo_library \<and> uuid_ok demo_env \<and>
   remove_faults (disk locked_world) = [] \<and>
   upload_file demo_env demo_upload locked_world
     = Some (Json 500 (error_body
               ''Failed to process file: Failed to save library data after processing.''),
             locked_world\<lparr>uuid_count := 1\<rparr>) \<and>
   (\<forall>a. node_at (disk (locked_world\<lparr>uuid_count := 1\<rparr>)) a = node_at (disk locked_world) a)"
  using upload_file_rolls_back [OF holds_catalog_locked uuid_ok_demo locked_world_facts(1,2) upload_locked]
  by (simp add: holds_catalog_locked uuid_ok_demo locked_world_facts(1) upload_locked)

end
