(* ===== verification/Static_Servers.thy ===== *)
theory Static_Servers
  imports Upload_Paths
begin

text \<open>
  The two views that send stored files, \<^verbatim>\<open>serve_uploaded_file\<close> and
  \<^verbatim>\<open>serve_cover_file\<close> of \<^verbatim>\<open>src/app.py\<close> (lines 373--398), with the
  functions of the library they call: \<^verbatim>\<open>os.path.abspath\<close>,
  \<^verbatim>\<open>posixpath.normpath\<close>, \<^verbatim>\<open>werkzeug.security.safe_join\<close> and
  \<^verbatim>\<open>send_from_directory\<close>. The views read the disk and change nothing.
\<close>

section \<open>Paths as the library normalises them\<close>

text \<open>\<^verbatim>\<open>os.path.abspath(s)\<close>: the path from the root, without \<^verbatim>\<open>.\<close> and
  \<^verbatim>\<open>..\<close>.\<close>

definition os_path_abspath :: "fs \<Rightarrow> string \<Rightarrow> string" where
  "os_path_abspath f s = apath_str (realpath f s)"

text \<open>\<^verbatim>\<open>os.path.isfile(s)\<close>.\<close>

definition os_path_isfile :: "fs \<Rightarrow> string \<Rightarrow> bool" where
  "os_path_isfile f s \<longleftrightarrow> (case stat f s of Some (a, File c) \<Rightarrow> True | _ \<Rightarrow> False)"

text \<open>
  The loop of \<^verbatim>\<open>posixpath.normpath\<close> over the components: an empty
  component and \<^verbatim>\<open>.\<close> are dropped; \<^verbatim>\<open>..\<close> removes the component before
  it, and is kept where there is none to remove in a relative path or where
  the one before it is \<^verbatim>\<open>..\<close> itself.
\<close>

fun norm_comps :: "bool \<Rightarrow> string list \<Rightarrow> string list \<Rightarrow> string list" where
  "norm_comps initial_slashes [] new_comps = new_comps"
| "norm_comps initial_slashes (part # comps) new_comps =
     (if part = [] \<or> part = ''.'' then norm_comps initial_slashes comps new_comps
      else if part \<noteq> ''..'' \<or> (\<not> initial_slashes \<and> new_comps = [])
              \<or> (new_comps \<noteq> [] \<and> last new_comps = ''..'')
      then norm_comps initial_slashes comps (new_comps @ [part])
      else norm_comps initial_slashes comps (butlast new_comps))"

text \<open>\<^verbatim>\<open>posixpath.normpath(path)\<close>; exactly two leading slashes are kept.\<close>

definition posix_normpath :: "string \<Rightarrow> string" where
  "posix_normpath path =
     (if path = [] then ''.''
      else
        let initial_slashes =
              (if startswith path ''//'' \<and> \<not> startswith path ''///'' then 2
               else if startswith path ''/'' then 1 else 0 :: nat);
            comps = norm_comps (0 < initial_slashes) (split_on (CHR ''/'') path) [];
            path' = replicate initial_slashes (CHR ''/'') @ join_with (CHR ''/'') comps
        in if path' = [] then ''.'' else path')"

text \<open>
  \<^verbatim>\<open>werkzeug.security.safe_join(directory, filename)\<close>: the file name is
  normalised and refused if it is absolute or leaves the directory.
\<close>

definition safe_join :: "string \<Rightarrow> string \<Rightarrow> string option" where
  "safe_join directory filename =
     (let directory' = (if directory = [] then ''.'' else directory);
          filename' = (if filename \<noteq> [] then posix_normpath filename else filename)
      in if startswith filename' ''/'' \<or> filename' = ''..'' \<or> startswith filename' ''../''
         then None
         else Some (os_path_join directory' filename'))"

section \<open>send\_from\_directory\<close>

text \<open>The description of a \<^verbatim>\<open>NotFound\<close> raised without one.\<close>

definition not_found_description :: string where
  "not_found_description =
     ''The requested URL was not found on the server. If you entered the URL manually please check your spelling and try again.''"

text \<open>
  \<^verbatim>\<open>send_from_directory(directory, path)\<close>: \<^verbatim>\<open>NotFound\<close> for a path that
  \<^verbatim>\<open>safe_join\<close> refuses and for a path that names no file; otherwise the
  file is opened and sent, and what opening it raises is raised.
\<close>

definition send_from_directory :: "fs \<Rightarrow> string \<Rightarrow> string \<Rightarrow> response result" where
  "send_from_directory f directory path =
     (case safe_join directory path of
        None \<Rightarrow> Inl (NotFound not_found_description)
      | Some joined \<Rightarrow>
          if \<not> os_path_isfile f joined then Inl (NotFound not_found_description)
          else (case fs_read f joined of
                  Inl ex \<Rightarrow> Inl ex
                | Inr c \<Rightarrow> Inr (Sent c)))"

section \<open>The views\<close>

text \<open>
  Lines 373--384 and 387--398. \<^verbatim>\<open>abort\<close> raises the exception that Flask
  answers with the status and the description; the first handler catches
  \<^verbatim>\<open>FileNotFoundError\<close> only, the second every other exception.
\<close>

definition serve_uploaded_file :: "fs \<Rightarrow> string \<Rightarrow> response" where
  "serve_uploaded_file f filename =
     (let upload_dir = os_path_abspath f UPLOAD_FOLDER
      in case send_from_directory f upload_dir filename of
           Inr answer \<Rightarrow> answer
         | Inl (FileNotFoundError m) \<Rightarrow> Abort 404 ''Audio file not found''
         | Inl ex \<Rightarrow> Abort 500 ''Server error serving audio file'')"

definition serve_cover_file :: "fs \<Rightarrow> string \<Rightarrow> response" where
  "serve_cover_file f filename =
     (let covers_dir = os_path_abspath f COVERS_FOLDER
      in case send_from_directory f covers_dir filename of
           Inr answer \<Rightarrow> answer
         | Inl (FileNotFoundError m) \<Rightarrow> Abort 404 ''Cover file not found''
         | Inl ex \<Rightarrow> Abort 500 ''Server error serving cover file'')"

lemmas [handler_defs] =
  os_path_abspath_def os_path_isfile_def posix_normpath_def safe_join_def
  not_found_description_def send_from_directory_def serve_uploaded_file_def
  serve_cover_file_def

section \<open>Facts about the library functions\<close>

text \<open>The exceptions of \<^verbatim>\<open>send_from_directory\<close>: \<^verbatim>\<open>NotFound\<close>, or what
  reading a file that exists raises; never \<^verbatim>\<open>FileNotFoundError\<close>.\<close>

lemma fs_read_of_file:
  "os_path_isfile f s \<Longrightarrow> fs_read f s = Inl ex \<Longrightarrow> \<exists>m. ex = OSError m"
  by (auto simp: os_path_isfile_def fs_read_def split: option.splits node.splits prod.splits)

lemma send_from_directory_raises:
  assumes "send_from_directory f directory path = Inl ex"
  shows "ex = NotFound not_found_description \<or> (\<exists>m. ex = OSError m)"
  using assms
  by (auto simp: send_from_directory_def dest: fs_read_of_file
      split: option.splits if_splits sum.splits)

lemma send_from_directory_sent:
  assumes "send_from_directory f directory path = Inr r"
  obtains joined c where "safe_join directory path = Some joined"
    and "fs_read f joined = Inr c" and "r = Sent c"
  using assms
  by (auto simp: send_from_directory_def split: option.splits if_splits sum.splits)

lemma serve_uploaded_file_cases [case_names sent refused]:
  obtains joined c where "safe_join (os_path_abspath f UPLOAD_FOLDER) filename = Some joined"
      and "fs_read f joined = Inr c" and "serve_uploaded_file f filename = Sent c"
  | "serve_uploaded_file f filename = Abort 500 ''Server error serving audio file''"
proof (cases "send_from_directory f (os_path_abspath f UPLOAD_FOLDER) filename")
  case (Inl ex)
  from send_from_directory_raises [OF this] Inl show ?thesis
    by (intro that(2)) (auto simp: serve_uploaded_file_def)
next
  case (Inr r)
  then show ?thesis
    by (elim send_from_directory_sent, intro that(1)) (simp_all add: serve_uploaded_file_def)
qed

lemma serve_cover_file_cases [case_names sent refused]:
  obtains joined c where "safe_join (os_path_abspath f COVERS_FOLDER) filename = Some joined"
      and "fs_read f joined = Inr c" and "serve_cover_file f filename = Sent c"
  | "serve_cover_file f filename = Abort 500 ''Server error serving cover file''"
proof (cases "send_from_directory f (os_path_abspath f COVERS_FOLDER) filename")
  case (Inl ex)
  from send_from_directory_raises [OF this] Inl show ?thesis
    by (intro that(2)) (auto simp: serve_cover_file_def)
next
  case (Inr r)
  then show ?thesis
    by (elim send_from_directory_sent, intro that(1)) (simp_all add: serve_cover_file_def)
qed

section \<open>Normalised paths\<close>

text \<open>What the loop of \<^verbatim>\<open>normpath\<close> builds for a relative path: steps to
  the parent first, then names.\<close>

definition upward :: "string list \<Rightarrow> bool" where
  "upward cs \<longleftrightarrow> (\<exists>k ns. cs = replicate k ''..'' @ ns \<and> list_all name_ok ns)"

lemma upward_Nil [simp]: "upward []"
  by (simp add: upward_def)

lemma upward_name: "upward cs \<Longrightarrow> name_ok c \<Longrightarrow> upward (cs @ [c])"
  by (fastforce simp: upward_def)

lemma upward_up:
  assumes "upward cs" and "cs = [] \<or> last cs = ''..''"
  shows "upward (cs @ [''..''])"
proof -
  from assms(1) obtain k ns where cs: "cs = replicate k ''..'' @ ns" and ns: "list_all name_ok ns"
    by (auto simp: upward_def)
  have "ns = []"
  proof (rule ccontr)
    assume "ns \<noteq> []"
    with cs assms(2) have "last ns = ''..''" by simp
    moreover from ns \<open>ns \<noteq> []\<close> have "name_ok (last ns)" by (simp add: list_all_iff)
    ultimately show False by (simp add: name_ok_def)
  qed
  with cs have "cs @ [''..''] = replicate (Suc k) ''..'' @ []"
    by (simp add: replicate_append_same)
  then show ?thesis
    unfolding upward_def by (intro exI [of _ "Suc k"] exI [of _ "[]"]) simp
qed

lemma upward_pop:
  assumes "upward cs" and "cs \<noteq> []" and "last cs \<noteq> ''..''"
  shows "upward (butlast cs)"
proof -
  from assms(1) obtain k ns where cs: "cs = replicate k ''..'' @ ns" and ns: "list_all name_ok ns"
    by (auto simp: upward_def)
  have "ns \<noteq> []"
  proof
    assume "ns = []"
    with cs assms(2) have "cs = replicate k ''..''" "k \<noteq> 0" by auto
    with assms(3) show False by (simp add: last_replicate)
  qed
  with cs have "butlast cs = replicate k ''..'' @ butlast ns" by (simp add: butlast_append)
  moreover from ns have "list_all name_ok (butlast ns)"
    by (auto simp: list_all_iff dest: in_set_butlastD)
  ultimately show ?thesis unfolding upward_def by blast
qed

lemma norm_step_upward:
  assumes "upward acc" and "CHR ''/'' \<notin> set c" and "c \<noteq> []" and "c \<noteq> ''.''"
  shows "upward (if c \<noteq> ''..'' \<or> acc = [] \<or> (acc \<noteq> [] \<and> last acc = ''..'')
                 then acc @ [c] else butlast acc)"
proof (cases "c = ''..''")
  case False
  with assms have "name_ok c" by (simp add: name_ok_def)
  with assms(1) False show ?thesis by (simp add: upward_name)
next
  case True
  have "upward [''..'']" using upward_up [of "[]"] by simp
  with True assms(1) show ?thesis by (auto intro: upward_up upward_pop)
qed

lemma norm_comps_upward:
  "upward acc \<Longrightarrow> \<forall>c \<in> set comps. CHR ''/'' \<notin> set c \<Longrightarrow>
   upward (norm_comps False comps acc)"
proof (induction comps arbitrary: acc)
  case Nil
  then show ?case by simp
next
  case (Cons c comps)
  show ?case
  proof (cases "c = [] \<or> c = ''.''")
    case True
    with Cons show ?thesis by auto
  next
    case False
    with Cons.prems norm_step_upward [of acc c] Cons.IH show ?thesis by auto
  qed
qed

text \<open>A normalised relative path that \<^verbatim>\<open>safe_join\<close> accepts consists of
  names.\<close>

lemma upward_accepted:
  assumes "upward cs"
    and "join_with (CHR ''/'') cs \<noteq> ''..''"
    and "\<not> startswith (join_with (CHR ''/'') cs) ''../''"
  shows "list_all name_ok cs"
proof -
  from assms(1) obtain k ns where cs: "cs = replicate k ''..'' @ ns" and ns: "list_all name_ok ns"
    by (auto simp: upward_def)
  have "k = 0"
  proof (rule ccontr)
    assume "k \<noteq> 0"
    then obtain j where "k = Suc j" by (cases k) auto
    with cs have "cs = ''..'' # (replicate j ''..'' @ ns)" by simp
    with assms(2,3) show False
      by (cases "replicate j ''..'' @ ns") (simp_all add: join_with_Cons)
  qed
  with cs ns show ?thesis by simp
qed

lemma split_on_append:
  "split_on c (u @ c # v) = split_on c u @ split_on c v"
proof (induction u)
  case Nil
  then show ?case by simp
next
  case (Cons x u)
  obtain w ws where "split_on c u = w # ws" by (cases "split_on c u") simp_all
  with Cons show ?case by simp
qed

text \<open>The string of an absolute path names that path.\<close>

lemma split_on_apath:
  "list_all name_ok a \<Longrightarrow> a \<noteq> [] \<Longrightarrow>
   split_on (CHR ''/'') (concat (map (\<lambda>c. CHR ''/'' # c) a)) = [] # a"
proof (induction a)
  case Nil
  then show ?case by simp
next
  case (Cons c a)
  then have c: "split_on (CHR ''/'') c = [c]" by (simp add: split_on_no_sep name_ok_def)
  show ?case
  proof (cases "a = []")
    case True
    with c show ?thesis by simp
  next
    case False
    with Cons obtain x a' where a: "a = x # a'" by (cases a) auto
    from Cons False have "split_on (CHR ''/'') (concat (map (\<lambda>c. CHR ''/'' # c) a)) = [] # a"
      by simp
    with a c split_on_append [of "CHR ''/''" c "x @ concat (map (\<lambda>c. CHR ''/'' # c) a')"]
    show ?thesis by simp
  qed
qed

lemma realpath_apath_str:
  assumes "list_all name_ok a" and "a \<noteq> []"
  shows "realpath f (apath_str a) = a"
proof -
  from assms(2) have "startswith (apath_str a) ''/''"
    by (cases a) (simp_all add: apath_str_def)
  with assms show ?thesis
    by (simp add: realpath_def start_dir_def split_on_apath apath_str_def normpath_names
        step_into_def)
qed

lemma os_path_join_apath:
  assumes "list_all name_ok a" and "a \<noteq> []" and "\<not> startswith x ''/''"
  shows "os_path_join (apath_str a) x = apath_str a @ CHR ''/'' # x"
proof -
  from assms(1,2) have "name_ok (last a)" by (simp add: list_all_iff)
  then have "last a \<noteq> []" "last (last a) \<noteq> CHR ''/''"
    by (auto simp: name_ok_def dest: last_in_set)
  moreover from assms(2) have "apath_str a = apath_str (butlast a @ [last a])" by simp
  ultimately have "apath_str a \<noteq> []" "last (apath_str a) \<noteq> CHR ''/''"
    by (simp_all add: apath_str_def)
  with assms(3) show ?thesis by (simp add: os_path_join_def)
qed

text \<open>A path below a directory: the names are appended.\<close>

lemma realpath_below:
  assumes "list_all name_ok a" and "a \<noteq> []"
    and "normpath a (split_on (CHR ''/'') x) = a @ ns"
  shows "realpath f (apath_str a @ CHR ''/'' # x) = a @ ns"
proof -
  from assms(2) have "startswith (apath_str a @ CHR ''/'' # x) ''/''"
    by (cases a) (simp_all add: apath_str_def)
  moreover have "normpath [] (split_on (CHR ''/'') (apath_str a)) = a"
    using realpath_apath_str [OF assms(1,2), of f] assms(2)
    by (cases a) (simp_all add: realpath_def start_dir_def apath_str_def)
  ultimately show ?thesis
    using assms(3) by (simp add: realpath_def start_dir_def split_on_append normpath_append)
qed

section \<open>What safe\_join accepts\<close>

lemma posix_normpath_relative:
  assumes "path \<noteq> []" and "\<not> startswith (posix_normpath path) ''/''"
  shows "posix_normpath path =
     (let comps = norm_comps False (split_on (CHR ''/'') path) []
      in if join_with (CHR ''/'') comps = [] then ''.'' else join_with (CHR ''/'') comps)"
proof (cases "startswith path ''/''")
  case True
  with assms(1) have "startswith (posix_normpath path) ''/''"
    by (simp add: posix_normpath_def Let_def numeral_2_eq_2)
  with assms(2) show ?thesis by simp
next
  case False
  then have "\<not> startswith path ''//''" by (cases path) auto
  with False assms(1) show ?thesis by (simp add: posix_normpath_def Let_def)
qed

text \<open>The accepted file name leads from a directory to names below it.\<close>

lemma safe_join_names:
  assumes "safe_join directory filename = Some joined" and "directory \<noteq> []"
  obtains x ns where "joined = os_path_join directory x" and "\<not> startswith x ''/''"
    and "list_all name_ok ns" and "\<forall>cur. normpath cur (split_on (CHR ''/'') x) = cur @ ns"
proof (cases "filename = []")
  case True
  with assms show ?thesis
    by (intro that [of "[]" "[]"]) (simp_all add: safe_join_def step_into_def)
next
  case False
  let ?x = "posix_normpath filename"
  let ?comps = "norm_comps False (split_on (CHR ''/'') filename) []"
  from assms False have j: "joined = os_path_join directory ?x"
    and ok: "\<not> startswith ?x ''/''" "?x \<noteq> ''..''" "\<not> startswith ?x ''../''"
    by (auto simp: safe_join_def Let_def split: if_splits)
  note x = posix_normpath_relative [OF False ok(1), unfolded Let_def]
  have up: "upward ?comps"
    by (intro norm_comps_upward) (auto dest: split_on_pieces)
  show ?thesis
  proof (cases "join_with (CHR ''/'') ?comps = []")
    case True
    with x j ok(1) show ?thesis
      by (intro that [of ?x "[]"]) (simp_all add: step_into_def)
  next
    case nonempty: False
    with x ok have "join_with (CHR ''/'') ?comps \<noteq> ''..''"
      "\<not> startswith (join_with (CHR ''/'') ?comps) ''../''" by simp_all
    with up have names: "list_all name_ok ?comps" by (rule upward_accepted)
    moreover from nonempty have "?comps \<noteq> []" by auto
    ultimately have "split_on (CHR ''/'') (join_with (CHR ''/'') ?comps) = ?comps"
      by (intro split_join_with) (auto simp: list_all_iff name_ok_def)
    with x nonempty names j ok(1) show ?thesis
      by (intro that [of ?x ?comps]) (simp_all add: normpath_names)
  qed
qed

section \<open>What the views send\<close>

lemma sent_below:
  assumes names: "list_all name_ok a" "a \<noteq> []"
    and j: "safe_join (apath_str a) filename = Some joined"
    and r: "fs_read f joined = Inr c"
  obtains ns where "list_all name_ok ns" and "node_at f (a @ ns) = Some (File c)"
proof -
  from names(2) have "apath_str a \<noteq> []" by (cases a) (simp_all add: apath_str_def)
  with j obtain x ns where x: "joined = os_path_join (apath_str a) x" "\<not> startswith x ''/''"
    and ns: "list_all name_ok ns" "\<forall>cur. normpath cur (split_on (CHR ''/'') x) = cur @ ns"
    by (rule safe_join_names) blast
  from x have "joined = apath_str a @ CHR ''/'' # x" by (simp add: os_path_join_apath [OF names])
  with realpath_below [OF names ns(2) [rule_format], of f] have "realpath f joined = a @ ns" by simp
  with r have "node_at f (a @ ns) = Some (File c)"
    by (auto simp: fs_read_Inr_iff dest: stat_SomeD)
  with ns(1) show thesis by (rule that)
qed

lemma upload_dir_eq: "os_path_abspath f UPLOAD_FOLDER = apath_str (cwd f @ [''uploads''])"
  by (simp add: os_path_abspath_def realpath_def UPLOAD_FOLDER_def start_dir_def step_into_def)

lemma covers_dir_eq: "os_path_abspath f COVERS_FOLDER = apath_str (cwd f @ [''uploads'', ''covers''])"
  by (simp add: os_path_abspath_def realpath_def COVERS_FOLDER_eq start_dir_def step_into_def)

lemma serve_uploaded_file_below:
  assumes "list_all name_ok (cwd f)" and "serve_uploaded_file f filename = Sent c"
  obtains ns where "list_all name_ok ns"
    and "node_at f (cwd f @ ''uploads'' # ns) = Some (File c)"
proof (cases rule: serve_uploaded_file_cases [of f filename])
  case (sent joined c')
  from assms(1) have "list_all name_ok (cwd f @ [''uploads''])" by simp
  from this _ sent(1) [unfolded upload_dir_eq] sent(2) obtain ns where "list_all name_ok ns"
    and "node_at f ((cwd f @ [''uploads'']) @ ns) = Some (File c')"
    by (rule sent_below) simp
  with sent(3) assms(2) show ?thesis by (intro that [of ns]) simp_all
next
  case refused
  with assms(2) show ?thesis by simp
qed

lemma serve_cover_file_below:
  assumes "list_all name_ok (cwd f)" and "serve_cover_file f filename = Sent c"
  obtains ns where "list_all name_ok ns"
    and "node_at f (cwd f @ ''uploads'' # ''covers'' # ns) = Some (File c)"
proof (cases rule: serve_cover_file_cases [of f filename])
  case (sent joined c')
  from assms(1) have "list_all name_ok (cwd f @ [''uploads'', ''covers''])" by simp
  from this _ sent(1) [unfolded covers_dir_eq] sent(2) obtain ns where "list_all name_ok ns"
    and "node_at f ((cwd f @ [''uploads'', ''covers'']) @ ns) = Some (File c')"
    by (rule sent_below) simp
  with sent(3) assms(2) show ?thesis by (intro that [of ns]) simp_all
next
  case refused
  with assms(2) show ?thesis by simp
qed

section \<open>Files the views find\<close>

text \<open>In a well-formed file system every entry has names on its path and
  directories above it.\<close>

lemma fs_ok_above:
  "fs_ok f \<Longrightarrow> node_at f a \<noteq> None \<Longrightarrow>
   list_all name_ok a \<and> (\<forall>b. strict_prefix b a \<longrightarrow> node_at f b = Some Dir)"
proof (induction a rule: rev_induct)
  case Nil
  then show ?case by simp
next
  case (snoc x xs)
  from snoc.prems(2) obtain n where "(xs @ [x], n) \<in> set (nodes f)"
    by (auto simp: node_at_def dest: map_of_SomeD)
  with snoc.prems(1) have above: "node_at f xs = Some Dir" and x: "name_ok x"
    by (auto dest: fs_ok_entryD)
  with snoc have "list_all name_ok xs" "\<forall>b. strict_prefix b xs \<longrightarrow> node_at f b = Some Dir"
    by simp_all
  with above x show ?case by (auto simp: strict_prefix_def prefix_snoc)
qed

lemma stops_names:
  assumes "list_all name_ok cs"
    and "\<forall>b. strict_prefix b cs \<longrightarrow> P (cur @ b)"
  shows "list_all P (stops cur cs)"
  using assms
proof (induction cs arbitrary: cur)
  case Nil
  then show ?case by simp
next
  case (Cons c cs)
  from Cons.prems(2) have "P cur" by (auto dest: spec [of _ "[]"])
  moreover have "\<forall>b. strict_prefix b cs \<longrightarrow> P ((cur @ [c]) @ b)"
    using Cons.prems(2) by (auto dest: spec [of _ "c # b" for b])
  with Cons.prems(1) have "list_all P (stops (cur @ [c]) cs)" by (intro Cons.IH) simp_all
  ultimately show ?case using Cons.prems(1) by simp
qed

text \<open>The string of the path of an entry names the entry.\<close>

lemma stat_apath_str:
  assumes "fs_ok f" and "node_at f a = Some n" and "a \<noteq> []"
  shows "stat f (apath_str a) = Some (a, n)"
proof -
  from assms(1,2) have names: "list_all name_ok a"
    and above: "\<forall>b. strict_prefix b a \<longrightarrow> node_at f b = Some Dir"
    using fs_ok_above [of f a] by simp_all
  from assms(3) have abs: "apath_str a \<noteq> []" "startswith (apath_str a) ''/''"
    by (cases a; simp add: apath_str_def)+
  from names above have "list_all (\<lambda>d. node_at f d = Some Dir) (stops [] a)"
    by (intro stops_names) simp_all
  moreover from assms(1) have "node_at f [] = Some Dir" by (simp add: fs_ok_def)
  ultimately have "list_all (\<lambda>d. node_at f d = Some Dir)
      (stops (start_dir f (apath_str a)) (split_on (CHR ''/'') (apath_str a)))"
    using abs(2) assms(3) names
    by (simp add: start_dir_def split_on_apath apath_str_def step_into_def)
  with abs(1) assms(2) realpath_apath_str [OF names assms(3), of f] show ?thesis
    by (simp add: stat_eq)
qed

text \<open>A file name is what \<^verbatim>\<open>normpath\<close> and \<^verbatim>\<open>safe_join\<close> leave it.\<close>

lemma posix_normpath_name: "name_ok name \<Longrightarrow> posix_normpath name = name"
  by (cases name)
    (auto simp: posix_normpath_def Let_def split_on_no_sep name_ok_def)

lemma safe_join_name:
  assumes "list_all name_ok a" and "a \<noteq> []" and "name_ok name"
  shows "safe_join (apath_str a) name = Some (apath_str (a @ [name]))"
proof -
  from assms(3) have "\<not> startswith name ''/''" "name \<noteq> ''..''" "\<not> startswith name ''../''"
    "name \<noteq> []"
    by (cases name; auto simp: name_ok_def startswith_def prefix_def)+
  moreover from assms(2) have "apath_str a \<noteq> []" by (cases a) (simp_all add: apath_str_def)
  moreover from assms(2) have "apath_str (a @ [name]) = apath_str a @ CHR ''/'' # name"
    by (simp add: apath_str_def)
  ultimately show ?thesis
    by (simp add: safe_join_def posix_normpath_name [OF assms(3)] os_path_join_apath [OF assms(1,2)])
qed

lemma send_from_directory_file:
  assumes "fs_ok f" and "node_at f a = Some Dir" and "a \<noteq> []" and "name_ok name"
    and "node_at f (a @ [name]) = Some (File c)" and "read_fault f (a @ [name]) = None"
  shows "send_from_directory f (apath_str a) name = Inr (Sent c)"
proof -
  from assms(1,2) have names: "list_all name_ok a" using fs_ok_above [of f a] by simp
  from assms(1,5) have st: "stat f (apath_str (a @ [name])) = Some (a @ [name], File c)"
    by (rule stat_apath_str) simp
  then have "realpath f (apath_str (a @ [name])) = a @ [name]" by (auto dest: stat_SomeD)
  with st assms(6) have "fs_read f (apath_str (a @ [name])) = Inr c"
    by (simp add: fs_read_Inr_iff)
  with st show ?thesis
    by (simp add: send_from_directory_def safe_join_name [OF names assms(3,4)]
        os_path_isfile_def)
qed

lemma serve_uploaded_file_sends:
  assumes "fs_ok f" and "name_ok name"
    and "node_at f (cwd f @ [''uploads'', name]) = Some (File c)"
    and "read_fault f (cwd f @ [''uploads'', name]) = None"
  shows "serve_uploaded_file f name = Sent c"
proof -
  have "strict_prefix (cwd f @ [''uploads'']) (cwd f @ [''uploads'', name])"
    by (simp add: strict_prefix_def)
  with assms(1,3) have "node_at f (cwd f @ [''uploads'']) = Some Dir"
    using fs_ok_above [of f "cwd f @ [''uploads'', name]"] by simp
  with assms have "send_from_directory f (apath_str (cwd f @ [''uploads''])) name = Inr (Sent c)"
    by (intro send_from_directory_file) simp_all
  then show ?thesis by (simp add: serve_uploaded_file_def upload_dir_eq)
qed

lemma serve_cover_file_sends:
  assumes "fs_ok f" and "name_ok name"
    and "node_at f (cwd f @ [''uploads'', ''covers'', name]) = Some (File c)"
    and "read_fault f (cwd f @ [''uploads'', ''covers'', name]) = None"
  shows "serve_cover_file f name = Sent c"
proof -
  have "strict_prefix (cwd f @ [''uploads'', ''covers'']) (cwd f @ [''uploads'', ''covers'', name])"
    by (simp add: strict_prefix_def)
  with assms(1,3) have "node_at f (cwd f @ [''uploads'', ''covers'']) = Some Dir"
    using fs_ok_above [of f "cwd f @ [''uploads'', ''covers'', name]"] by simp
  with assms
  have "send_from_directory f (apath_str (cwd f @ [''uploads'', ''covers''])) name = Inr (Sent c)"
    by (intro send_from_directory_file) simp_all
  then show ?thesis by (simp add: serve_cover_file_def covers_dir_eq)
qed

section \<open>Examples\<close>

lemma serve_demo:
  "serve_uploaded_file demo_fs ''blue.mp3'' = Sent (Bytes ''ID3 tagged'')"
  "serve_uploaded_file demo_fs ''covers/../blue.mp3'' = Sent (Bytes ''ID3 tagged'')"
  "serve_uploaded_file demo_fs ''missing.mp3'' = Abort 500 ''Server error serving audio file''"
  "serve_uploaded_file demo_fs ''../library.json'' = Abort 500 ''Server error serving audio file''"
  "serve_cover_file demo_fs (demo_id @ ''.png'') = Sent (Bytes ''PNG'')"
  "list_all name_ok (cwd demo_fs)"
  by code_simp+

section \<open>Properties of the static servers\<close>

text \<open>C32: The two views answer with the file or with the status 500, and
  never with 404: \<^verbatim>\<open>send_from_directory\<close> raises \<^verbatim>\<open>NotFound\<close> for a file
  that is missing and for a path that leaves the folder, which is no
  \<^verbatim>\<open>FileNotFoundError\<close>, so the handler of \<^verbatim>\<open>Exception\<close> answers it.\<close>

theorem serve_answers_500_not_404:
  "((\<exists>c. serve_uploaded_file f filename = Sent c) \<or>
      serve_uploaded_file f filename = Abort 500 ''Server error serving audio file'') \<and>
   ((\<exists>c. serve_cover_file f filename = Sent c) \<or>
      serve_cover_file f filename = Abort 500 ''Server error serving cover file'')"
proof
  show "(\<exists>c. serve_uploaded_file f filename = Sent c) \<or>
      serve_uploaded_file f filename = Abort 500 ''Server error serving audio file''"
    by (cases rule: serve_uploaded_file_cases [of f filename]) auto
  show "(\<exists>c. serve_cover_file f filename = Sent c) \<or>
      serve_cover_file f filename = Abort 500 ''Server error serving cover file''"
    by (cases rule: serve_cover_file_cases [of f filename]) auto
qed

text \<open>C15: What the views send is a file below their folder: the content of
  an entry of the disk whose path is the upload folder, or the covers
  folder, followed by names. No file name that was requested leads out of
  the folder.\<close>

theorem serve_stays_in_folder:
  assumes "list_all name_ok (cwd f)"
  shows "(serve_uploaded_file f filename = Sent c \<longrightarrow>
            (\<exists>ns. list_all name_ok ns \<and> node_at f (cwd f @ ''uploads'' # ns) = Some (File c))) \<and>
         (serve_cover_file f filename = Sent c \<longrightarrow>
            (\<exists>ns. list_all name_ok ns \<and>
               node_at f (cwd f @ ''uploads'' # ''covers'' # ns) = Some (File c)))"
  using assms by (blast elim: serve_uploaded_file_below serve_cover_file_below)

theorem serve_stays_in_folder_witness:
  "list_all name_ok (cwd demo_fs) \<and>
   serve_uploaded_file demo_fs ''covers/../blue.mp3'' = Sent (Bytes ''ID3 tagged'') \<and>
   (\<exists>ns. list_all name_ok ns \<and>
      node_at demo_fs (cwd demo_fs @ ''uploads'' # ns) = Some (File (Bytes ''ID3 tagged'')))"
  using serve_stays_in_folder [OF serve_demo(6), of "''covers/../blue.mp3''" "Bytes ''ID3 tagged''"]
  by (simp add: serve_demo name_ok_def)

end
