(* ===== verification/Spec2Isabelle.thy ===== *)
theory Spec2Isabelle
  imports Deletion_Handler Listing_Handler Upload_Handler Static_Servers
begin

text \<open>
  \<^bold>\<open>Soundify: a verified model of the upload, catalog, deletion and file
  serving logic.\<close>

  The program (\<^verbatim>\<open>src/app.py\<close>) is a Flask server that stores uploaded MP3
  files under \<^verbatim>\<open>uploads/\<close>, their cover images under \<^verbatim>\<open>uploads/covers/\<close>
  and a catalog of song records in \<^verbatim>\<open>library.json\<close>. It keeps no state in
  memory between requests: every view loads the catalog from disk with
  \<^verbatim>\<open>load_library\<close>, changes the dictionary and the files, and writes the
  catalog back with \<^verbatim>\<open>save_library\<close>. The state of the model is therefore
  the file system together with the number of identifiers drawn from
  \<^verbatim>\<open>uuid4\<close>; a function of the source becomes a function from that state
  to a result and a new state. An exception is a value: a function that can
  raise returns \<open>py_exn + 'a\<close>, and a \<^verbatim>\<open>try\<close> of the source is a case
  distinction on that sum, with the \<^verbatim>\<open>except\<close> clauses deciding which
  exceptions it catches.

  \<^bold>\<open>Theories, in import order.\<close>
  \<^item> \<^verbatim>\<open>Soundify_Prelude\<close>: the exceptions of the source as the datatype
    \<open>py_exn\<close>, the result type, the fact collections \<open>str_defs\<close>,
    \<open>dict_defs\<close>, \<open>fs_defs\<close> and \<open>handler_defs\<close>, and generic lemmas on
    splitting a list at a separator and on association lists.
  \<^item> \<^verbatim>\<open>Py_String\<close>: the \<^verbatim>\<open>str\<close> methods the source calls (\<^verbatim>\<open>lower\<close>,
    \<^verbatim>\<open>rsplit\<close>, \<^verbatim>\<open>startswith\<close>, \<^verbatim>\<open>lstrip\<close>, \<^verbatim>\<open>strip\<close>), decimal
    printing with its injectivity, and \<^verbatim>\<open>secure_filename\<close> of werkzeug on
    ASCII names, with the facts that its result has no slash, no leading dot,
    is not \<^verbatim>\<open>..\<close> and keeps the letters and digits of the name.
  \<^item> \<^verbatim>\<open>Py_Path\<close>: \<^verbatim>\<open>os.path.join\<close>, \<^verbatim>\<open>os.path.splitext\<close> and the pure part
    of \<^verbatim>\<open>pathlib.Path\<close> (construction, \<^verbatim>\<open>/\<close>, \<^verbatim>\<open>str\<close>, \<^verbatim>\<open>name\<close>,
    \<^verbatim>\<open>stem\<close>) for POSIX paths, with the round trip between a path and its
    string.
  \<^item> \<^verbatim>\<open>App_Config\<close>: the constants of lines 24--34 and the two file-type
    checks \<^verbatim>\<open>allowed_file\<close> and \<^verbatim>\<open>allowed_cover_file\<close> (lines 40--48),
    characterised by the shape of the names they accept.
  \<^item> \<^verbatim>\<open>Py_Value\<close>: the values of JSON documents as the datatype \<open>pyval\<close>;
    dictionaries as association lists in insertion order whose keys are
    compared as Python compares them; \<open>json_reload\<close>, what \<^verbatim>\<open>json.load\<close>
    returns for the text \<^verbatim>\<open>json.dump\<close> wrote, and \<open>json_ok\<close>, the values
    that come back unchanged.
  \<^item> \<^verbatim>\<open>File_System\<close>: a POSIX tree of directories and files as an
    association list from absolute paths to nodes, the lookup of a path
    string, \<^verbatim>\<open>os.path.exists\<close>, \<^verbatim>\<open>Path.exists\<close>, \<^verbatim>\<open>Path.is_file\<close>,
    \<^verbatim>\<open>Path.resolve\<close>, \<^verbatim>\<open>open\<close> for reading and writing and
    \<^verbatim>\<open>os.remove\<close>, each returning the \<^verbatim>\<open>OSError\<close> that Python raises.
    Three tables list the paths whose reading, writing or removal the
    environment lets fail. The invariant \<open>fs_ok\<close> (no path twice, every
    entry in a directory) is preserved by writing and removing.
  \<^item> \<^verbatim>\<open>World\<close>: the capabilities the source imports (the tag readers
    \<^verbatim>\<open>EasyID3\<close> and \<^verbatim>\<open>MP3\<close> of mutagen, \<^verbatim>\<open>uuid4\<close>) as the record
    \<open>env\<close>, the files of a request, the state \<open>world\<close>, the responses of
    the views, and an example installation on which the theorems are
    instantiated.
  \<^item> \<^verbatim>\<open>Upload_Paths\<close>: where the paths \<^verbatim>\<open>uploads/<name>\<close>,
    \<^verbatim>\<open>uploads/covers/<name>\<close> and \<^verbatim>\<open>library.json\<close> lead, and that they are
    different entries of the disk.
  \<^item> \<^verbatim>\<open>Catalog_Store\<close>: \<^verbatim>\<open>load_library\<close> (lines 51--92) and
    \<^verbatim>\<open>save_library\<close> (lines 95--120). The loop of \<^verbatim>\<open>load_library\<close> is
    \<open>normalize_songs\<close>, its body \<open>normalize_song\<close>, made of the four
    repairs \<open>pick_id\<close>, \<open>repair_id\<close>, \<open>repair_audio\<close> and
    \<open>repair_cover\<close>; the loop of \<^verbatim>\<open>save_library\<close> is \<open>rekey_songs\<close>.
  \<^item> \<^verbatim>\<open>Deletion_Handler\<close>: the view \<^verbatim>\<open>delete_song\<close> (lines 293--370).
    \<open>remove_guarded\<close> is the removal of a file behind the test on its
    resolved path (lines 311--323 and 333--345), \<open>delete_audio\<close> and
    \<open>delete_cover\<close> are the two removals with the flags
    \<^verbatim>\<open>audio_file_deleted\<close> and \<^verbatim>\<open>cover_file_deleted\<close> they set,
    \<open>commit_delete\<close> is the end of the view (lines 354--370). The contract
    of the view is the inductive relation \<open>delete_spec\<close> between the
    catalog and the disk before and after a call, one rule for each of the
    outcomes \<open>NotFound\<close>, \<open>CommittedToCatalog\<close>, \<open>Inconsistent\<close> and
    \<open>FilesPartiallyRemoved\<close>.
  \<^item> \<^verbatim>\<open>Listing_Handler\<close>: the view \<^verbatim>\<open>get_songs\<close> (lines 285--290).
  \<^item> \<^verbatim>\<open>Metadata_Resolver\<close>: \<^verbatim>\<open>get_song_metadata\<close> (lines 123--214):
    \<open>seed_metadata\<close> is the dictionary of lines 134--143,
    \<open>save_uploaded_cover\<close> the block of lines 145--156, \<open>read_basic_tags\<close>
    the text tags with their two handlers (lines 159--172), \<open>scan_covers\<close>
    the loop over the frames of the tag (lines 178--201) inside
    \<open>embedded_cover\<close> (lines 174--203), \<open>final_artist\<close> lines 210--211.
  \<^item> \<^verbatim>\<open>Upload_Handler\<close>: the view \<^verbatim>\<open>upload_file\<close> (lines 220--282): the
    loop of lines 241--245 is \<open>free_name\<close>, started by \<open>stored_name\<close>;
    the steps under \<^verbatim>\<open>try\<close> are \<open>try_upload\<close> with \<open>file_song\<close>; the
    handler of line 262 is \<open>cleanup_mp3\<close> followed by \<open>cleanup_cover\<close>.
  \<^item> \<^verbatim>\<open>Static_Servers\<close>: the views \<^verbatim>\<open>serve_uploaded_file\<close> and
    \<^verbatim>\<open>serve_cover_file\<close> (lines 373--398) with \<^verbatim>\<open>send_from_directory\<close>
    and \<^verbatim>\<open>safe_join\<close> of the library.
  \<^item> \<^verbatim>\<open>Spec2Isabelle\<close> (this theory): the two requests under
    \<^verbatim>\<open>/api/songs\<close> as the function \<open>handle\<close>, all six routes as the
    function \<open>dispatch\<close>, the states the server reaches, and the
    properties that span the views.

  \<^bold>\<open>What is proved of the catalog store.\<close> A catalog is \<^emph>\<open>normal\<close> when
  \<^verbatim>\<open>load_library\<close> finds nothing to repair in it. Every catalog that a load
  returns is normal and is a JSON object that survives a dump and a load
  (\<open>load_library_gives_normal\<close>); a normal catalog is loaded as it is,
  without a write (\<open>load_library_idempotent\<close>); what a successful save
  wrote is what the next load returns (\<open>save_load_roundtrip\<close>); a save
  that returns \<^verbatim>\<open>True\<close> is one write of a catalog whose songs are filed
  under their own \<^verbatim>\<open>id\<close>, and a save that returns \<^verbatim>\<open>False\<close> leaves the
  disk alone (\<open>save_library_files_by_id\<close>). The two functions do raise:
  \<open>load_library_raises_iff\<close> and \<open>save_library_raises_iff\<close> say
  exactly when.

  \<^bold>\<open>What is proved of the deletion and the listing.\<close> The predicate
  \<open>holds_catalog w d\<close> says that the catalog file of the state \<open>w\<close> holds
  the normal catalog \<open>d\<close>. From such a state \<^verbatim>\<open>delete_song\<close> meets
  \<open>delete_spec\<close> and leaves such a state (\<open>delete_song_refines\<close>); a
  second deletion of the same song answers \<^verbatim>\<open>404\<close>
  (\<open>delete_song_twice\<close>); a song whose files are missing is deleted all
  the same (\<open>delete_song_missing_files\<close>); the listing returns every song
  once (\<open>get_songs_lists_catalog\<close>). From any state, \<^verbatim>\<open>delete_song\<close>
  changes the disk outside the catalog file only by removing files whose
  absolute path starts, as a string, with that of the upload folder
  (\<open>delete_song_frame\<close>); \<open>delete_song_not_found_iff\<close> and
  \<open>delete_song_unhandled_iff\<close> say when it answers \<^verbatim>\<open>404\<close> and when an
  exception leaves it. Two examples show what these statements leave open:
  the test on the path lets a file of a folder \<^verbatim>\<open>uploads_old\<close> be removed,
  and a deletion answered \<^verbatim>\<open>404\<close> can have rewritten a catalog of an
  earlier format.

  \<^bold>\<open>What is proved of the resolver and the upload.\<close> The resolver returns a
  record of the eight keys whatever the disk and the tag reader do
  (\<open>get_song_metadata_record\<close>), with the manual artist if there is one
  (\<open>get_song_metadata_manual_artist\<close>), and its cover agrees with the one
  file it may have written (\<open>get_song_metadata_cover\<close>); the loop over
  the embedded pictures is the search \<open>first_picture\<close>
  (\<open>scan_covers_first_picture\<close>). The search for a free file name ends
  (\<open>stored_name_returns\<close>), with a counter bounded by the size of the
  disk (\<open>stored_name_bound\<close>), at the first free name of the policy
  (\<open>stored_name_first_free\<close>). The view answers 400 exactly for the
  requests that fail a check and then changes nothing
  (\<open>upload_file_rejects\<close>); no exception leaves it
  (\<open>upload_file_answers\<close>); an answer 201 means the file is stored under
  a name that was free and the record is filed in the catalog
  (\<open>upload_file_stores\<close>); any other answer leaves the catalog as it was
  (\<open>upload_file_keeps_catalog\<close>), and an answer 500 leaves the whole
  disk as it was when removals do not fail (\<open>upload_file_rolls_back\<close>).

  \<^bold>\<open>What is proved of the file servers and of the server as a whole.\<close> The
  two file servers send files from below their folder only
  (\<open>serve_stays_in_folder\<close>) and answer 500 where the source means to
  answer 404 (\<open>serve_answers_500_not_404\<close>). In this theory,
  \<open>reachable_holds_catalog\<close> carries the invariant \<open>holds_catalog\<close>
  over every sequence of listings and deletions and
  \<open>served_holds_catalog\<close> over every sequence of requests of any kind;
  \<open>serve_all_answers\<close> says that every sequence of requests is answered.
  What was uploaded is served (\<open>upload_then_serve\<close>), listed
  (\<open>upload_then_list\<close>), and can be deleted again, which gives the old
  catalog back (\<open>upload_then_delete\<close>); after a deletion the song is not
  listed (\<open>listing_after_delete\<close>).

  \<^bold>\<open>Bounds, fuel and assumptions.\<close> The loops of the catalog store, of the
  resolver and of the deletion run over the entries of a dictionary or of a
  tag and are structural recursions. The one loop that is not, the search for
  a free file name, is the partial function \<open>free_name\<close> with values in
  \<open>option\<close>; no fuel is used. It returns because the numbered names are
  pairwise different and each name that is taken is an entry of the disk, so
  the loop has found a free one after at most as many rounds as the disk has
  entries, plus one; hence the bound \<open>length (nodes f) + 2\<close> on the
  counter. Identifiers are drawn from a function \<open>uuid4 :: nat \<Rightarrow> string\<close>
  of the environment, applied to the number of identifiers drawn so far; the
  theorems that need it assume \<open>uuid_ok\<close>, that each has 36 characters,
  all of them hexadecimal digits or hyphens. That two identifiers differ is
  not assumed; \<open>upload_then_delete\<close> assumes that the identifier drawn
  is not a key of the catalog. The wording of the \<^verbatim>\<open>TypeError\<close> messages is
  that of CPython 3.11 and 3.12. Requests are handled one after the other;
  the interleaving of two requests inside one view is not modelled.

  \<^bold>\<open>What is not modelled.\<close> The text printed with \<^verbatim>\<open>print\<close>; the HTML page
  (\<^verbatim>\<open>index\<close> returns the name of its template); the creation of the two
  folders at import and \<^verbatim>\<open>app.run\<close>; the size limit that Flask enforces
  before a view runs; symbolic links, permissions and other processes on the
  file system; JSON numbers with a fraction; file names outside ASCII in
  \<^verbatim>\<open>secure_filename\<close>; a file that is not valid UTF-8 (the
  \<^verbatim>\<open>UnicodeDecodeError\<close> of \<^verbatim>\<open>json.load\<close>); the headers, ranges and MIME
  types of a file that is sent. Two simplifications of the file system bound
  what the theorems say. A write is all or nothing: \<^verbatim>\<open>open(path, 'w')\<close>
  either raises, and the file is as it was, or the whole content is written;
  a failure of \<^verbatim>\<open>json.dump\<close> after the file has been truncated (line 111)
  would leave a cut catalog behind a save that returns \<^verbatim>\<open>False\<close>, and
  \<open>save_library_files_by_id\<close> does not speak of it. The tests
  \<^verbatim>\<open>exists\<close> and \<^verbatim>\<open>is_file\<close> never raise: a name too long for the file
  system, for which \<^verbatim>\<open>Path.exists\<close> raises at lines 242, 311 and 333, is
  outside the model.
\<close>

section \<open>The catalog API\<close>

text \<open>
  The two requests under \<^verbatim>\<open>/api/songs\<close>, as Flask routes them to the views
  (the decorators of lines 285 and 293), and that part of the server as a
  function of the request.
\<close>

datatype request = ListSongs | DeleteSong string

fun handle :: "env \<Rightarrow> request \<Rightarrow> world \<Rightarrow> response \<times> world" where
  "handle e ListSongs w = get_songs e w"
| "handle e (DeleteSong song_id) w = delete_song e song_id w"

text \<open>The states the server reaches from a state by such requests.\<close>

inductive reachable :: "env \<Rightarrow> world \<Rightarrow> world \<Rightarrow> bool" for e w0 where
  start: "reachable e w0 w0"
| step: "reachable e w0 w \<Longrightarrow> reachable e w0 (snd (handle e req w))"

section \<open>All routes\<close>

text \<open>The view \<^verbatim>\<open>index\<close> (lines 216--219) renders the page; the template is
  not part of the model.\<close>

definition index :: response where
  "index = Rendered ''index.html''"

text \<open>
  The six routes of the application (the decorators of lines 216, 220, 285,
  293, 373 and 387) and the view each is sent to. The upload is the one view
  with a loop that is not a recursion over its input, so the answer of the
  server is an option; \<open>dispatch_some\<close> below shows it is never
  \<open>None\<close>. The two file servers read the disk and change nothing.
\<close>

datatype route =
    GetIndex
  | PostUpload upload_request
  | Api request
  | GetUploads string
  | GetCovers string

fun dispatch :: "env \<Rightarrow> route \<Rightarrow> world \<Rightarrow> (response \<times> world) option" where
  "dispatch e GetIndex w = Some (index, w)"
| "dispatch e (PostUpload req) w = upload_file e req w"
| "dispatch e (Api req) w = Some (handle e req w)"
| "dispatch e (GetUploads filename) w = Some (serve_uploaded_file (disk w) filename, w)"
| "dispatch e (GetCovers filename) w = Some (serve_cover_file (disk w) filename, w)"

text \<open>A sequence of requests, answered one after the other.\<close>

fun serve_all :: "env \<Rightarrow> route list \<Rightarrow> world \<Rightarrow> (response list \<times> world) option" where
  "serve_all e [] w = Some ([], w)"
| "serve_all e (rt # rts) w =
     (case dispatch e rt w of
        None \<Rightarrow> None
      | Some (r, w1) \<Rightarrow>
          (case serve_all e rts w1 of
             None \<Rightarrow> None
           | Some (rs, w2) \<Rightarrow> Some (r # rs, w2)))"

text \<open>The states the server reaches from a state by requests of any kind.\<close>

inductive served :: "env \<Rightarrow> world \<Rightarrow> world \<Rightarrow> bool" for e w0 where
  initial: "served e w0 w0"
| answered: "served e w0 w \<Longrightarrow> dispatch e rt w = Some (r, w') \<Longrightarrow> served e w0 w'"

text \<open>The identifiers drawn between two states.\<close>

definition drawn :: "env \<Rightarrow> world \<Rightarrow> world \<Rightarrow> pyval set" where
  "drawn e w0 w = (\<lambda>n. PStr (uuid4 e n)) ` {uuid_count w0 ..< uuid_count w}"

section \<open>Facts about the server\<close>

lemma handle_fs_ok: "fs_ok (disk w) \<Longrightarrow> fs_ok (disk (snd (handle e req w)))"
  by (cases req) (simp_all add: get_songs_fs_ok delete_song_keeps_fs_ok)

lemma handle_holds:
  assumes "holds_catalog w d"
  obtains d' where "holds_catalog (snd (handle e req w)) d'"
    and "set (songs_dict d') \<subseteq> set (songs_dict d)"
    and "uuid_count (snd (handle e req w)) = uuid_count w"
proof (cases req)
  case ListSongs
  with assms show thesis by (intro that [of d]) (simp_all add: get_songs_holds)
next
  case (DeleteSong song_id)
  with delete_song_holds [OF assms, of e song_id] that show thesis by auto
qed

text \<open>Every request is answered.\<close>

lemma dispatch_some: "\<exists>r w'. dispatch e rt w = Some (r, w')"
  by (cases rt) (simp_all add: upload_file_some)

lemma dispatch_fs_ok:
  assumes "dispatch e rt w = Some (r, w')" and "fs_ok (disk w)"
  shows "fs_ok (disk w')"
proof (cases rt)
  case (Api req)
  with assms(1) have "w' = snd (handle e req w)" by auto
  with assms(2) show ?thesis by (simp add: handle_fs_ok)
qed (use assms in \<open>auto dest: upload_file_keeps_fs_ok\<close>)

lemma served_fs_ok:
  assumes "served e w0 w" and "fs_ok (disk w0)"
  shows "fs_ok (disk w)"
  using assms by (induction rule: served.induct) (auto dest: dispatch_fs_ok)

lemma reachable_served: "reachable e w0 w \<Longrightarrow> served e w0 w"
proof (induction rule: reachable.induct)
  case (step w req)
  have "dispatch e (Api req) w = Some (fst (handle e req w), snd (handle e req w))" by simp
  with step.IH show ?case by (rule served.answered)
qed (rule served.initial)

lemma serve_all_served: "serve_all e rts w = Some (rs, w') \<Longrightarrow> served e w0 w \<Longrightarrow> served e w0 w'"
  by (induction rts arbitrary: w rs)
    (auto split: option.splits prod.splits intro: served.answered)

text \<open>The keys of the catalog after a request: those it had, and the
  identifier an upload drew.\<close>

lemma drawn_Suc:
  "uuid_count w0 \<le> uuid_count w \<Longrightarrow> uuid_count w' = Suc (uuid_count w) \<Longrightarrow>
     PStr (uuid4 e (uuid_count w)) \<in> drawn e w0 w'"
  by (auto simp: drawn_def)

lemma keys_subset: "set d' \<subseteq> set d \<Longrightarrow> set (dict_keys d') \<subseteq> set (dict_keys d)"
  by (auto simp: dict_keys_def)

lemma dispatch_holds:
  assumes cat: "holds_catalog w d" and uuid: "uuid_ok e"
    and res: "dispatch e rt w = Some (r, w')"
  obtains d' where "holds_catalog w' d'" and "uuid_count w \<le> uuid_count w'"
    and "set (dict_keys (songs_dict d')) \<subseteq> set (dict_keys (songs_dict d)) \<union> hkey ` drawn e w w'"
proof (cases rt)
  case (PostUpload req)
  with res have up: "upload_file e req w = Some (r, w')" by simp
  from cat uuid up show thesis
  proof (cases rule: upload_file_holds)
    case kept
    then show thesis by (intro that [of d]) simp_all
  next
    case (stored mp3_file filename counter md)
    from stored(6) have "PStr (uuid4 e (uuid_count w)) \<in> drawn e w w'"
      by (intro drawn_Suc) simp_all
    with stored(5,6) show thesis
      by (intro that [of "with_song d (uuid4 e (uuid_count w)) md"])
        (auto simp: dict_keys_set split: if_splits)
  qed
next
  case (Api req)
  with res have w': "w' = snd (handle e req w)" by auto
  from cat obtain d' where "holds_catalog (snd (handle e req w)) d'"
    and "set (songs_dict d') \<subseteq> set (songs_dict d)"
    and "uuid_count (snd (handle e req w)) = uuid_count w"
    by (rule handle_holds)
  with w' show thesis by (intro that [of d']) (auto dest: keys_subset)
qed (use assms in \<open>auto intro: that [of d]\<close>)

section \<open>Properties of the server\<close>

text \<open>C7: If the catalog file holds a normal catalog, it does so in every
  state the server reaches by listings and deletions; the songs of the
  catalog then are songs of the first catalog, and no identifier has been
  drawn.\<close>

theorem reachable_holds_catalog:
  assumes "reachable e w0 w" and "holds_catalog w0 d0"
  shows "\<exists>d. holds_catalog w d \<and> set (songs_dict d) \<subseteq> set (songs_dict d0) \<and>
           uuid_count w = uuid_count w0"
  using assms
proof (induction rule: reachable.induct)
  case start
  then show ?case by auto
next
  case (step w req)
  then obtain d where d: "holds_catalog w d" "set (songs_dict d) \<subseteq> set (songs_dict d0)"
    "uuid_count w = uuid_count w0"
    by blast
  from handle_holds [OF d(1), of e req] d(2,3) show ?case by (metis subset_trans)
qed

theorem reachable_holds_catalog_witness:
  "reachable demo_env demo_world deleted_world \<and> holds_catalog demo_world demo_library \<and>
   (\<exists>d. holds_catalog deleted_world d \<and> set (songs_dict d) \<subseteq> set (songs_dict demo_library) \<and>
      uuid_count deleted_world = uuid_count demo_world)"
proof -
  have "reachable demo_env demo_world (snd (handle demo_env (DeleteSong demo_id) demo_world))"
    by (intro reachable.step reachable.start)
  then have r: "reachable demo_env demo_world deleted_world" by (simp add: delete_demo)
  from reachable_holds_catalog [OF r holds_catalog_demo] r holds_catalog_demo
  show ?thesis by simp
qed

text \<open>C21: After a deletion answered \<^verbatim>\<open>200\<close>, the listing returns the records
  of the old catalog without the song, and among them none with the
  identifier of the song.\<close>

theorem listing_after_delete:
  assumes cat: "holds_catalog w d"
    and res: "handle e (DeleteSong song_id) w = (Json 200 body, w')"
  shows "handle e ListSongs w'
           = (Json 200 (PList (map snd (dict_del (songs_dict d) (PStr song_id)))), w') \<and>
         PStr song_id \<notin> set (map listed_id (map snd (dict_del (songs_dict d) (PStr song_id))))"
proof -
  let ?d' = "sset d ''songs'' (PDict (dict_del (songs_dict d) (PStr song_id)))"
  from res have del: "delete_song e song_id w = (Json 200 body, w')" by simp
  from cat del obtain d' where cat': "holds_catalog w' d'"
    and spec: "delete_spec song_id (d, disk w) CommittedToCatalog (d', disk w')"
    by (rule delete_song_specE) (simp add: response_outcome_def)
  from spec have d': "d' = ?d'" by (rule delete_spec_CommittedE) simp
  from cat' have normal: "songs_normal (songs_dict d')"
    by (auto elim: holds_catalogE simp: library_normal_def)
  from cat have "dict_ok (songs_dict d)"
    by (auto elim!: holds_catalogE simp: library_normal_def songs_normal_def)
  then have "PStr song_id \<notin> set (dict_keys (dict_del (songs_dict d) (PStr song_id)))"
    by (simp add: dict_keys_del dict_ok_def)
  moreover from normal d'
  have "map listed_id (map snd (dict_del (songs_dict d) (PStr song_id)))
      = dict_keys (dict_del (songs_dict d) (PStr song_id))"
    using songs_normal_listed_ids(1) [OF normal] songs_normal_keys [OF normal] by simp
  ultimately show ?thesis using get_songs_holds [OF cat', of e] d' by simp
qed

theorem listing_after_delete_witness:
  "holds_catalog demo_world demo_library \<and>
   handle demo_env (DeleteSong demo_id) demo_world
     = (Json 200 (deleted_body demo_env demo_song demo_id), deleted_world) \<and>
   handle demo_env ListSongs deleted_world = (Json 200 (PList []), deleted_world)"
  using listing_after_delete [OF holds_catalog_demo, of demo_env demo_id _ deleted_world]
  by (simp add: holds_catalog_demo delete_demo songs_dict_demo)

lemma served_upload_demo: "served demo_env demo_world uploaded_world"
proof -
  have "dispatch demo_env (PostUpload demo_upload) demo_world
          = Some (Json 201 (uploaded_body ''blue_1.mp3'' uploaded_song), uploaded_world)"
    by (simp add: upload_demo)
  with served.initial show ?thesis by (rule served.answered)
qed

text \<open>C9: If the catalog file holds a normal catalog, it does so in every
  state the server reaches by requests of any kind, uploads included; no
  identifier is given back, and every key of the catalog is a key of the
  first catalog or an identifier drawn since.\<close>

theorem served_holds_catalog:
  assumes "served e w0 w" and "holds_catalog w0 d0" and "uuid_ok e"
  shows "\<exists>d. holds_catalog w d \<and> uuid_count w0 \<le> uuid_count w \<and>
           set (dict_keys (songs_dict d))
             \<subseteq> set (dict_keys (songs_dict d0)) \<union> hkey ` drawn e w0 w"
  using assms
proof (induction rule: served.induct)
  case initial
  then show ?case by auto
next
  case (answered w rt r w')
  then obtain d where d: "holds_catalog w d" "uuid_count w0 \<le> uuid_count w"
    "set (dict_keys (songs_dict d)) \<subseteq> set (dict_keys (songs_dict d0)) \<union> hkey ` drawn e w0 w"
    by blast
  from d(1) answered.prems(2) answered.hyps(2) obtain d' where d': "holds_catalog w' d'"
    "uuid_count w \<le> uuid_count w'"
    "set (dict_keys (songs_dict d')) \<subseteq> set (dict_keys (songs_dict d)) \<union> hkey ` drawn e w w'"
    by (rule dispatch_holds)
  from d(2) d'(2) have "drawn e w w' \<subseteq> drawn e w0 w'" "drawn e w0 w \<subseteq> drawn e w0 w'"
    by (auto simp: drawn_def)
  with d(3) d'(3) have "set (dict_keys (songs_dict d'))
      \<subseteq> set (dict_keys (songs_dict d0)) \<union> hkey ` drawn e w0 w'"
    by blast
  with d(2) d'(1,2) show ?case by (intro exI [of _ d']) simp
qed

theorem served_holds_catalog_witness:
  "served demo_env demo_world uploaded_world \<and> holds_catalog demo_world demo_library \<and>
   uuid_ok demo_env \<and>
   (\<exists>d. holds_catalog uploaded_world d \<and> uuid_count demo_world \<le> uuid_count uploaded_world \<and>
      set (dict_keys (songs_dict d))
        \<subseteq> set (dict_keys (songs_dict demo_library)) \<union> hkey ` drawn demo_env demo_world uploaded_world)"
  using served_holds_catalog [OF served_upload_demo holds_catalog_demo uuid_ok_demo]
  by (simp add: served_upload_demo holds_catalog_demo uuid_ok_demo)

text \<open>C33: Every sequence of requests is answered: the server returns one
  response for each request, whatever the disk holds; the search for a free
  file name in the upload is the only loop that could run on, and it ends.\<close>

theorem serve_all_answers:
  "\<exists>rs w'. serve_all e rts w = Some (rs, w') \<and> length rs = length rts"
proof (induction rts arbitrary: w)
  case Nil
  show ?case by simp
next
  case (Cons rt rts)
  obtain r w1 where "dispatch e rt w = Some (r, w1)" using dispatch_some by blast
  moreover from Cons [of w1] obtain rs w2
    where "serve_all e rts w1 = Some (rs, w2)" "length rs = length rts"
    by blast
  ultimately show ?case by simp
qed

text \<open>C13: What was uploaded is what is served: after an upload answered 201
  to a disk that holds a normal catalog, the request for the stored name
  under \<^verbatim>\<open>/uploads/\<close> is answered with the bytes that were sent, if the
  platform lets the stored file be read.\<close>

theorem upload_then_serve:
  assumes "holds_catalog w d" and "uuid_ok e" and "fs_ok (disk w)"
    and "dispatch e (PostUpload req) w = Some (Json 201 body, w')"
    and "accepted req mp3_file"
    and "stored_name (disk w) (storage_filename mp3_file) = Some (filename, counter)"
    and "read_fault (disk w') (cwd (disk w') @ [''uploads'', filename]) = None"
  shows "dispatch e (GetUploads filename) w' = Some (Sent (Bytes (storage_bytes mp3_file)), w')"
proof -
  from assms(4) have up: "upload_file e req w = Some (Json 201 body, w')" by simp
  from assms(5,6) have name: "name_ok filename" by (auto dest: accepted_allowed stored_name_ok)
  from up assms(3) have ok: "fs_ok (disk w')" by (rule upload_file_keeps_fs_ok)
  from upload_file_bytes [OF assms(1,2,5,6) up] name
  have "node_at (disk w') (cwd (disk w') @ [''uploads'', filename])
          = Some (File (Bytes (storage_bytes mp3_file)))"
    by (auto dest!: stat_SomeD simp: realpath_upload_path)
  with ok name have "serve_uploaded_file (disk w') filename = Sent (Bytes (storage_bytes mp3_file))"
    using assms(7) by (rule serve_uploaded_file_sends)
  then show ?thesis by simp
qed

lemma serve_uploaded_demo:
  "accepted demo_upload demo_file"
  "read_fault (disk uploaded_world) (cwd (disk uploaded_world) @ [''uploads'', ''blue_1.mp3'']) = None"
  "storage_bytes demo_file = ''ID3 tagged''"
  by code_simp+

theorem upload_then_serve_witness:
  "holds_catalog demo_world demo_library \<and> uuid_ok demo_env \<and> fs_ok (disk demo_world) \<and>
   dispatch demo_env (PostUpload demo_upload) demo_world
     = Some (Json 201 (uploaded_body ''blue_1.mp3'' uploaded_song), uploaded_world) \<and>
   dispatch demo_env (GetUploads ''blue_1.mp3'') uploaded_world
     = Some (Sent (Bytes ''ID3 tagged''), uploaded_world)"
proof -
  have up: "dispatch demo_env (PostUpload demo_upload) demo_world
     = Some (Json 201 (uploaded_body ''blue_1.mp3'' uploaded_song), uploaded_world)"
    by (simp add: upload_demo)
  have name: "stored_name (disk demo_world) (storage_filename demo_file) = Some (''blue_1.mp3'', 2)"
    using stored_name_demo by (simp add: demo_file_def)
  have ok: "fs_ok (disk demo_world)" using fs_ok_demo by simp
  from upload_then_serve [OF holds_catalog_demo uuid_ok_demo ok up serve_uploaded_demo(1) name
      serve_uploaded_demo(2)]
  show ?thesis using holds_catalog_demo uuid_ok_demo ok up by (simp add: serve_uploaded_demo(3))
qed

text \<open>C34: What was uploaded is what is listed: after an upload answered 201
  to a disk that holds a normal catalog, the listing returns the records of
  the old catalog with the record of the answer filed under the new
  identifier, and that record is among them.\<close>

theorem upload_then_list:
  assumes "holds_catalog w d" and "uuid_ok e"
    and "dispatch e (PostUpload req) w = Some (Json 201 body, w')"
  shows "\<exists>filename md.
           body = uploaded_body filename md \<and>
           dispatch e (Api ListSongs) w'
             = Some (Json 200 (PList (map snd
                  (dict_set (songs_dict d) (PStr (uuid4 e (uuid_count w))) (PDict md)))), w') \<and>
           PDict md \<in> snd ` set (dict_set (songs_dict d) (PStr (uuid4 e (uuid_count w))) (PDict md))"
proof -
  from assms(3) have up: "upload_file e req w = Some (Json 201 body, w')" by simp
  have "\<exists>k'. (k', v) \<in> set (dict_set sd k v)" for sd :: pydict and k v
    by (induction sd) auto
  then have mem: "v \<in> snd ` set (dict_set sd k v)" for sd :: pydict and k v
    by force
  from assms(1,2) up show ?thesis
  proof (cases rule: upload_file_holds)
    case kept
    from kept(2) [of body] show ?thesis by simp
  next
    case (stored mp3_file filename counter md)
    from get_songs_holds [OF stored(5), of e] stored(3) mem show ?thesis by auto
  qed
qed

theorem upload_then_list_witness:
  "holds_catalog demo_world demo_library \<and> uuid_ok demo_env \<and>
   dispatch demo_env (PostUpload demo_upload) demo_world
     = Some (Json 201 (uploaded_body ''blue_1.mp3'' uploaded_song), uploaded_world) \<and>
   (\<exists>filename md. uploaded_body ''blue_1.mp3'' uploaded_song = uploaded_body filename md \<and>
      dispatch demo_env (Api ListSongs) uploaded_world
        = Some (Json 200 (PList (map snd
             (dict_set (songs_dict demo_library) (PStr (uuid4 demo_env (uuid_count demo_world)))
                (PDict md)))), uploaded_world))"
proof -
  have up: "dispatch demo_env (PostUpload demo_upload) demo_world
     = Some (Json 201 (uploaded_body ''blue_1.mp3'' uploaded_song), uploaded_world)"
    by (simp add: upload_demo)
  from upload_then_list [OF holds_catalog_demo uuid_ok_demo up]
  show ?thesis using holds_catalog_demo uuid_ok_demo up by blast
qed

text \<open>Deleting the record an upload filed gives the old catalog back.\<close>

lemma with_song_deleted:
  assumes "library_normal d" and "\<not> dict_has (songs_dict d) (PStr song_id)"
  shows "sset (with_song d song_id md) ''songs''
           (PDict (dict_del (songs_dict (with_song d song_id md)) (PStr song_id))) = d"
  using assms by (simp add: with_song_def dict_del_set_absent sset_songs_same library_normal_def)

lemma song_record_audio_path:
  "song_record song_id name md \<Longrightarrow> name \<noteq> [] \<Longrightarrow>
     audio_path md = Some (joinpath (Path UPLOAD_FOLDER) name)"
  by (simp add: song_record_def audio_path_def)

text \<open>C14: What was uploaded can be deleted again: after an upload answered
  201 to a disk that holds a normal catalog without the new identifier, a
  deletion of that identifier answered 200 leaves the catalog that was there
  before the upload, and the stored file is no file any more.\<close>

theorem upload_then_delete:
  assumes cat: "holds_catalog w d" and uuid: "uuid_ok e"
    and fresh: "\<not> dict_has (songs_dict d) (PStr (uuid4 e (uuid_count w)))"
    and up: "dispatch e (PostUpload req) w = Some (Json 201 body, w')"
    and del: "dispatch e (Api (DeleteSong (uuid4 e (uuid_count w)))) w' = Some (Json 200 body', w'')"
  shows "holds_catalog w'' d \<and>
         (\<exists>mp3_file filename counter.
            accepted req mp3_file \<and>
            stored_name (disk w) (storage_filename mp3_file) = Some (filename, counter) \<and>
            \<not> path_is_file (disk w'') (joinpath (Path UPLOAD_FOLDER) filename))"
proof -
  let ?id = "uuid4 e (uuid_count w)"
  from up have "upload_file e req w = Some (Json 201 body, w')" by simp
  with cat uuid show ?thesis
  proof (cases rule: upload_file_holds)
    case kept
    from kept(2) [of body] show ?thesis by simp
  next
    case (stored mp3_file filename counter md)
    let ?p = "joinpath (Path UPLOAD_FOLDER) filename"
    from stored(1,2) have name: "name_ok filename"
      by (auto dest: accepted_allowed stored_name_ok)
    from del have "delete_song e ?id w' = (Json 200 body', w'')" by simp
    with stored(5) obtain d'' where cat'': "holds_catalog w'' d''"
      and spec: "delete_spec ?id (with_song d ?id md, disk w') CommittedToCatalog (d'', disk w'')"
      by (rule delete_song_specE) (simp add: response_outcome_def)
    from cat have normal: "library_normal d" by (rule holds_catalogE)
    let ?d1 = "with_song d ?id md"
    from spec obtain song_info g where
      get: "dict_get (songs_dict ?d1) (PStr ?id) = Some (PDict song_info)"
      and gone: "gone g (audio_path song_info)"
      and eq: "d'' = sset ?d1 ''songs'' (PDict (dict_del (songs_dict ?d1) (PStr ?id)))"
      and wr: "fs_write g LIBRARY_FILE (Doc (PDict d'')) = Inr (disk w'')"
      by (auto elim: delete_spec_CommittedE)
    from eq have d'': "d'' = d" by (simp only: with_song_deleted [OF normal fresh])
    from get have "song_info = md" by simp
    note gone = gone [unfolded this]
    from stored(4) name have "audio_path md = Some ?p"
      by (intro song_record_audio_path) (auto simp: name_ok_def)
    with gone have "\<not> path_is_file g ?p" by (simp add: gone_def)
    moreover from wr catalog_not_upload [OF name, of g, symmetric]
    have "stat (disk w'') (path_str ?p) = stat g (path_str ?p)"
      by (rule fs_write_other)
    ultimately have "\<not> path_is_file (disk w'') ?p" by (simp add: path_is_file_def)
    with cat'' d'' stored(1,2) show ?thesis by blast
  qed
qed


lemma delete_uploaded_demo:
  "delete_song demo_env (demo_uuid 0) uploaded_world
     = (Json 200 (deleted_body demo_env uploaded_song (demo_uuid 0)),
        demo_world\<lparr>uuid_count := 1\<rparr>)"
  "\<not> dict_has (songs_dict demo_library) (PStr (demo_uuid 0))"
  "uuid4 demo_env 0 = demo_uuid 0"
  by code_simp+

theorem upload_then_delete_witness:
  "holds_catalog demo_world demo_library \<and> uuid_ok demo_env \<and>
   \<not> dict_has (songs_dict demo_library) (PStr (demo_uuid 0)) \<and>
   dispatch demo_env (PostUpload demo_upload) demo_world
     = Some (Json 201 (uploaded_body ''blue_1.mp3'' uploaded_song), uploaded_world) \<and>
   dispatch demo_env (Api (DeleteSong (demo_uuid 0))) uploaded_world
     = Some (Json 200 (deleted_body demo_env uploaded_song (demo_uuid 0)),
             demo_world\<lparr>uuid_count := 1\<rparr>) \<and>
   holds_catalog (demo_world\<lparr>uuid_count := 1\<rparr>) demo_library"
proof -
  have up: "dispatch demo_env (PostUpload demo_upload) demo_world
     = Some (Json 201 (uploaded_body ''blue_1.mp3'' uploaded_song), uploaded_world)"
    by (simp add: upload_demo)
  have del: "dispatch demo_env (Api (DeleteSong (uuid4 demo_env (uuid_count demo_world)))) uploaded_world
     = Some (Json 200 (deleted_body demo_env uploaded_song (demo_uuid 0)),
             demo_world\<lparr>uuid_count := 1\<rparr>)"
    by (simp add: delete_uploaded_demo)
  have fresh: "\<not> dict_has (songs_dict demo_library) (PStr (uuid4 demo_env (uuid_count demo_world)))"
    by (simp add: delete_uploaded_demo)
  from upload_then_delete [OF holds_catalog_demo uuid_ok_demo fresh up del]
  show ?thesis using holds_catalog_demo uuid_ok_demo up del fresh
    by (simp add: delete_uploaded_demo)
qed

end
